theory Spec2Isabelle
  imports Main "HOL-Library.Word" "HOL-Library.Sublist"
begin

unbundle bit_operations_syntax

section \<open>The binary reader (src/binary/reader-inl.h)\<close>

text \<open>
  A \<open>SpanU8\<close> is a view of the bytes that are still to be read; a reader takes the
  span by pointer and advances it.  In the model a reader is a function from the span to
  the triple of its optional result, the span it leaves behind, and the messages it
  handed to \<open>errors.OnError\<close>, in order.  The error contexts that the readers push
  and pop around a read do not change any result and are left out of the log.
\<close>

type_synonym u8 = "8 word"
type_synonym u32 = "32 word"
type_synonym u64 = "64 word"
type_synonym SpanU8 = "u8 list"
type_synonym Index = u32

text \<open>
  The enumerators of \<open>Opcode\<close> are declared in a header that is not part of the
  sources at hand; an opcode is identified by the name of its enumerator.  The decoded
  form of a block type is left unspecified.
\<close>

type_synonym Opcode = string

typedecl BlockType

datatype Immediate =
    EmptyImmediate
  | BlockTypeImmediate BlockType
  | IndexImmediate Index
  | BrTableImmediate "Index list" Index
  | CallIndirectImmediate Index u8
  | MemArgImmediate u32 u32
  | U8Immediate u8
  | S32Immediate u32
  | S64Immediate u64
  | F32Immediate SpanU8
  | F64Immediate SpanU8

datatype Instr = Instr (opcode: Opcode) (immediate: Immediate)

datatype Error =
    UnableToReadU8
  | UnableToReadBytes nat
  | LastByteSignExtension string u8 u8 u8
  | LastByteZeroExtension string u8 u8
  | CountLongerThanData u32 nat
  | UnableToReadString u32
  | UnknownOpcodeByte u8
  | UnknownBlockType u8
  | UnknownOpcode Opcode
  | UnexpectedEndOfConstExpr
  | IllegalInstructionInConstExpr Instr
  | ExpectedEndInstruction
  | MagicMismatch SpanU8 SpanU8
  | VersionMismatch SpanU8 SpanU8

type_synonym 'a Result = "'a option \<times> SpanU8 \<times> Error list"

text \<open>The macro \<open>WASP_TRY_READ(var, call)\<close>: return \<open>nullopt\<close> when the call did,
  go on with its value otherwise.\<close>

definition WASP_TRY_READ :: "'a Result \<Rightarrow> ('a \<Rightarrow> SpanU8 \<Rightarrow> 'b Result) \<Rightarrow> 'b Result" where
  "WASP_TRY_READ call k =
     (case call of
        (None, data, es) \<Rightarrow> (None, data, es)
      | (Some var, data, es) \<Rightarrow>
          (case k var data of (r, data', es') \<Rightarrow> (r, data', es @ es')))"

definition Read_u8 :: "SpanU8 \<Rightarrow> u8 Result" where
  "Read_u8 data =
     (if length data < 1 then (None, data, [UnableToReadU8])
      else (Some (data ! 0), drop 1 data, []))"

definition ReadBytes :: "SpanU8 \<Rightarrow> nat \<Rightarrow> SpanU8 Result" where
  "ReadBytes data N =
     (if length data < N then (None, data, [UnableToReadBytes N])
      else (Some (take N data), drop N data, []))"

text \<open>\<open>SignExtend<S>(x, N)\<close>: shift left so that bit \<open>N\<close> becomes the sign bit, then
  shift right arithmetically by the same amount.\<close>

definition SignExtend :: "'a::len word \<Rightarrow> nat \<Rightarrow> 'a word" where
  "SignExtend x N =
     signed_drop_bit (LENGTH('a) - N - 1) (push_bit (LENGTH('a) - N - 1) x)"

text \<open>The compile-time constants of \<open>ReadVarInt<T>\<close>; \<open>LENGTH('a)\<close> is
  \<open>sizeof(T) * 8\<close>.\<close>

definition kMaxBytes :: "'a::len itself \<Rightarrow> nat" where
  "kMaxBytes T = (LENGTH('a) + 6) div 7"

definition kUsedBitsInLastByte :: "'a::len itself \<Rightarrow> nat" where
  "kUsedBitsInLastByte T = LENGTH('a) - 7 * (kMaxBytes T - 1)"

definition kMaskBits :: "'a::len itself \<Rightarrow> bool \<Rightarrow> nat" where
  "kMaskBits T is_signed = kUsedBitsInLastByte T - (if is_signed then 1 else 0)"

definition kMask :: "'a::len itself \<Rightarrow> bool \<Rightarrow> u8" where
  "kMask T is_signed = NOT (push_bit (kMaskBits T is_signed) 1 - 1)"

definition kOnes :: "'a::len itself \<Rightarrow> bool \<Rightarrow> u8" where
  "kOnes T is_signed = kMask T is_signed AND 0x7f"

text \<open>The loop of \<open>ReadVarInt\<close>; \<open>i\<close> is the number of bytes read so far and
  \<open>result\<close> the bits collected from them.  The result is the bit pattern of the
  value, for the signed and the unsigned instances alike.\<close>

function ReadVarInt_loop ::
  "bool \<Rightarrow> string \<Rightarrow> nat \<Rightarrow> 'a::len word \<Rightarrow> SpanU8 \<Rightarrow> 'a word Result" where
  "ReadVarInt_loop is_signed desc i result data =
     (case Read_u8 data of
        (None, data', es) \<Rightarrow> (None, data', es)
      | (Some byte, data', es) \<Rightarrow>
          (let shift = i * 7;
               result' = result OR push_bit shift (ucast (byte AND 0x7f))
           in if i + 1 = kMaxBytes TYPE('a) then
                if byte AND kMask TYPE('a) is_signed = 0 \<or>
                   (is_signed \<and> byte AND kMask TYPE('a) is_signed = kOnes TYPE('a) is_signed)
                then (Some result', data', es)
                else
                  (let zero_ext = byte AND NOT (kMask TYPE('a) is_signed) AND 0x7f;
                       one_ext = (byte OR kOnes TYPE('a) is_signed) AND 0x7f
                   in if is_signed
                      then (None, data', es @ [LastByteSignExtension desc zero_ext one_ext byte])
                      else (None, data', es @ [LastByteZeroExtension desc zero_ext byte]))
              else if byte AND 0x80 = 0 then
                (Some (if is_signed then SignExtend result' (6 + shift) else result'), data', es)
              else ReadVarInt_loop is_signed desc (i + 1) result' data'))"
  by pat_completeness auto
termination
  by (relation "measure (\<lambda>(s, d, i, r, data). length data)")
     (auto simp: Read_u8_def split: if_splits)

definition ReadVarInt :: "bool \<Rightarrow> SpanU8 \<Rightarrow> string \<Rightarrow> 'a::len word Result" where
  "ReadVarInt is_signed data desc = ReadVarInt_loop is_signed desc 0 0 data"

definition Read_u32 :: "SpanU8 \<Rightarrow> u32 Result" where
  "Read_u32 data = ReadVarInt False data ''vu32''"

definition ReadIndex :: "SpanU8 \<Rightarrow> Index Result" where
  "ReadIndex data = ReadVarInt False data ''index''"

definition Read_s32 :: "SpanU8 \<Rightarrow> u32 Result" where
  "Read_s32 data = ReadVarInt True data ''vs32''"

definition Read_s64 :: "SpanU8 \<Rightarrow> u64 Result" where
  "Read_s64 data = ReadVarInt True data ''vs64''"

text \<open>\<open>Read<f32>\<close> and \<open>Read<f64>\<close> copy four and eight bytes into a float; the model
  keeps the bytes.\<close>

definition Read_f32 :: "SpanU8 \<Rightarrow> SpanU8 Result" where
  "Read_f32 data = WASP_TRY_READ (ReadBytes data 4) (\<lambda>bytes data. (Some bytes, data, []))"

definition Read_f64 :: "SpanU8 \<Rightarrow> SpanU8 Result" where
  "Read_f64 data = WASP_TRY_READ (ReadBytes data 8) (\<lambda>bytes data. (Some bytes, data, []))"

definition ReadCount :: "SpanU8 \<Rightarrow> Index Result" where
  "ReadCount data =
     (case ReadIndex data of
        (None, data', es) \<Rightarrow> (None, data', es)
      | (Some count, data', es) \<Rightarrow>
          if unat count > length data'
          then (None, data', es @ [CountLongerThanData count (length data')])
          else (Some count, data', es))"

definition ReadStr :: "SpanU8 \<Rightarrow> string \<Rightarrow> SpanU8 Result" where
  "ReadStr data desc =
     (case ReadCount data of
        (None, data', es) \<Rightarrow> (None, data', es)
      | (Some len, data', es) \<Rightarrow>
          if unat len > length data'
          then (None, data', es @ [UnableToReadString len])
          else (Some (take (unat len) data'), drop (unat len) data', es))"

text \<open>The loop of \<open>ReadVec<T>\<close>, \<open>n\<close> elements to go.\<close>

fun ReadVec_loop :: "(SpanU8 \<Rightarrow> 'a Result) \<Rightarrow> nat \<Rightarrow> 'a list \<Rightarrow> SpanU8 \<Rightarrow> 'a list Result" where
  "ReadVec_loop read_elt 0 result data = (Some result, data, [])"
| "ReadVec_loop read_elt (Suc n) result data =
     (case read_elt data of
        (None, data', es) \<Rightarrow> (None, data', es)
      | (Some elt, data', es) \<Rightarrow>
          (case ReadVec_loop read_elt n (result @ [elt]) data' of
             (r, data'', es') \<Rightarrow> (r, data'', es @ es')))"

definition ReadVec :: "(SpanU8 \<Rightarrow> 'a Result) \<Rightarrow> SpanU8 \<Rightarrow> string \<Rightarrow> 'a list Result" where
  "ReadVec read_elt data desc =
     WASP_TRY_READ (ReadCount data) (\<lambda>len data. ReadVec_loop read_elt (unat len) [] data)"

subsection \<open>The module header\<close>

text \<open>
  Modelled from the spec: \<open>encoding::Magic\<close> and \<open>encoding::Version\<close> are constants of
  \<open>src/binary/encoding.h\<close>, which is not part of the sources at hand.  The spec gives the
  magic as the bytes \<open>00 61 73 6D\<close> and the version as \<open>01 00 00 00\<close>.
\<close>

definition kMagic :: SpanU8 where
  "kMagic = [0x00, 0x61, 0x73, 0x6D]"

definition kVersion :: SpanU8 where
  "kVersion = [0x01, 0x00, 0x00, 0x00]"

text \<open>
  \<open>*opt\<close> on a \<open>std::optional\<close> that holds no value is undefined behaviour; the model
  makes it a fault of its own, and the constructor returns either the fault or the
  module it built together with the errors it reported.
\<close>

datatype Fault = DereferencedNullopt

definition deref :: "'a option \<Rightarrow> Fault + 'a" where
  "deref opt = (case opt of None \<Rightarrow> Inl DereferencedNullopt | Some v \<Rightarrow> Inr v)"

record LazyModule =
  magic :: "SpanU8 option"
  version :: "SpanU8 option"
  sections :: SpanU8

definition LazyModule_ctor :: "SpanU8 \<Rightarrow> Fault + (LazyModule \<times> Error list)" where
  "LazyModule_ctor data0 =
     (case ReadBytes data0 4 of (magic_v, data1, es1) \<Rightarrow>
      case ReadBytes data1 4 of (version_v, data, es2) \<Rightarrow>
      let this = \<lparr>magic = magic_v, version = version_v, sections = data\<rparr>;
          errors = es1 @ es2
      in case (if magic_v \<noteq> Some kMagic
               then (case deref magic_v of
                       Inl fault \<Rightarrow> Inl fault
                     | Inr got \<Rightarrow> Inr (errors @ [MagicMismatch kMagic got]))
               else Inr errors) of
           Inl fault \<Rightarrow> Inl fault
         | Inr errors \<Rightarrow>
             (if version_v \<noteq> Some kVersion
              then (case deref version_v of
                      Inl fault \<Rightarrow> Inl fault
                    | Inr got \<Rightarrow> Inr (this, errors @ [VersionMismatch kVersion got]))
              else Inr (this, errors)))"

subsection \<open>Instructions and constant expressions\<close>

text \<open>
  \<open>encoding::Opcode::Decode\<close> and \<open>encoding::BlockType::Decode\<close> belong to the same
  missing header.  The readers below take the two decoders as the parameter \<open>enc\<close>, so
  that what is proved of them holds for every encoding.
\<close>

record Encoding =
  Opcode_Decode :: "u8 \<Rightarrow> Opcode option"
  BlockType_Decode :: "u8 \<Rightarrow> BlockType option"

definition Read_BlockType :: "Encoding \<Rightarrow> SpanU8 \<Rightarrow> BlockType Result" where
  "Read_BlockType enc data =
     WASP_TRY_READ (Read_u8 data) (\<lambda>val data.
       case BlockType_Decode enc val of
         None \<Rightarrow> (None, data, [UnknownBlockType val])
       | Some decoded \<Rightarrow> (Some decoded, data, []))"

definition Read_Opcode :: "Encoding \<Rightarrow> SpanU8 \<Rightarrow> Opcode Result" where
  "Read_Opcode enc data =
     WASP_TRY_READ (Read_u8 data) (\<lambda>val data.
       case Opcode_Decode enc val of
         None \<Rightarrow> (None, data, [UnknownOpcodeByte val])
       | Some decoded \<Rightarrow> (Some decoded, data, []))"

definition Read_MemArg :: "SpanU8 \<Rightarrow> (u32 \<times> u32) Result" where
  "Read_MemArg data =
     WASP_TRY_READ (Read_u32 data) (\<lambda>align_log2 data.
     WASP_TRY_READ (Read_u32 data) (\<lambda>offset data.
       (Some (align_log2, offset), data, [])))"

text \<open>The case labels of the switch in \<open>Read(..., Tag<Instr>)\<close>, group by group.\<close>

definition no_immediate_opcodes :: "Opcode list" where
  "no_immediate_opcodes =
     [''End'', ''Unreachable'', ''Nop'', ''Else'', ''Return'', ''Drop'', ''Select'',
      ''I32Eqz'', ''I32Eq'', ''I32Ne'', ''I32LtS'', ''I32LeS'', ''I32LtU'', ''I32LeU'',
      ''I32GtS'', ''I32GeS'', ''I32GtU'', ''I32GeU'', ''I64Eqz'', ''I64Eq'', ''I64Ne'',
      ''I64LtS'', ''I64LeS'', ''I64LtU'', ''I64LeU'', ''I64GtS'', ''I64GeS'',
      ''I64GtU'', ''I64GeU'', ''F32Eq'', ''F32Ne'', ''F32Lt'', ''F32Le'', ''F32Gt'',
      ''F32Ge'', ''F64Eq'', ''F64Ne'', ''F64Lt'', ''F64Le'', ''F64Gt'', ''F64Ge'',
      ''I32Clz'', ''I32Ctz'', ''I32Popcnt'', ''I32Add'', ''I32Sub'', ''I32Mul'',
      ''I32DivS'', ''I32DivU'', ''I32RemS'', ''I32RemU'', ''I32And'', ''I32Or'',
      ''I32Xor'', ''I32Shl'', ''I32ShrS'', ''I32ShrU'', ''I32Rotl'', ''I32Rotr'',
      ''I64Clz'', ''I64Ctz'', ''I64Popcnt'', ''I64Add'', ''I64Sub'', ''I64Mul'',
      ''I64DivS'', ''I64DivU'', ''I64RemS'', ''I64RemU'', ''I64And'', ''I64Or'',
      ''I64Xor'', ''I64Shl'', ''I64ShrS'', ''I64ShrU'', ''I64Rotl'', ''I64Rotr'',
      ''F32Abs'', ''F32Neg'', ''F32Ceil'', ''F32Floor'', ''F32Trunc'', ''F32Nearest'',
      ''F32Sqrt'', ''F32Add'', ''F32Sub'', ''F32Mul'', ''F32Div'', ''F32Min'',
      ''F32Max'', ''F32Copysign'', ''F64Abs'', ''F64Neg'', ''F64Ceil'', ''F64Floor'',
      ''F64Trunc'', ''F64Nearest'', ''F64Sqrt'', ''F64Add'', ''F64Sub'', ''F64Mul'',
      ''F64Div'', ''F64Min'', ''F64Max'', ''F64Copysign'', ''I32WrapI64'',
      ''I32TruncSF32'', ''I32TruncUF32'', ''I32TruncSF64'', ''I32TruncUF64'',
      ''I64ExtendSI32'', ''I64ExtendUI32'', ''I64TruncSF32'', ''I64TruncUF32'',
      ''I64TruncSF64'', ''I64TruncUF64'', ''F32ConvertSI32'', ''F32ConvertUI32'',
      ''F32ConvertSI64'', ''F32ConvertUI64'', ''F32DemoteF64'', ''F64ConvertSI32'',
      ''F64ConvertUI32'', ''F64ConvertSI64'', ''F64ConvertUI64'', ''F64PromoteF32'',
      ''I32ReinterpretF32'', ''I64ReinterpretF64'', ''F32ReinterpretI32'',
      ''F64ReinterpretI64'']"

definition block_type_opcodes :: "Opcode list" where
  "block_type_opcodes =
     [''Block'', ''Loop'', ''If'']"

definition index_opcodes :: "Opcode list" where
  "index_opcodes =
     [''Br'', ''BrIf'', ''Call'', ''GetLocal'', ''SetLocal'', ''TeeLocal'',
      ''GetGlobal'', ''SetGlobal'']"

definition memarg_opcodes :: "Opcode list" where
  "memarg_opcodes =
     [''I32Load'', ''I64Load'', ''F32Load'', ''F64Load'', ''I32Load8S'', ''I32Load8U'',
      ''I32Load16S'', ''I32Load16U'', ''I64Load8S'', ''I64Load8U'', ''I64Load16S'',
      ''I64Load16U'', ''I64Load32S'', ''I64Load32U'', ''I32Store'', ''I64Store'',
      ''F32Store'', ''F64Store'', ''I32Store8'', ''I32Store16'', ''I64Store8'',
      ''I64Store16'', ''I64Store32'']"

definition reserved_opcodes :: "Opcode list" where
  "reserved_opcodes =
     [''MemorySize'', ''MemoryGrow'']"

definition Read_Instr :: "Encoding \<Rightarrow> SpanU8 \<Rightarrow> Instr Result" where
  "Read_Instr enc data =
     WASP_TRY_READ (Read_Opcode enc data) (\<lambda>opcode data.
       if opcode \<in> set no_immediate_opcodes then
         (Some (Instr opcode EmptyImmediate), data, [])
       else if opcode \<in> set block_type_opcodes then
         WASP_TRY_READ (Read_BlockType enc data) (\<lambda>type data.
           (Some (Instr opcode (BlockTypeImmediate type)), data, []))
       else if opcode \<in> set index_opcodes then
         WASP_TRY_READ (ReadIndex data) (\<lambda>index data.
           (Some (Instr opcode (IndexImmediate index)), data, []))
       else if opcode = ''BrTable'' then
         WASP_TRY_READ (ReadVec Read_u32 data ''br_table targets'') (\<lambda>targets data.
         WASP_TRY_READ (ReadIndex data) (\<lambda>default_target data.
           (Some (Instr opcode (BrTableImmediate targets default_target)), data, [])))
       else if opcode = ''CallIndirect'' then
         WASP_TRY_READ (ReadIndex data) (\<lambda>index data.
         WASP_TRY_READ (Read_u8 data) (\<lambda>reserved data.
           (Some (Instr opcode (CallIndirectImmediate index reserved)), data, [])))
       else if opcode \<in> set memarg_opcodes then
         WASP_TRY_READ (Read_MemArg data) (\<lambda>memarg data.
           (Some (Instr opcode (MemArgImmediate (fst memarg) (snd memarg))), data, []))
       else if opcode \<in> set reserved_opcodes then
         WASP_TRY_READ (Read_u8 data) (\<lambda>reserved data.
           (Some (Instr opcode (U8Immediate reserved)), data, []))
       else if opcode = ''I32Const'' then
         WASP_TRY_READ (Read_s32 data) (\<lambda>v data.
           (Some (Instr opcode (S32Immediate v)), data, []))
       else if opcode = ''I64Const'' then
         WASP_TRY_READ (Read_s64 data) (\<lambda>v data.
           (Some (Instr opcode (S64Immediate v)), data, []))
       else if opcode = ''F32Const'' then
         WASP_TRY_READ (Read_f32 data) (\<lambda>v data.
           (Some (Instr opcode (F32Immediate v)), data, []))
       else if opcode = ''F64Const'' then
         WASP_TRY_READ (Read_f64 data) (\<lambda>v data.
           (Some (Instr opcode (F64Immediate v)), data, []))
       else (None, data, [UnknownOpcode opcode]))"

text \<open>
  Modelled from the spec: the iterator of a lazy sequence of instructions.  Its
  constructor, \<open>Increment\<close> and \<open>operator++\<close> are in the source; \<open>empty\<close>, \<open>clear\<close>,
  the comparison with \<open>end()\<close> and the sequence itself are declared in a header that is
  not part of the sources at hand.  Following the spec (on an error the iterator yields
  its terminal value), \<open>empty\<close> holds when no byte is left, \<open>clear\<close> turns the iterator
  into the terminal one, and an iterator equals \<open>end()\<close> when it holds no value.
\<close>

record LazySequenceIterator =
  it_data :: SpanU8
  it_value :: "Instr option"

definition it_empty :: "LazySequenceIterator \<Rightarrow> bool" where
  "it_empty it = (it_data it = [])"

definition it_clear :: "LazySequenceIterator \<Rightarrow> LazySequenceIterator" where
  "it_clear it = \<lparr>it_data = [], it_value = None\<rparr>"

definition it_is_end :: "LazySequenceIterator \<Rightarrow> bool" where
  "it_is_end it = (it_value it = None)"

definition Increment :: "Encoding \<Rightarrow> LazySequenceIterator \<Rightarrow> LazySequenceIterator \<times> Error list" where
  "Increment enc it =
     (if \<not> it_empty it then
        (case Read_Instr enc (it_data it) of
           (None, data', es) \<Rightarrow> (it_clear (it\<lparr>it_data := data', it_value := None\<rparr>), es)
         | (Some v, data', es) \<Rightarrow> (it\<lparr>it_data := data', it_value := Some v\<rparr>, es))
      else (it_clear it, []))"

definition LazySequenceIterator_ctor :: "Encoding \<Rightarrow> SpanU8 \<Rightarrow> LazySequenceIterator \<times> Error list" where
  "LazySequenceIterator_ctor enc data =
     (let this = \<lparr>it_data = data, it_value = None\<rparr>
      in if \<not> it_empty this then Increment enc this else (this, []))"

definition const_expr_opcodes :: "Opcode list" where
  "const_expr_opcodes = [''I32Const'', ''I64Const'', ''F32Const'', ''F64Const'', ''GetGlobal'']"

text \<open>\<open>Read(..., Tag<ConstExpr<>>)\<close>.  The instructions are read from a copy of the span;
  the span itself moves only when the expression is accepted.\<close>

definition Read_ConstExpr :: "Encoding \<Rightarrow> SpanU8 \<Rightarrow> SpanU8 Result" where
  "Read_ConstExpr enc data =
     (case LazySequenceIterator_ctor enc data of (iter, es1) \<Rightarrow>
      if it_is_end iter then (None, data, es1 @ [UnexpectedEndOfConstExpr])
      else
        case it_value iter of
          None \<Rightarrow> (None, data, es1 @ [UnexpectedEndOfConstExpr])
        | Some instr \<Rightarrow>
            (case Increment enc iter of (iter, es2) \<Rightarrow>
             if opcode instr \<in> set const_expr_opcodes then
               if it_is_end iter \<or> map_option opcode (it_value iter) \<noteq> Some ''End''
               then (None, data, es1 @ es2 @ [ExpectedEndInstruction])
               else
                 (let len = length data - length (it_data iter)
                  in (Some (take len data), drop len data, es1 @ es2))
             else (None, data, es1 @ es2 @ [IllegalInstructionInConstExpr instr])))"


subsection \<open>Notions used to state the properties of the reader\<close>

text \<open>The bits that \<open>ReadVarInt\<close> has collected after the bytes \<open>bs\<close>, the first of
  them being byte number \<open>i\<close>.\<close>

fun accumulate :: "nat \<Rightarrow> 'a::len word \<Rightarrow> SpanU8 \<Rightarrow> 'a word" where
  "accumulate i acc [] = acc"
| "accumulate i acc (b # bs) =
     accumulate (i + 1) (acc OR push_bit (i * 7) (ucast (b AND 0x7f))) bs"

text \<open>The number that the low seven bits of the bytes spell in base 128, least
  significant byte first.\<close>

fun leb_payload :: "SpanU8 \<Rightarrow> nat" where
  "leb_payload [] = 0"
| "leb_payload (b # bs) = unat (b AND 0x7f) + 128 * leb_payload bs"

text \<open>
  What the last admissible byte of a varint has to look like, in terms of its bits.  The
  byte carries \<open>used\<close> bits of the value.  Unsigned: every bit above them, the
  continuation bit included, is clear.  Signed: the continuation bit is clear and the bits
  between the value bits and the continuation bit repeat the highest value bit.
\<close>

definition last_byte_ok :: "'a::len itself \<Rightarrow> bool \<Rightarrow> u8 \<Rightarrow> bool" where
  "last_byte_ok T is_signed byte =
     (let used = LENGTH('a) - 7 * ((LENGTH('a) + 6) div 7 - 1) in
      if is_signed
      then \<not> bit byte 7 \<and> (\<forall>n. used \<le> n \<and> n < 7 \<longrightarrow> bit byte n = bit byte (used - 1))
      else (\<forall>n. used \<le> n \<and> n < 8 \<longrightarrow> \<not> bit byte n))"

text \<open>An encoding to run the reader on: it decodes \<open>0B\<close> as \<open>end\<close>, \<open>41\<close> as
  \<open>i32.const\<close>, \<open>D0\<close> as \<open>ref.null\<close> and \<open>D2\<close> as \<open>ref.func\<close>, the bytes these
  instructions have in the WebAssembly binary format, and no block type.\<close>

definition sample_encoding :: Encoding where
  "sample_encoding =
     \<lparr>Opcode_Decode = (\<lambda>b. if b = 0x0B then Some ''End''
                            else if b = 0x41 then Some ''I32Const''
                            else if b = 0xD0 then Some ''RefNull''
                            else if b = 0xD2 then Some ''RefFunc''
                            else None),
      BlockType_Decode = (\<lambda>b. None)\<rparr>"

section \<open>The lexer of the text format (src/text/lex.cc)\<close>

text \<open>
  The lexer reads bytes; \<open>char\<close> is the type of bytes, so a span of bytes is a
  \<open>string\<close>.  A function of the lexer that takes the span by pointer returns the span it
  leaves behind next to its result.  A \<open>Location\<close> is the part of the input between two
  positions; the model keeps the bytes it covers.
\<close>

type_synonym Location = string

text \<open>
  The token types, value types, literal kinds and feature bits are enumerations of headers
  that are not part of the sources at hand (as the opcodes are).  An enumerator is
  identified by its name; a set of feature bits is the list of their names, empty for
  \<open>0\<close>.
\<close>

type_synonym TokenType = string
type_synonym ValueType = string
type_synonym ReferenceType = string
type_synonym LiteralKind = string
type_synonym Features = "string list"

datatype Sign = Sign_None | Plus | Minus

datatype HasUnderscores = No | Yes

text \<open>The calls that build a \<open>LiteralInfo\<close>, one constructor for each.\<close>

datatype LiteralInfo =
    LiteralInfo_HexNat HasUnderscores
  | LiteralInfo_Nat HasUnderscores
  | LiteralInfo_Infinity Sign
  | LiteralInfo_NanPayload Sign HasUnderscores
  | LiteralInfo_Nan Sign
  | LiteralInfo_Number Sign HasUnderscores
  | LiteralInfo_HexNumber Sign HasUnderscores
  | LiteralInfo_Kind LiteralKind

datatype TokenImmediate =
    monostate
  | OpcodeInfo Opcode Features
  | ValueType_immediate ValueType
  | ReferenceType_immediate ReferenceType
  | LiteralInfo_immediate LiteralInfo
  | Text_immediate Location u32

datatype Token = Token (loc: Location) (type: TokenType) (immediate: TokenImmediate)

text \<open>\<open>MatchGuard::loc\<close>: from the position the guard has saved to the current one.\<close>

definition guard_loc :: "string \<Rightarrow> string \<Rightarrow> Location" where
  "guard_loc orig data = take (length orig - length data) orig"

subsection \<open>Character classes\<close>

datatype CharClass = Reserved | Keyword | HexDigit | Digit

fun CharClass_bit :: "CharClass \<Rightarrow> nat" where
  "CharClass_bit Reserved = 1"
| "CharClass_bit Keyword = 2"
| "CharClass_bit HexDigit = 4"
| "CharClass_bit Digit = 8"

text \<open>The table has 257 entries; the initialiser lists the first 128, the others are zero.\<close>

definition kCharClasses :: "nat list" where
  "kCharClasses =
     [0, 0, 0, 0, 0, 0, 0, 0, 0, 0, 0, 0, 0, 0, 0, 0, 0, 0, 0,
      0, 0, 0, 0, 0, 0, 0, 0, 0, 0, 0, 0, 0, 0, 0, 1, 0, 1, 1,
      1, 1, 1, 0, 0, 1, 1, 0, 1, 1, 1, 13, 13, 13, 13, 13, 13, 13, 13,
      13, 13, 1, 0, 1, 1, 1, 1, 1, 5, 5, 5, 5, 5, 5, 1, 1, 1, 1,
      1, 1, 1, 1, 1, 1, 1, 1, 1, 1, 1, 1, 1, 1, 1, 1, 0, 1, 0,
      1, 1, 1, 7, 7, 7, 7, 7, 7, 3, 3, 3, 3, 3, 3, 3, 3, 3, 3,
      3, 3, 3, 3, 3, 3, 3, 3, 3, 3, 0, 1, 0, 1] @ replicate 129 0"

definition IsCharClass :: "int \<Rightarrow> CharClass \<Rightarrow> bool" where
  "IsCharClass c b = (kCharClasses ! nat (c + 1) AND CharClass_bit b \<noteq> 0)"

definition IsDigit :: "int \<Rightarrow> bool" where
  "IsDigit c = IsCharClass c Digit"

definition IsHexDigit :: "int \<Rightarrow> bool" where
  "IsHexDigit c = IsCharClass c HexDigit"

definition IsReserved :: "int \<Rightarrow> bool" where
  "IsReserved c = IsCharClass c Reserved"

subsection \<open>Reading characters\<close>

definition PeekChar :: "string \<Rightarrow> nat \<Rightarrow> int" where
  "PeekChar data offset = (if offset \<ge> length data then - 1 else of_char (data ! offset))"

definition SkipChar :: "string \<Rightarrow> string" where
  "SkipChar data = drop 1 data"

lemma IsCharClass_eof: "\<not> IsCharClass (- 1) b"
  by (simp add: IsCharClass_def kCharClasses_def)

lemma PeekChar_class_nonempty: "IsCharClass (PeekChar data 0) b \<Longrightarrow> data \<noteq> []"
  by (auto simp: PeekChar_def IsCharClass_eof)

lemma length_SkipChar: "data \<noteq> [] \<Longrightarrow> length (SkipChar data) < length data"
  by (simp add: SkipChar_def)

function ReadReservedChars :: "string \<Rightarrow> nat \<times> string" where
  "ReadReservedChars data =
     (if IsReserved (PeekChar data 0) then
        (case ReadReservedChars (SkipChar data) of (count, data') \<Rightarrow> (count + 1, data'))
      else (0, data))"
  by pat_completeness auto
termination
  by (relation "measure length")
     (auto simp: IsReserved_def dest!: PeekChar_class_nonempty length_SkipChar)

definition NoTrailingReservedChars :: "string \<Rightarrow> bool \<times> string" where
  "NoTrailingReservedChars data =
     (case ReadReservedChars data of (count, data') \<Rightarrow> (count = 0, data'))"

definition ReadChar :: "string \<Rightarrow> int \<times> string" where
  "ReadChar data =
     (let result = PeekChar data 0
      in if result \<noteq> - 1 then (result, SkipChar data) else (result, data))"

definition MatchChar :: "string \<Rightarrow> char \<Rightarrow> bool \<times> string" where
  "MatchChar data c =
     (if PeekChar data 0 = of_char c then (True, SkipChar data) else (False, data))"

definition MatchSign :: "string \<Rightarrow> Sign \<times> string" where
  "MatchSign data =
     (case MatchChar data (CHR ''+'') of
        (True, data') \<Rightarrow> (Plus, data')
      | (False, data') \<Rightarrow>
          (case MatchChar data' (CHR ''-'') of
             (True, data'') \<Rightarrow> (Minus, data'')
           | (False, data'') \<Rightarrow> (Sign_None, data'')))"

text \<open>\<open>MatchString\<close>: the loop over the characters of \<open>sv\<close>; \<open>orig\<close> is the position
  its guard has saved.\<close>

fun MatchString_loop :: "string \<Rightarrow> string \<Rightarrow> string \<Rightarrow> bool \<times> string" where
  "MatchString_loop orig data [] = (True, data)"
| "MatchString_loop orig data (c # sv) =
     (case MatchChar data c of
        (False, data') \<Rightarrow> (False, orig)
      | (True, data') \<Rightarrow> MatchString_loop orig data' sv)"

definition MatchString :: "string \<Rightarrow> string \<Rightarrow> bool \<times> string" where
  "MatchString data sv = MatchString_loop data data sv"

lemma length_MatchChar: "MatchChar data c = (b, data') \<Longrightarrow> length data' \<le> length data"
  by (auto simp: MatchChar_def SkipChar_def split: if_splits)

lemma length_ReadChar:
  "ReadChar data = (c, data') \<Longrightarrow> c \<noteq> - 1 \<Longrightarrow> length data' < length data"
  by (auto simp: ReadChar_def PeekChar_def SkipChar_def Let_def split: if_splits)

lemma length_ReadChar_le: "ReadChar data = (c, data') \<Longrightarrow> length data' \<le> length data"
  by (auto simp: ReadChar_def SkipChar_def Let_def split: if_splits)

subsection \<open>Numbers\<close>

text \<open>The loops of \<open>MatchNum\<close> and \<open>MatchHexNum\<close>; they return \<open>ok\<close>, the flag
  \<open>has_underscores\<close> (passed by reference) and the span.\<close>

function MatchNum_loop :: "bool \<Rightarrow> HasUnderscores \<Rightarrow> string \<Rightarrow> bool \<times> HasUnderscores \<times> string" where
  "MatchNum_loop ok has_underscores data =
     (if IsDigit (PeekChar data 0) then
        (case MatchChar (SkipChar data) (CHR ''_'') of
           (True, data') \<Rightarrow> MatchNum_loop False Yes data'
         | (False, data') \<Rightarrow> MatchNum_loop True has_underscores data')
      else (ok, has_underscores, data))"
  by pat_completeness auto
termination
  by (relation "measure (\<lambda>(ok, hu, data). length data)")
     (auto simp: IsDigit_def dest!: PeekChar_class_nonempty length_SkipChar
           dest: length_MatchChar[OF sym])

definition MatchNum :: "string \<Rightarrow> HasUnderscores \<Rightarrow> bool \<times> HasUnderscores \<times> string" where
  "MatchNum data has_underscores =
     (case MatchNum_loop False has_underscores data of
        (ok, has_underscores', data') \<Rightarrow>
          (ok, has_underscores', if ok then data' else data))"

function MatchHexNum_loop :: "bool \<Rightarrow> HasUnderscores \<Rightarrow> string \<Rightarrow> bool \<times> HasUnderscores \<times> string" where
  "MatchHexNum_loop ok has_underscores data =
     (if IsHexDigit (PeekChar data 0) then
        (case MatchChar (SkipChar data) (CHR ''_'') of
           (True, data') \<Rightarrow> MatchHexNum_loop False Yes data'
         | (False, data') \<Rightarrow> MatchHexNum_loop True has_underscores data')
      else (ok, has_underscores, data))"
  by pat_completeness auto
termination
  by (relation "measure (\<lambda>(ok, hu, data). length data)")
     (auto simp: IsHexDigit_def dest!: PeekChar_class_nonempty length_SkipChar
           dest: length_MatchChar[OF sym])

definition MatchHexNum :: "string \<Rightarrow> HasUnderscores \<Rightarrow> bool \<times> HasUnderscores \<times> string" where
  "MatchHexNum data has_underscores =
     (case MatchHexNum_loop False has_underscores data of
        (ok, has_underscores', data') \<Rightarrow>
          (ok, has_underscores', if ok then data' else data))"

subsection \<open>Tokens\<close>

function LexReserved_loop :: "string \<Rightarrow> string" where
  "LexReserved_loop data =
     (if IsReserved (PeekChar data 0) then LexReserved_loop (SkipChar data) else data)"
  by pat_completeness auto
termination
  by (relation "measure length")
     (auto simp: IsReserved_def dest!: PeekChar_class_nonempty length_SkipChar)

definition LexReserved :: "string \<Rightarrow> Token \<times> string" where
  "LexReserved data =
     (let data' = LexReserved_loop data
      in (Token (guard_loc data data') ''Reserved'' monostate, data'))"

definition LexAnnotation :: "string \<Rightarrow> Token \<times> string" where
  "LexAnnotation data =
     (case ReadReservedChars data of (count, data') \<Rightarrow>
        (Token (guard_loc data data') ''LparAnn'' monostate, data'))"

text \<open>The loop of \<open>LexBlockComment\<close>.  \<open>nesting\<close> is a C \<open>int\<close>; the model does not
  bound it.\<close>

function LexBlockComment_loop :: "string \<Rightarrow> int \<Rightarrow> string \<Rightarrow> Token \<times> string" where
  "LexBlockComment_loop orig nesting data =
     (case ReadChar data of (c, data1) \<Rightarrow>
        if c = - 1 then
          (Token (guard_loc orig data1) ''InvalidBlockComment'' monostate, data1)
        else if c = of_char (CHR '';'') then
          (case MatchChar data1 (CHR '')'') of
             (True, data2) \<Rightarrow>
               if nesting - 1 = 0
               then (Token (guard_loc orig data2) ''BlockComment'' monostate, data2)
               else LexBlockComment_loop orig (nesting - 1) data2
           | (False, data2) \<Rightarrow> LexBlockComment_loop orig nesting data2)
        else if c = of_char (CHR ''('') then
          (case MatchChar data1 (CHR '';'') of
             (True, data2) \<Rightarrow> LexBlockComment_loop orig (nesting + 1) data2
           | (False, data2) \<Rightarrow> LexBlockComment_loop orig nesting data2)
        else LexBlockComment_loop orig nesting data1)"
  by pat_completeness auto
termination
  by (relation "measure (\<lambda>(orig, nesting, data). length data)")
     (auto dest!: length_ReadChar[OF sym] dest: length_MatchChar[OF sym])

definition LexBlockComment :: "string \<Rightarrow> Token \<times> string" where
  "LexBlockComment data = LexBlockComment_loop data 0 data"

definition LexId :: "string \<Rightarrow> Token \<times> string" where
  "LexId data =
     (case NoTrailingReservedChars (SkipChar data) of
        (True, data') \<Rightarrow> (Token (guard_loc data data') ''Reserved'' monostate, data')
      | (False, data') \<Rightarrow> (Token (guard_loc data data') ''Id'' monostate, data'))"

function LexLineComment_loop :: "string \<Rightarrow> string \<Rightarrow> Token \<times> string" where
  "LexLineComment_loop orig data =
     (case ReadChar data of (c, data') \<Rightarrow>
        if c = - 1 then (Token (guard_loc orig data') ''InvalidLineComment'' monostate, data')
        else if c = of_char (CHR 0x0A) then
          (Token (guard_loc orig data') ''LineComment'' monostate, data')
        else LexLineComment_loop orig data')"
  by pat_completeness auto
termination
  by (relation "measure (\<lambda>(orig, data). length data)")
     (auto dest!: length_ReadChar[OF sym])

definition LexLineComment :: "string \<Rightarrow> Token \<times> string" where
  "LexLineComment data = LexLineComment_loop data data"

definition LexNameEqNum :: "string \<Rightarrow> string \<Rightarrow> TokenType \<Rightarrow> Token \<times> string" where
  "LexNameEqNum data sv tt =
     (case MatchString data sv of
        (False, data1) \<Rightarrow> LexReserved data
      | (True, data1) \<Rightarrow>
          (case MatchString data1 ''0x'' of
             (True, data2) \<Rightarrow>
               (case MatchHexNum data2 No of (ok, underscores, data3) \<Rightarrow>
                  if ok then
                    (case NoTrailingReservedChars data3 of
                       (True, data4) \<Rightarrow>
                         (Token (guard_loc data data4) tt
                            (LiteralInfo_immediate (LiteralInfo_HexNat underscores)), data4)
                     | (False, data4) \<Rightarrow> LexReserved data)
                  else LexReserved data)
           | (False, data2) \<Rightarrow>
               (case MatchNum data2 No of (ok, underscores, data3) \<Rightarrow>
                  if ok then
                    (case NoTrailingReservedChars data3 of
                       (True, data4) \<Rightarrow>
                         (Token (guard_loc data data4) tt
                            (LiteralInfo_immediate (LiteralInfo_Nat underscores)), data4)
                     | (False, data4) \<Rightarrow> LexReserved data)
                  else LexReserved data)))"

text \<open>\<open>LexInf\<close> and \<open>LexNan\<close> call \<open>LexReserved(data)\<close> on the span as it is when the
  match has failed, without resetting it.\<close>

definition LexInf :: "string \<Rightarrow> Token \<times> string" where
  "LexInf data =
     (case MatchSign data of (sign, data1) \<Rightarrow>
      case MatchString data1 ''inf'' of
        (False, data2) \<Rightarrow> LexReserved data2
      | (True, data2) \<Rightarrow>
          (case NoTrailingReservedChars data2 of
             (True, data3) \<Rightarrow>
               (Token (guard_loc data data3) ''Float''
                  (LiteralInfo_immediate (LiteralInfo_Infinity sign)), data3)
           | (False, data3) \<Rightarrow> LexReserved data3))"

definition LexNan :: "string \<Rightarrow> Token \<times> string" where
  "LexNan data =
     (case MatchSign data of (sign, data1) \<Rightarrow>
      case MatchString data1 ''nan'' of
        (False, data2) \<Rightarrow> LexReserved data2
      | (True, data2) \<Rightarrow>
          (case MatchChar data2 (CHR '':'') of
             (True, data3) \<Rightarrow>
               (case MatchString data3 ''0x'' of
                  (False, data4) \<Rightarrow> LexReserved data4
                | (True, data4) \<Rightarrow>
                    (case MatchHexNum data4 No of (ok, underscores, data5) \<Rightarrow>
                       if ok then
                         (case NoTrailingReservedChars data5 of
                            (True, data6) \<Rightarrow>
                              (Token (guard_loc data data6) ''Float''
                                 (LiteralInfo_immediate (LiteralInfo_NanPayload sign underscores)),
                               data6)
                          | (False, data6) \<Rightarrow> LexReserved data6)
                       else LexReserved data5))
           | (False, data3) \<Rightarrow>
               (case NoTrailingReservedChars data3 of
                  (True, data4) \<Rightarrow>
                    (Token (guard_loc data data4) ''Float''
                       (LiteralInfo_immediate (LiteralInfo_Nan sign)), data4)
                | (False, data4) \<Rightarrow> LexReserved data4)))"

text \<open>
  \<open>LexNumber\<close> and \<open>LexHexNumber\<close>, in three steps each: the fraction, the exponent,
  and the check for trailing characters.  A step returns \<open>None\<close> where the source
  returns \<open>LexReserved(guard.Reset())\<close> from inside it.
\<close>

definition LexNumber_fraction ::
  "TokenType \<Rightarrow> HasUnderscores \<Rightarrow> string \<Rightarrow> (TokenType \<times> HasUnderscores \<times> string) option" where
  "LexNumber_fraction tt underscores data =
     (case MatchChar data (CHR ''.'') of
        (True, data1) \<Rightarrow>
          if IsDigit (PeekChar data1 0) then
            (case MatchNum data1 underscores of (ok, underscores', data2) \<Rightarrow>
               if \<not> ok then None else Some (''Float'', underscores', data2))
          else Some (''Float'', underscores, data1)
      | (False, data1) \<Rightarrow> Some (tt, underscores, data1))"

definition LexNumber_exponent ::
  "TokenType \<Rightarrow> HasUnderscores \<Rightarrow> string \<Rightarrow> (TokenType \<times> HasUnderscores \<times> string) option" where
  "LexNumber_exponent tt underscores data =
     (let (e, data1) =
            (case MatchChar data (CHR ''e'') of
               (True, data') \<Rightarrow> (True, data')
             | (False, data') \<Rightarrow> MatchChar data' (CHR ''E''))
      in if e then
           (case MatchSign data1 of (sign, data2) \<Rightarrow>
            case MatchNum data2 underscores of (ok, underscores', data3) \<Rightarrow>
              if \<not> ok then None else Some (''Float'', underscores', data3))
         else Some (tt, underscores, data1))"

definition LexNumber :: "string \<Rightarrow> TokenType \<Rightarrow> Token \<times> string" where
  "LexNumber data tt =
     (case MatchSign data of (sign, data1) \<Rightarrow>
      case MatchNum data1 No of (ok, underscores, data2) \<Rightarrow>
        if ok then
          (case LexNumber_fraction tt underscores data2 of
             None \<Rightarrow> LexReserved data
           | Some (tt1, underscores1, data3) \<Rightarrow>
               (case LexNumber_exponent tt1 underscores1 data3 of
                  None \<Rightarrow> LexReserved data
                | Some (tt2, underscores2, data4) \<Rightarrow>
                    (case NoTrailingReservedChars data4 of
                       (True, data5) \<Rightarrow>
                         (Token (guard_loc data data5) tt2
                            (LiteralInfo_immediate (LiteralInfo_Number sign underscores2)), data5)
                     | (False, data5) \<Rightarrow> LexReserved data)))
        else LexReserved data)"

definition LexHexNumber_fraction ::
  "TokenType \<Rightarrow> HasUnderscores \<Rightarrow> string \<Rightarrow> (TokenType \<times> HasUnderscores \<times> string) option" where
  "LexHexNumber_fraction tt underscores data =
     (case MatchChar data (CHR ''.'') of
        (True, data1) \<Rightarrow>
          if IsHexDigit (PeekChar data1 0) then
            (case MatchHexNum data1 underscores of (ok, underscores', data2) \<Rightarrow>
               if \<not> ok then None else Some (''Float'', underscores', data2))
          else Some (''Float'', underscores, data1)
      | (False, data1) \<Rightarrow> Some (tt, underscores, data1))"

definition LexHexNumber_exponent ::
  "TokenType \<Rightarrow> HasUnderscores \<Rightarrow> string \<Rightarrow> (TokenType \<times> HasUnderscores \<times> string) option" where
  "LexHexNumber_exponent tt underscores data =
     (let (p, data1) =
            (case MatchChar data (CHR ''p'') of
               (True, data') \<Rightarrow> (True, data')
             | (False, data') \<Rightarrow> MatchChar data' (CHR ''P''))
      in if p then
           (case MatchSign data1 of (sign, data2) \<Rightarrow>
            case MatchNum data2 underscores of (ok, underscores', data3) \<Rightarrow>
              if \<not> ok then None else Some (''Float'', underscores', data3))
         else Some (tt, underscores, data1))"

definition LexHexNumber :: "string \<Rightarrow> TokenType \<Rightarrow> Token \<times> string" where
  "LexHexNumber data tt =
     (case MatchSign data of (sign, data1) \<Rightarrow>
      case MatchString data1 ''0x'' of (matched, data2) \<Rightarrow>
      case MatchHexNum data2 No of (ok, underscores, data3) \<Rightarrow>
        if ok then
          (case LexHexNumber_fraction tt underscores data3 of
             None \<Rightarrow> LexReserved data
           | Some (tt1, underscores1, data4) \<Rightarrow>
               (case LexHexNumber_exponent tt1 underscores1 data4 of
                  None \<Rightarrow> LexReserved data
                | Some (tt2, underscores2, data5) \<Rightarrow>
                    (case NoTrailingReservedChars data5 of
                       (True, data6) \<Rightarrow>
                         (Token (guard_loc data data6) tt2
                            (LiteralInfo_immediate (LiteralInfo_HexNumber sign underscores2)), data6)
                     | (False, data6) \<Rightarrow> LexReserved data)))
        else LexReserved data)"

text \<open>The loop of \<open>LexText\<close>, left when \<open>in_string\<close> becomes false; it returns
  \<open>has_error\<close>, \<open>byte_size\<close> and the span.\<close>

definition valid_escapes :: "int list" where
  "valid_escapes = map of_char [CHR ''t'', CHR ''n'', CHR ''r'', CHR 0x22, CHR 0x27, CHR 0x5C]"

definition hex_escapes :: "int list" where
  "hex_escapes = map of_char ''0123456789abcdefABCDEF''"

function LexText_loop :: "bool \<Rightarrow> u32 \<Rightarrow> string \<Rightarrow> bool \<times> u32 \<times> string" where
  "LexText_loop has_error byte_size data =
     (case ReadChar data of (c, data1) \<Rightarrow>
        if c = - 1 then (True, byte_size, data1)
        else if c = of_char (CHR 0x0A) then LexText_loop True byte_size data1
        else if c = of_char (CHR 0x22) then (has_error, byte_size, data1)
        else if c = of_char (CHR 0x5C) then
          (case ReadChar data1 of (e, data2) \<Rightarrow>
             if e \<in> set valid_escapes then LexText_loop has_error (byte_size + 1) data2
             else if e \<in> set hex_escapes \<and> IsHexDigit (PeekChar data2 0) then
               LexText_loop has_error (byte_size + 1) (SkipChar data2)
             else LexText_loop True byte_size data2)
        else LexText_loop has_error (byte_size + 1) data1)"
  by pat_completeness auto
termination
  by (relation "measure (\<lambda>(has_error, byte_size, data). length data)")
     (auto simp: ReadChar_def PeekChar_def SkipChar_def Let_def split: if_splits)

definition LexText :: "string \<Rightarrow> Token \<times> string" where
  "LexText data =
     (case MatchChar data (CHR 0x22) of (matched, data1) \<Rightarrow>
      case LexText_loop False 0 data1 of (has_error, byte_size, data2) \<Rightarrow>
        (let loc = guard_loc data data2
         in if has_error then (Token loc ''InvalidText'' monostate, data2)
            else (Token loc ''Text'' (Text_immediate loc byte_size), data2)))"

function LexWhitespace_loop :: "string \<Rightarrow> string" where
  "LexWhitespace_loop data =
     (let c = PeekChar data 0
      in if c = of_char (CHR '' '') \<or> c = of_char (CHR 0x09) \<or> c = of_char (CHR 0x0D)
         then LexWhitespace_loop (SkipChar data)
         else if c = of_char (CHR 0x0A) then LexWhitespace_loop (SkipChar data)
         else data)"
  by pat_completeness auto
termination
  by (relation "measure length")
     (auto simp: PeekChar_def SkipChar_def split: if_splits)

definition LexWhitespace :: "string \<Rightarrow> Token \<times> string" where
  "LexWhitespace data =
     (let data' = LexWhitespace_loop data
      in (Token (guard_loc data data') ''Whitespace'' monostate, data'))"

subsection \<open>Keywords\<close>

text \<open>The six overloads of \<open>LexKeyword\<close> differ in the type and the immediate of the
  token they build; the first definition is what they share.\<close>

definition LexKeyword_token ::
  "string \<Rightarrow> string \<Rightarrow> TokenType \<Rightarrow> TokenImmediate \<Rightarrow> Token \<times> string" where
  "LexKeyword_token data sv tt imm =
     (case MatchString data sv of
        (False, data1) \<Rightarrow> LexReserved data
      | (True, data1) \<Rightarrow>
          (case NoTrailingReservedChars data1 of
             (True, data2) \<Rightarrow> (Token (guard_loc data data2) tt imm, data2)
           | (False, data2) \<Rightarrow> LexReserved data))"

definition LexKeyword_tt :: "string \<Rightarrow> string \<Rightarrow> TokenType \<Rightarrow> Token \<times> string" where
  "LexKeyword_tt data sv tt = LexKeyword_token data sv tt monostate"

definition LexKeyword_o :: "string \<Rightarrow> string \<Rightarrow> Opcode \<Rightarrow> Features \<Rightarrow> Token \<times> string" where
  "LexKeyword_o data sv o' f = LexKeyword_token data sv ''BareInstr'' (OpcodeInfo o' f)"

definition LexKeyword_tt_o ::
  "string \<Rightarrow> string \<Rightarrow> TokenType \<Rightarrow> Opcode \<Rightarrow> Features \<Rightarrow> Token \<times> string" where
  "LexKeyword_tt_o data sv tt o' f = LexKeyword_token data sv tt (OpcodeInfo o' f)"

definition LexKeyword_vt :: "string \<Rightarrow> string \<Rightarrow> ValueType \<Rightarrow> Token \<times> string" where
  "LexKeyword_vt data sv vt = LexKeyword_token data sv ''ValueType'' (ValueType_immediate vt)"

definition LexKeyword_tt_rt ::
  "string \<Rightarrow> string \<Rightarrow> TokenType \<Rightarrow> ReferenceType \<Rightarrow> Token \<times> string" where
  "LexKeyword_tt_rt data sv tt rt = LexKeyword_token data sv tt (ReferenceType_immediate rt)"

definition LexKeyword_tt_lk ::
  "string \<Rightarrow> string \<Rightarrow> TokenType \<Rightarrow> LiteralKind \<Rightarrow> Token \<times> string" where
  "LexKeyword_tt_lk data sv tt lk =
     LexKeyword_token data sv tt (LiteralInfo_immediate (LiteralInfo_Kind lk))"

text \<open>
  The file \<open>src/text/keywords-inl.cc\<close>, which \<open>Lex\<close> includes as its default case, is a
  nest of \<open>switch (PeekChar(data, n))\<close> statements whose branches are another switch,
  \<open>break\<close>, or the return of a call.  \<open>Return\<close> is such a call.  A switch is the chain
  of its labelled cases, \<open>Case n c t rest\<close> for \<open>case c: t\<close>, that ends in its default
  branch (\<open>Break\<close> when it has none).  Leaving any of the switches without a return
  leaves them all, since each nested switch is followed by \<open>break\<close>.
\<close>

datatype KeywordCall =
    KwToken string TokenType
  | KwOpcode string Opcode Features
  | KwTokenOpcode string TokenType Opcode Features
  | KwValueType string ValueType
  | KwReferenceType string TokenType ReferenceType
  | KwLiteralKind string TokenType LiteralKind
  | KwNameEqNum string TokenType
  | KwLexNan

datatype Keywords = Return KeywordCall | Break | Case nat char Keywords Keywords

fun call :: "KeywordCall \<Rightarrow> string \<Rightarrow> Token \<times> string" where
  "call (KwToken sv tt) data = LexKeyword_tt data sv tt"
| "call (KwOpcode sv o' f) data = LexKeyword_o data sv o' f"
| "call (KwTokenOpcode sv tt o' f) data = LexKeyword_tt_o data sv tt o' f"
| "call (KwValueType sv vt) data = LexKeyword_vt data sv vt"
| "call (KwReferenceType sv tt rt) data = LexKeyword_tt_rt data sv tt rt"
| "call (KwLiteralKind sv tt lk) data = LexKeyword_tt_lk data sv tt lk"
| "call (KwNameEqNum sv tt) data = LexNameEqNum data sv tt"
| "call KwLexNan data = LexNan data"

fun switch :: "Keywords \<Rightarrow> string \<Rightarrow> (Token \<times> string) option" where
  "switch (Return k) data = Some (call k data)"
| "switch Break data = None"
| "switch (Case n c t rest) data =
     (if PeekChar data n = of_char c then switch t data else switch rest data)"

definition keywords_inl_4 :: Keywords where
  "keywords_inl_4 =
     (Case 15 (CHR ''.'')
       (Case 17 (CHR ''c'')
         (Return (KwTokenOpcode ''i32.atomic.rmw8.xchg_u'' ''MemoryInstr'' ''I32AtomicRmw8XchgU'' [''Threads'']))
       (Case 17 (CHR ''d'')
         (Return (KwTokenOpcode ''i32.atomic.rmw8.add_u'' ''MemoryInstr'' ''I32AtomicRmw8AddU'' [''Threads'']))
       (Case 17 (CHR ''m'')
         (Return (KwTokenOpcode ''i32.atomic.rmw8.cmpxchg_u'' ''MemoryInstr'' ''I32AtomicRmw8CmpxchgU'' [''Threads'']))
       (Case 17 (CHR ''n'')
         (Return (KwTokenOpcode ''i32.atomic.rmw8.and_u'' ''MemoryInstr'' ''I32AtomicRmw8AndU'' [''Threads'']))
       (Case 17 (CHR ''o'')
         (Return (KwTokenOpcode ''i32.atomic.rmw8.xor_u'' ''MemoryInstr'' ''I32AtomicRmw8XorU'' [''Threads'']))
       (Case 17 (CHR ''r'')
         (Return (KwTokenOpcode ''i32.atomic.rmw8.or_u'' ''MemoryInstr'' ''I32AtomicRmw8OrU'' [''Threads'']))
       (Case 17 (CHR ''u'')
         (Return (KwTokenOpcode ''i32.atomic.rmw8.sub_u'' ''MemoryInstr'' ''I32AtomicRmw8SubU'' [''Threads'']))
       Break)))))))
     (Case 15 (CHR ''1'')
       (Return (KwTokenOpcode ''i32.atomic.load16_u'' ''MemoryInstr'' ''I32AtomicLoad16U'' [''Threads'']))
     (Case 15 (CHR ''6'')
       (Case 18 (CHR ''c'')
         (Return (KwTokenOpcode ''i32.atomic.rmw16.xchg_u'' ''MemoryInstr'' ''I32AtomicRmw16XchgU'' [''Threads'']))
       (Case 18 (CHR ''d'')
         (Return (KwTokenOpcode ''i32.atomic.rmw16.add_u'' ''MemoryInstr'' ''I32AtomicRmw16AddU'' [''Threads'']))
       (Case 18 (CHR ''m'')
         (Return (KwTokenOpcode ''i32.atomic.rmw16.cmpxchg_u'' ''MemoryInstr'' ''I32AtomicRmw16CmpxchgU'' [''Threads'']))
       (Case 18 (CHR ''n'')
         (Return (KwTokenOpcode ''i32.atomic.rmw16.and_u'' ''MemoryInstr'' ''I32AtomicRmw16AndU'' [''Threads'']))
       (Case 18 (CHR ''o'')
         (Return (KwTokenOpcode ''i32.atomic.rmw16.xor_u'' ''MemoryInstr'' ''I32AtomicRmw16XorU'' [''Threads'']))
       (Case 18 (CHR ''r'')
         (Return (KwTokenOpcode ''i32.atomic.rmw16.or_u'' ''MemoryInstr'' ''I32AtomicRmw16OrU'' [''Threads'']))
       (Case 18 (CHR ''u'')
         (Return (KwTokenOpcode ''i32.atomic.rmw16.sub_u'' ''MemoryInstr'' ''I32AtomicRmw16SubU'' [''Threads'']))
       Break)))))))
     (Case 15 (CHR ''8'')
       (Return (KwTokenOpcode ''i32.atomic.load8_u'' ''MemoryInstr'' ''I32AtomicLoad8U'' [''Threads'']))
     (Case 15 (CHR ''a'')
       (Case 16 (CHR ''d'')
         (Return (KwTokenOpcode ''i32.atomic.rmw.add'' ''MemoryInstr'' ''I32AtomicRmwAdd'' [''Threads'']))
       (Case 16 (CHR ''n'')
         (Return (KwTokenOpcode ''i32.atomic.rmw.and'' ''MemoryInstr'' ''I32AtomicRmwAnd'' [''Threads'']))
       Break))
     (Case 15 (CHR ''c'')
       (Return (KwTokenOpcode ''i32.atomic.rmw.cmpxchg'' ''MemoryInstr'' ''I32AtomicRmwCmpxchg'' [''Threads'']))
     (Case 15 (CHR ''e'')
       (Case 16 (CHR ''1'')
         (Return (KwTokenOpcode ''i32.atomic.store16'' ''MemoryInstr'' ''I32AtomicStore16'' [''Threads'']))
       (Case 16 (CHR ''8'')
         (Return (KwTokenOpcode ''i32.atomic.store8'' ''MemoryInstr'' ''I32AtomicStore8'' [''Threads'']))
       (Return (KwTokenOpcode ''i32.atomic.store'' ''MemoryInstr'' ''I32AtomicStore'' [''Threads'']))))
     (Case 15 (CHR ''o'')
       (Return (KwTokenOpcode ''i32.atomic.rmw.or'' ''MemoryInstr'' ''I32AtomicRmwOr'' [''Threads'']))
     (Case 15 (CHR ''s'')
       (Return (KwTokenOpcode ''i32.atomic.rmw.sub'' ''MemoryInstr'' ''I32AtomicRmwSub'' [''Threads'']))
     (Case 15 (CHR ''x'')
       (Case 18 (CHR ''g'')
         (Return (KwTokenOpcode ''i32.atomic.rmw.xchg'' ''MemoryInstr'' ''I32AtomicRmwXchg'' [''Threads'']))
       (Return (KwTokenOpcode ''i32.atomic.rmw.xor'' ''MemoryInstr'' ''I32AtomicRmwXor'' [''Threads''])))
     (Case 14 (CHR ''d'')
       (Return (KwTokenOpcode ''i32.atomic.load'' ''MemoryInstr'' ''I32AtomicLoad'' [''Threads'']))
     (Case 14 (CHR ''t'')
       (Return (KwTokenOpcode ''i32.atomic.wait'' ''MemoryInstr'' ''I32AtomicWait'' [''Threads'']))
     Break))))))))))))"

definition keywords_inl_3 :: Keywords where
  "keywords_inl_3 =
     (Case 9 (CHR ''1'')
       (Return (KwTokenOpcode ''i32.store16'' ''MemoryInstr'' ''I32Store16'' []))
     (Case 9 (CHR ''8'')
       (Return (KwTokenOpcode ''i32.store8'' ''MemoryInstr'' ''I32Store8'' []))
     (Case 9 (CHR ''c'')
       keywords_inl_4
     (Case 8 (CHR ''e'')
       (Case 0 (CHR ''f'')
         (Return (KwTokenOpcode ''f32.store'' ''MemoryInstr'' ''F32Store'' []))
       (Case 0 (CHR ''i'')
         (Return (KwTokenOpcode ''i32.store'' ''MemoryInstr'' ''I32Store'' []))
       Break))
     (Case 8 (CHR ''r'')
       (Return (KwOpcode ''f32.floor'' ''F32Floor'' []))
     Break)))))"

definition keywords_inl_6 :: Keywords where
  "keywords_inl_6 =
     (Case 14 (CHR ''2'')
       (Case 10 (CHR ''s'')
         (Return (KwOpcode ''i32.trunc_s/f32'' ''I32TruncF32S'' []))
       (Case 10 (CHR ''u'')
         (Return (KwOpcode ''i32.trunc_u/f32'' ''I32TruncF32U'' []))
       Break))
     (Case 14 (CHR ''4'')
       (Case 10 (CHR ''s'')
         (Return (KwOpcode ''i32.trunc_s/f64'' ''I32TruncF64S'' []))
       (Case 10 (CHR ''u'')
         (Return (KwOpcode ''i32.trunc_u/f64'' ''I32TruncF64U'' []))
       Break))
     (Case 14 (CHR ''f'')
       (Case 18 (CHR ''s'')
         (Case 16 (CHR ''2'')
           (Return (KwOpcode ''i32.trunc_sat_f32_s'' ''I32TruncSatF32S'' [''SaturatingFloatToInt'']))
         (Case 16 (CHR ''4'')
           (Return (KwOpcode ''i32.trunc_sat_f64_s'' ''I32TruncSatF64S'' [''SaturatingFloatToInt'']))
         Break))
       (Case 18 (CHR ''u'')
         (Case 16 (CHR ''2'')
           (Return (KwOpcode ''i32.trunc_sat_f32_u'' ''I32TruncSatF32U'' [''SaturatingFloatToInt'']))
         (Case 16 (CHR ''4'')
           (Return (KwOpcode ''i32.trunc_sat_f64_u'' ''I32TruncSatF64U'' [''SaturatingFloatToInt'']))
         Break))
       Break))
     (Case 14 (CHR ''s'')
       (Case 12 (CHR ''2'')
         (Return (KwOpcode ''i32.trunc_f32_s'' ''I32TruncF32S'' []))
       (Case 12 (CHR ''4'')
         (Return (KwOpcode ''i32.trunc_f64_s'' ''I32TruncF64S'' []))
       Break))
     (Case 14 (CHR ''t'')
       (Case 18 (CHR ''2'')
         (Case 10 (CHR ''s'')
           (Return (KwOpcode ''i32.trunc_s:sat/f32'' ''I32TruncSatF32S'' [''SaturatingFloatToInt'']))
         (Case 10 (CHR ''u'')
           (Return (KwOpcode ''i32.trunc_u:sat/f32'' ''I32TruncSatF32U'' [''SaturatingFloatToInt'']))
         Break))
       (Case 18 (CHR ''4'')
         (Case 10 (CHR ''s'')
           (Return (KwOpcode ''i32.trunc_s:sat/f64'' ''I32TruncSatF64S'' [''SaturatingFloatToInt'']))
         (Case 10 (CHR ''u'')
           (Return (KwOpcode ''i32.trunc_u:sat/f64'' ''I32TruncSatF64U'' [''SaturatingFloatToInt'']))
         Break))
       Break))
     (Case 14 (CHR ''u'')
       (Case 12 (CHR ''2'')
         (Return (KwOpcode ''i32.trunc_f32_u'' ''I32TruncF32U'' []))
       (Case 12 (CHR ''4'')
         (Return (KwOpcode ''i32.trunc_f64_u'' ''I32TruncF64U'' []))
       Break))
     Break))))))"

definition keywords_inl_5 :: Keywords where
  "keywords_inl_5 =
     (Case 9 (CHR ''_'')
       keywords_inl_6
     (Return (KwOpcode ''f32.trunc'' ''F32Trunc'' [])))"

definition keywords_inl_2 :: Keywords where
  "keywords_inl_2 =
     (Case 6 (CHR ''_'')
       (Case 7 (CHR ''s'')
         (Case 5 (CHR ''e'')
           (Case 4 (CHR ''g'')
             (Return (KwOpcode ''i32.ge_s'' ''I32GeS'' []))
           (Case 4 (CHR ''l'')
             (Return (KwOpcode ''i32.le_s'' ''I32LeS'' []))
           Break))
         (Case 5 (CHR ''t'')
           (Case 4 (CHR ''g'')
             (Return (KwOpcode ''i32.gt_s'' ''I32GtS'' []))
           (Case 4 (CHR ''l'')
             (Return (KwOpcode ''i32.lt_s'' ''I32LtS'' []))
           Break))
         Break))
       (Case 7 (CHR ''u'')
         (Case 5 (CHR ''e'')
           (Case 4 (CHR ''g'')
             (Return (KwOpcode ''i32.ge_u'' ''I32GeU'' []))
           (Case 4 (CHR ''l'')
             (Return (KwOpcode ''i32.le_u'' ''I32LeU'' []))
           Break))
         (Case 5 (CHR ''t'')
           (Case 4 (CHR ''g'')
             (Return (KwOpcode ''i32.gt_u'' ''I32GtU'' []))
           (Case 4 (CHR ''l'')
             (Return (KwOpcode ''i32.lt_u'' ''I32LtU'' []))
           Break))
         Break))
       Break))
     (Case 6 (CHR ''a'')
       (Case 8 (CHR ''/'')
         (Return (KwOpcode ''i32.wrap/i64'' ''I32WrapI64'' []))
       (Case 8 (CHR ''1'')
         (Case 11 (CHR ''s'')
           (Return (KwTokenOpcode ''i32.load16_s'' ''MemoryInstr'' ''I32Load16S'' []))
         (Case 11 (CHR ''u'')
           (Return (KwTokenOpcode ''i32.load16_u'' ''MemoryInstr'' ''I32Load16U'' []))
         Break))
       (Case 8 (CHR ''8'')
         (Case 10 (CHR ''s'')
           (Return (KwTokenOpcode ''i32.load8_s'' ''MemoryInstr'' ''I32Load8S'' []))
         (Case 10 (CHR ''u'')
           (Return (KwTokenOpcode ''i32.load8_u'' ''MemoryInstr'' ''I32Load8U'' []))
         Break))
       (Case 8 (CHR ''_'')
         (Return (KwOpcode ''i32.wrap_i64'' ''I32WrapI64'' []))
       (Case 8 (CHR ''e'')
         (Return (KwOpcode ''f32.nearest'' ''F32Nearest'' []))
       (Case 0 (CHR ''f'')
         (Return (KwTokenOpcode ''f32.load'' ''MemoryInstr'' ''F32Load'' []))
       (Case 0 (CHR ''i'')
         (Return (KwTokenOpcode ''i32.load'' ''MemoryInstr'' ''I32Load'' []))
       Break)))))))
     (Case 6 (CHR ''b'')
       (Case 0 (CHR ''f'')
         (Return (KwOpcode ''f32.sub'' ''F32Sub'' []))
       (Case 0 (CHR ''i'')
         (Return (KwOpcode ''i32.sub'' ''I32Sub'' []))
       Break))
     (Case 6 (CHR ''d'')
       (Case 5 (CHR ''d'')
         (Case 0 (CHR ''f'')
           (Return (KwOpcode ''f32.add'' ''F32Add'' []))
         (Case 0 (CHR ''i'')
           (Return (KwOpcode ''i32.add'' ''I32Add'' []))
         Break))
       (Case 5 (CHR ''n'')
         (Return (KwOpcode ''i32.and'' ''I32And'' []))
       Break))
     (Case 6 (CHR ''g'')
       (Return (KwOpcode ''f32.neg'' ''F32Neg'' []))
     (Case 6 (CHR ''i'')
       (Case 8 (CHR ''t'')
         (Case 16 (CHR ''f'')
           (Case 15 (CHR ''/'')
             (Return (KwOpcode ''i32.reinterpret/f32'' ''I32ReinterpretF32'' []))
           (Case 15 (CHR ''_'')
             (Return (KwOpcode ''i32.reinterpret_f32'' ''I32ReinterpretF32'' []))
           Break))
         (Case 16 (CHR ''i'')
           (Case 15 (CHR ''/'')
             (Return (KwOpcode ''f32.reinterpret/i32'' ''F32ReinterpretI32'' []))
           (Case 15 (CHR ''_'')
             (Return (KwOpcode ''f32.reinterpret_i32'' ''F32ReinterpretI32'' []))
           Break))
         Break))
       (Return (KwOpcode ''f32.ceil'' ''F32Ceil'' [])))
     (Case 6 (CHR ''l'')
       (Case 5 (CHR ''h'')
         (Return (KwOpcode ''i32.shl'' ''I32Shl'' []))
       (Case 5 (CHR ''u'')
         (Case 0 (CHR ''f'')
           (Return (KwOpcode ''f32.mul'' ''F32Mul'' []))
         (Case 0 (CHR ''i'')
           (Return (KwOpcode ''i32.mul'' ''I32Mul'' []))
         Break))
       Break))
     (Case 6 (CHR ''m'')
       (Case 8 (CHR ''s'')
         (Return (KwOpcode ''i32.rem_s'' ''I32RemS'' []))
       (Case 8 (CHR ''t'')
         (Case 10 (CHR ''/'')
           (Return (KwOpcode ''f32.demote/f64'' ''F32DemoteF64'' []))
         (Case 10 (CHR ''_'')
           (Return (KwOpcode ''f32.demote_f64'' ''F32DemoteF64'' []))
         Break))
       (Case 8 (CHR ''u'')
         (Return (KwOpcode ''i32.rem_u'' ''I32RemU'' []))
       Break)))
     (Case 6 (CHR ''n'')
       (Case 7 (CHR ''s'')
         (Case 0 (CHR ''f'')
           (Return (KwTokenOpcode ''f32.const'' ''F32ConstInstr'' ''F32Const'' []))
         (Case 0 (CHR ''i'')
           (Return (KwTokenOpcode ''i32.const'' ''I32ConstInstr'' ''I32Const'' []))
         Break))
       (Case 7 (CHR ''v'')
         (Case 16 (CHR ''2'')
           (Case 12 (CHR ''s'')
             (Return (KwOpcode ''f32.convert_s/i32'' ''F32ConvertI32S'' []))
           (Case 12 (CHR ''u'')
             (Return (KwOpcode ''f32.convert_u/i32'' ''F32ConvertI32U'' []))
           Break))
         (Case 16 (CHR ''4'')
           (Case 12 (CHR ''s'')
             (Return (KwOpcode ''f32.convert_s/i64'' ''F32ConvertI64S'' []))
           (Case 12 (CHR ''u'')
             (Return (KwOpcode ''f32.convert_u/i64'' ''F32ConvertI64U'' []))
           Break))
         (Case 16 (CHR ''s'')
           (Case 14 (CHR ''2'')
             (Return (KwOpcode ''f32.convert_i32_s'' ''F32ConvertI32S'' []))
           (Case 14 (CHR ''4'')
             (Return (KwOpcode ''f32.convert_i64_s'' ''F32ConvertI64S'' []))
           Break))
         (Case 16 (CHR ''u'')
           (Case 14 (CHR ''2'')
             (Return (KwOpcode ''f32.convert_i32_u'' ''F32ConvertI32U'' []))
           (Case 14 (CHR ''4'')
             (Return (KwOpcode ''f32.convert_i64_u'' ''F32ConvertI64U'' []))
           Break))
         Break))))
       (Return (KwOpcode ''f32.min'' ''F32Min'' []))))
     (Case 6 (CHR ''o'')
       keywords_inl_3
     (Case 6 (CHR ''p'')
       (Case 10 (CHR ''g'')
         (Return (KwOpcode ''f32.copysign'' ''F32Copysign'' []))
       (Return (KwOpcode ''i32.popcnt'' ''I32Popcnt'' [])))
     (Case 6 (CHR ''r'')
       (Case 7 (CHR ''_'')
         (Case 8 (CHR ''s'')
           (Return (KwOpcode ''i32.shr_s'' ''I32ShrS'' []))
         (Case 8 (CHR ''u'')
           (Return (KwOpcode ''i32.shr_u'' ''I32ShrU'' []))
         Break))
       (Case 7 (CHR ''t'')
         (Return (KwOpcode ''f32.sqrt'' ''F32Sqrt'' []))
       (Return (KwOpcode ''i32.xor'' ''I32Xor'' []))))
     (Case 6 (CHR ''s'')
       (Return (KwOpcode ''f32.abs'' ''F32Abs'' []))
     (Case 6 (CHR ''t'')
       (Case 7 (CHR ''e'')
         (Case 13 (CHR ''s'')
           (Return (KwOpcode ''i32.extend16_s'' ''I32Extend16S'' [''SignExtension'']))
         (Return (KwOpcode ''i32.extend8_s'' ''I32Extend8S'' [''SignExtension''])))
       (Case 7 (CHR ''l'')
         (Return (KwOpcode ''i32.rotl'' ''I32Rotl'' []))
       (Case 7 (CHR ''r'')
         (Return (KwOpcode ''i32.rotr'' ''I32Rotr'' []))
       Break)))
     (Case 6 (CHR ''u'')
       keywords_inl_5
     (Case 6 (CHR ''v'')
       (Case 7 (CHR ''_'')
         (Case 8 (CHR ''s'')
           (Return (KwOpcode ''i32.div_s'' ''I32DivS'' []))
         (Case 8 (CHR ''u'')
           (Return (KwOpcode ''i32.div_u'' ''I32DivU'' []))
         Break))
       (Return (KwOpcode ''f32.div'' ''F32Div'' [])))
     (Case 6 (CHR ''x'')
       (Return (KwOpcode ''f32.max'' ''F32Max'' []))
     (Case 6 (CHR ''z'')
       (Case 5 (CHR ''l'')
         (Return (KwOpcode ''i32.clz'' ''I32Clz'' []))
       (Case 5 (CHR ''q'')
         (Return (KwOpcode ''i32.eqz'' ''I32Eqz'' []))
       (Case 5 (CHR ''t'')
         (Return (KwOpcode ''i32.ctz'' ''I32Ctz'' []))
       Break)))
     (Case 4 (CHR ''e'')
       (Case 0 (CHR ''f'')
         (Return (KwOpcode ''f32.eq'' ''F32Eq'' []))
       (Case 0 (CHR ''i'')
         (Return (KwOpcode ''i32.eq'' ''I32Eq'' []))
       Break))
     (Case 4 (CHR ''g'')
       (Case 5 (CHR ''e'')
         (Return (KwOpcode ''f32.ge'' ''F32Ge'' []))
       (Case 5 (CHR ''t'')
         (Return (KwOpcode ''f32.gt'' ''F32Gt'' []))
       Break))
     (Case 4 (CHR ''l'')
       (Case 5 (CHR ''e'')
         (Return (KwOpcode ''f32.le'' ''F32Le'' []))
       (Case 5 (CHR ''t'')
         (Return (KwOpcode ''f32.lt'' ''F32Lt'' []))
       Break))
     (Case 4 (CHR ''n'')
       (Case 0 (CHR ''f'')
         (Return (KwOpcode ''f32.ne'' ''F32Ne'' []))
       (Case 0 (CHR ''i'')
         (Return (KwOpcode ''i32.ne'' ''I32Ne'' []))
       Break))
     (Case 4 (CHR ''o'')
       (Return (KwOpcode ''i32.or'' ''I32Or'' []))
     Break)))))))))))))))))))))))"

definition keywords_inl_9 :: Keywords where
  "keywords_inl_9 =
     (Case 8 (CHR ''b'')
       (Return (KwOpcode ''f32x4.sub'' ''F32X4Sub'' [''Simd'']))
     (Case 8 (CHR ''d'')
       (Return (KwOpcode ''f32x4.add'' ''F32X4Add'' [''Simd'']))
     (Case 8 (CHR ''g'')
       (Return (KwOpcode ''f32x4.neg'' ''F32X4Neg'' [''Simd'']))
     (Case 8 (CHR ''l'')
       (Case 9 (CHR ''a'')
         (Return (KwOpcode ''f32x4.splat'' ''F32X4Splat'' [''Simd'']))
       (Return (KwOpcode ''f32x4.mul'' ''F32X4Mul'' [''Simd''])))
     (Case 8 (CHR ''n'')
       (Case 9 (CHR ''v'')
         (Case 20 (CHR ''s'')
           (Return (KwOpcode ''f32x4.convert_i32x4_s'' ''F32X4ConvertI32X4S'' [''Simd'']))
         (Case 20 (CHR ''u'')
           (Return (KwOpcode ''f32x4.convert_i32x4_u'' ''F32X4ConvertI32X4U'' [''Simd'']))
         Break))
       (Return (KwOpcode ''f32x4.min'' ''F32X4Min'' [''Simd''])))
     (Case 8 (CHR ''p'')
       (Return (KwTokenOpcode ''f32x4.replace_lane'' ''SimdLaneInstr'' ''F32X4ReplaceLane'' [''Simd'']))
     (Case 8 (CHR ''r'')
       (Return (KwOpcode ''f32x4.sqrt'' ''F32X4Sqrt'' [''Simd'']))
     (Case 8 (CHR ''s'')
       (Return (KwOpcode ''f32x4.abs'' ''F32X4Abs'' [''Simd'']))
     (Case 8 (CHR ''t'')
       (Return (KwTokenOpcode ''f32x4.extract_lane'' ''SimdLaneInstr'' ''F32X4ExtractLane'' [''Simd'']))
     (Case 8 (CHR ''v'')
       (Return (KwOpcode ''f32x4.div'' ''F32X4Div'' [''Simd'']))
     (Case 8 (CHR ''x'')
       (Return (KwOpcode ''f32x4.max'' ''F32X4Max'' [''Simd'']))
     (Case 6 (CHR ''e'')
       (Return (KwOpcode ''f32x4.eq'' ''F32X4Eq'' [''Simd'']))
     (Case 6 (CHR ''g'')
       (Case 7 (CHR ''e'')
         (Return (KwOpcode ''f32x4.ge'' ''F32X4Ge'' [''Simd'']))
       (Case 7 (CHR ''t'')
         (Return (KwOpcode ''f32x4.gt'' ''F32X4Gt'' [''Simd'']))
       Break))
     (Case 6 (CHR ''l'')
       (Case 7 (CHR ''e'')
         (Return (KwOpcode ''f32x4.le'' ''F32X4Le'' [''Simd'']))
       (Case 7 (CHR ''t'')
         (Return (KwOpcode ''f32x4.lt'' ''F32X4Lt'' [''Simd'']))
       Break))
     (Case 6 (CHR ''n'')
       (Return (KwOpcode ''f32x4.ne'' ''F32X4Ne'' [''Simd'']))
     Break)))))))))))))))"

definition keywords_inl_8 :: Keywords where
  "keywords_inl_8 =
     (Case 5 (CHR ''.'')
       keywords_inl_9
     (Return (KwToken ''f32x4'' ''F32X4'')))"

definition keywords_inl_11 :: Keywords where
  "keywords_inl_11 =
     (Case 8 (CHR ''_'')
       (Case 9 (CHR ''s'')
         (Case 7 (CHR ''e'')
           (Case 6 (CHR ''g'')
             (Return (KwOpcode ''i32x4.ge_s'' ''I32X4GeS'' [''Simd'']))
           (Case 6 (CHR ''l'')
             (Return (KwOpcode ''i32x4.le_s'' ''I32X4LeS'' [''Simd'']))
           Break))
         (Case 7 (CHR ''t'')
           (Case 6 (CHR ''g'')
             (Return (KwOpcode ''i32x4.gt_s'' ''I32X4GtS'' [''Simd'']))
           (Case 6 (CHR ''l'')
             (Return (KwOpcode ''i32x4.lt_s'' ''I32X4LtS'' [''Simd'']))
           Break))
         Break))
       (Case 9 (CHR ''u'')
         (Case 7 (CHR ''e'')
           (Case 6 (CHR ''g'')
             (Return (KwOpcode ''i32x4.ge_u'' ''I32X4GeU'' [''Simd'']))
           (Case 6 (CHR ''l'')
             (Return (KwOpcode ''i32x4.le_u'' ''I32X4LeU'' [''Simd'']))
           Break))
         (Case 7 (CHR ''t'')
           (Case 6 (CHR ''g'')
             (Return (KwOpcode ''i32x4.gt_u'' ''I32X4GtU'' [''Simd'']))
           (Case 6 (CHR ''l'')
             (Return (KwOpcode ''i32x4.lt_u'' ''I32X4LtU'' [''Simd'']))
           Break))
         Break))
       Break))
     (Case 8 (CHR ''a'')
       (Case 15 (CHR ''s'')
         (Return (KwTokenOpcode ''i32x4.load16x4_s'' ''MemoryInstr'' ''I32X4Load16X4S'' [''Simd'']))
       (Case 15 (CHR ''u'')
         (Return (KwTokenOpcode ''i32x4.load16x4_u'' ''MemoryInstr'' ''I32X4Load16X4U'' [''Simd'']))
       Break))
     (Case 8 (CHR ''b'')
       (Return (KwOpcode ''i32x4.sub'' ''I32X4Sub'' [''Simd'']))
     (Case 8 (CHR ''d'')
       (Case 9 (CHR ''e'')
         (Case 23 (CHR ''s'')
           (Return (KwOpcode ''i32x4.widen_high_i16x8_s'' ''I32X4WidenHighI16X8S'' [''Simd'']))
         (Case 23 (CHR ''u'')
           (Return (KwOpcode ''i32x4.widen_high_i16x8_u'' ''I32X4WidenHighI16X8U'' [''Simd'']))
         (Case 22 (CHR ''s'')
           (Return (KwOpcode ''i32x4.widen_low_i16x8_s'' ''I32X4WidenLowI16X8S'' [''Simd'']))
         (Case 22 (CHR ''u'')
           (Return (KwOpcode ''i32x4.widen_low_i16x8_u'' ''I32X4WidenLowI16X8U'' [''Simd'']))
         Break))))
       (Return (KwOpcode ''i32x4.add'' ''I32X4Add'' [''Simd''])))
     (Case 8 (CHR ''g'')
       (Return (KwOpcode ''i32x4.neg'' ''I32X4Neg'' [''Simd'']))
     (Case 8 (CHR ''l'')
       (Case 7 (CHR ''h'')
         (Return (KwOpcode ''i32x4.shl'' ''I32X4Shl'' [''Simd'']))
       (Case 7 (CHR ''l'')
         (Return (KwOpcode ''i32x4.all_true'' ''I32X4AllTrue'' [''Simd'']))
       (Case 7 (CHR ''p'')
         (Return (KwOpcode ''i32x4.splat'' ''I32X4Splat'' [''Simd'']))
       (Case 7 (CHR ''u'')
         (Return (KwOpcode ''i32x4.mul'' ''I32X4Mul'' [''Simd'']))
       Break))))
     (Case 8 (CHR ''n'')
       (Case 10 (CHR ''s'')
         (Return (KwOpcode ''i32x4.min_s'' ''I32X4MinS'' [''Simd'']))
       (Case 10 (CHR ''u'')
         (Return (KwOpcode ''i32x4.min_u'' ''I32X4MinU'' [''Simd'']))
       Break))
     (Case 8 (CHR ''p'')
       (Return (KwTokenOpcode ''i32x4.replace_lane'' ''SimdLaneInstr'' ''I32X4ReplaceLane'' [''Simd'']))
     (Case 8 (CHR ''r'')
       (Case 10 (CHR ''s'')
         (Return (KwOpcode ''i32x4.shr_s'' ''I32X4ShrS'' [''Simd'']))
       (Case 10 (CHR ''u'')
         (Return (KwOpcode ''i32x4.shr_u'' ''I32X4ShrU'' [''Simd'']))
       Break))
     (Case 8 (CHR ''t'')
       (Return (KwTokenOpcode ''i32x4.extract_lane'' ''SimdLaneInstr'' ''I32X4ExtractLane'' [''Simd'']))
     (Case 8 (CHR ''u'')
       (Case 22 (CHR ''s'')
         (Return (KwOpcode ''i32x4.trunc_sat_f32x4_s'' ''I32X4TruncSatF32X4S'' [''Simd'']))
       (Case 22 (CHR ''u'')
         (Return (KwOpcode ''i32x4.trunc_sat_f32x4_u'' ''I32X4TruncSatF32X4U'' [''Simd'']))
       Break))
     (Case 8 (CHR ''x'')
       (Case 10 (CHR ''s'')
         (Return (KwOpcode ''i32x4.max_s'' ''I32X4MaxS'' [''Simd'']))
       (Case 10 (CHR ''u'')
         (Return (KwOpcode ''i32x4.max_u'' ''I32X4MaxU'' [''Simd'']))
       Break))
     (Case 8 (CHR ''y'')
       (Return (KwOpcode ''i32x4.any_true'' ''I32X4AnyTrue'' [''Simd'']))
     (Case 7 (CHR ''e'')
       (Return (KwOpcode ''i32x4.ne'' ''I32X4Ne'' [''Simd'']))
     (Case 7 (CHR ''q'')
       (Return (KwOpcode ''i32x4.eq'' ''I32X4Eq'' [''Simd'']))
     Break)))))))))))))))"

definition keywords_inl_10 :: Keywords where
  "keywords_inl_10 =
     (Case 5 (CHR ''.'')
       keywords_inl_11
     (Return (KwToken ''i32x4'' ''I32X4'')))"

definition keywords_inl_7 :: Keywords where
  "keywords_inl_7 =
     (Case 0 (CHR ''f'')
       keywords_inl_8
     (Case 0 (CHR ''i'')
       keywords_inl_10
     (Case 0 (CHR ''v'')
       (Return (KwTokenOpcode ''v32x4.load_splat'' ''MemoryInstr'' ''V32X4LoadSplat'' [''Simd'']))
     Break)))"

definition keywords_inl_1 :: Keywords where
  "keywords_inl_1 =
     (Case 3 (CHR ''.'')
       keywords_inl_2
     (Case 3 (CHR ''8'')
       (Case 4 (CHR ''.'')
         (Case 5 (CHR ''a'')
           (Case 8 (CHR ''n'')
             (Return (KwOpcode ''v128.andnot'' ''V128Andnot'' [''Simd'']))
           (Return (KwOpcode ''v128.and'' ''V128And'' [''Simd''])))
         (Case 5 (CHR ''b'')
           (Return (KwOpcode ''v128.bitselect'' ''V128BitSelect'' [''Simd'']))
         (Case 5 (CHR ''c'')
           (Return (KwTokenOpcode ''v128.const'' ''SimdConstInstr'' ''V128Const'' [''Simd'']))
         (Case 5 (CHR ''l'')
           (Return (KwTokenOpcode ''v128.load'' ''MemoryInstr'' ''V128Load'' [''Simd'']))
         (Case 5 (CHR ''n'')
           (Return (KwOpcode ''v128.not'' ''V128Not'' [''Simd'']))
         (Case 5 (CHR ''o'')
           (Return (KwOpcode ''v128.or'' ''V128Or'' [''Simd'']))
         (Case 5 (CHR ''s'')
           (Return (KwTokenOpcode ''v128.store'' ''MemoryInstr'' ''V128Store'' [''Simd'']))
         (Case 5 (CHR ''x'')
           (Return (KwOpcode ''v128.xor'' ''V128Xor'' [''Simd'']))
         Break))))))))
       (Return (KwValueType ''v128'' ''V128'')))
     (Case 3 (CHR ''x'')
       keywords_inl_7
     (Case 0 (CHR ''f'')
       (Return (KwValueType ''f32'' ''F32''))
     (Case 0 (CHR ''i'')
       (Return (KwValueType ''i32'' ''I32''))
     Break)))))"

definition keywords_inl_15 :: Keywords where
  "keywords_inl_15 =
     (Case 15 (CHR ''.'')
       (Case 17 (CHR ''c'')
         (Return (KwTokenOpcode ''i64.atomic.rmw8.xchg_u'' ''MemoryInstr'' ''I64AtomicRmw8XchgU'' [''Threads'']))
       (Case 17 (CHR ''d'')
         (Return (KwTokenOpcode ''i64.atomic.rmw8.add_u'' ''MemoryInstr'' ''I64AtomicRmw8AddU'' [''Threads'']))
       (Case 17 (CHR ''m'')
         (Return (KwTokenOpcode ''i64.atomic.rmw8.cmpxchg_u'' ''MemoryInstr'' ''I64AtomicRmw8CmpxchgU'' [''Threads'']))
       (Case 17 (CHR ''n'')
         (Return (KwTokenOpcode ''i64.atomic.rmw8.and_u'' ''MemoryInstr'' ''I64AtomicRmw8AndU'' [''Threads'']))
       (Case 17 (CHR ''o'')
         (Return (KwTokenOpcode ''i64.atomic.rmw8.xor_u'' ''MemoryInstr'' ''I64AtomicRmw8XorU'' [''Threads'']))
       (Case 17 (CHR ''r'')
         (Return (KwTokenOpcode ''i64.atomic.rmw8.or_u'' ''MemoryInstr'' ''I64AtomicRmw8OrU'' [''Threads'']))
       (Case 17 (CHR ''u'')
         (Return (KwTokenOpcode ''i64.atomic.rmw8.sub_u'' ''MemoryInstr'' ''I64AtomicRmw8SubU'' [''Threads'']))
       Break)))))))
     (Case 15 (CHR ''1'')
       (Return (KwTokenOpcode ''i64.atomic.load16_u'' ''MemoryInstr'' ''I64AtomicLoad16U'' [''Threads'']))
     (Case 15 (CHR ''2'')
       (Case 18 (CHR ''c'')
         (Return (KwTokenOpcode ''i64.atomic.rmw32.xchg_u'' ''MemoryInstr'' ''I64AtomicRmw32XchgU'' [''Threads'']))
       (Case 18 (CHR ''d'')
         (Return (KwTokenOpcode ''i64.atomic.rmw32.add_u'' ''MemoryInstr'' ''I64AtomicRmw32AddU'' [''Threads'']))
       (Case 18 (CHR ''m'')
         (Return (KwTokenOpcode ''i64.atomic.rmw32.cmpxchg_u'' ''MemoryInstr'' ''I64AtomicRmw32CmpxchgU'' [''Threads'']))
       (Case 18 (CHR ''n'')
         (Return (KwTokenOpcode ''i64.atomic.rmw32.and_u'' ''MemoryInstr'' ''I64AtomicRmw32AndU'' [''Threads'']))
       (Case 18 (CHR ''o'')
         (Return (KwTokenOpcode ''i64.atomic.rmw32.xor_u'' ''MemoryInstr'' ''I64AtomicRmw32XorU'' [''Threads'']))
       (Case 18 (CHR ''r'')
         (Return (KwTokenOpcode ''i64.atomic.rmw32.or_u'' ''MemoryInstr'' ''I64AtomicRmw32OrU'' [''Threads'']))
       (Case 18 (CHR ''u'')
         (Return (KwTokenOpcode ''i64.atomic.rmw32.sub_u'' ''MemoryInstr'' ''I64AtomicRmw32SubU'' [''Threads'']))
       Break)))))))
     (Case 15 (CHR ''3'')
       (Return (KwTokenOpcode ''i64.atomic.load32_u'' ''MemoryInstr'' ''I64AtomicLoad32U'' [''Threads'']))
     (Case 15 (CHR ''6'')
       (Case 18 (CHR ''c'')
         (Return (KwTokenOpcode ''i64.atomic.rmw16.xchg_u'' ''MemoryInstr'' ''I64AtomicRmw16XchgU'' [''Threads'']))
       (Case 18 (CHR ''d'')
         (Return (KwTokenOpcode ''i64.atomic.rmw16.add_u'' ''MemoryInstr'' ''I64AtomicRmw16AddU'' [''Threads'']))
       (Case 18 (CHR ''m'')
         (Return (KwTokenOpcode ''i64.atomic.rmw16.cmpxchg_u'' ''MemoryInstr'' ''I64AtomicRmw16CmpxchgU'' [''Threads'']))
       (Case 18 (CHR ''n'')
         (Return (KwTokenOpcode ''i64.atomic.rmw16.and_u'' ''MemoryInstr'' ''I64AtomicRmw16AndU'' [''Threads'']))
       (Case 18 (CHR ''o'')
         (Return (KwTokenOpcode ''i64.atomic.rmw16.xor_u'' ''MemoryInstr'' ''I64AtomicRmw16XorU'' [''Threads'']))
       (Case 18 (CHR ''r'')
         (Return (KwTokenOpcode ''i64.atomic.rmw16.or_u'' ''MemoryInstr'' ''I64AtomicRmw16OrU'' [''Threads'']))
       (Case 18 (CHR ''u'')
         (Return (KwTokenOpcode ''i64.atomic.rmw16.sub_u'' ''MemoryInstr'' ''I64AtomicRmw16SubU'' [''Threads'']))
       Break)))))))
     (Case 15 (CHR ''8'')
       (Return (KwTokenOpcode ''i64.atomic.load8_u'' ''MemoryInstr'' ''I64AtomicLoad8U'' [''Threads'']))
     (Case 15 (CHR ''a'')
       (Case 16 (CHR ''d'')
         (Return (KwTokenOpcode ''i64.atomic.rmw.add'' ''MemoryInstr'' ''I64AtomicRmwAdd'' [''Threads'']))
       (Case 16 (CHR ''n'')
         (Return (KwTokenOpcode ''i64.atomic.rmw.and'' ''MemoryInstr'' ''I64AtomicRmwAnd'' [''Threads'']))
       Break))
     (Case 15 (CHR ''c'')
       (Return (KwTokenOpcode ''i64.atomic.rmw.cmpxchg'' ''MemoryInstr'' ''I64AtomicRmwCmpxchg'' [''Threads'']))
     (Case 15 (CHR ''e'')
       (Case 16 (CHR ''1'')
         (Return (KwTokenOpcode ''i64.atomic.store16'' ''MemoryInstr'' ''I64AtomicStore16'' [''Threads'']))
       (Case 16 (CHR ''3'')
         (Return (KwTokenOpcode ''i64.atomic.store32'' ''MemoryInstr'' ''I64AtomicStore32'' [''Threads'']))
       (Case 16 (CHR ''8'')
         (Return (KwTokenOpcode ''i64.atomic.store8'' ''MemoryInstr'' ''I64AtomicStore8'' [''Threads'']))
       (Return (KwTokenOpcode ''i64.atomic.store'' ''MemoryInstr'' ''I64AtomicStore'' [''Threads''])))))
     (Case 15 (CHR ''o'')
       (Return (KwTokenOpcode ''i64.atomic.rmw.or'' ''MemoryInstr'' ''I64AtomicRmwOr'' [''Threads'']))
     (Case 15 (CHR ''s'')
       (Return (KwTokenOpcode ''i64.atomic.rmw.sub'' ''MemoryInstr'' ''I64AtomicRmwSub'' [''Threads'']))
     (Case 15 (CHR ''x'')
       (Case 18 (CHR ''g'')
         (Return (KwTokenOpcode ''i64.atomic.rmw.xchg'' ''MemoryInstr'' ''I64AtomicRmwXchg'' [''Threads'']))
       (Return (KwTokenOpcode ''i64.atomic.rmw.xor'' ''MemoryInstr'' ''I64AtomicRmwXor'' [''Threads''])))
     (Case 14 (CHR ''d'')
       (Return (KwTokenOpcode ''i64.atomic.load'' ''MemoryInstr'' ''I64AtomicLoad'' [''Threads'']))
     (Case 14 (CHR ''t'')
       (Return (KwTokenOpcode ''i64.atomic.wait'' ''MemoryInstr'' ''I64AtomicWait'' [''Threads'']))
     Break))))))))))))))"

definition keywords_inl_14 :: Keywords where
  "keywords_inl_14 =
     (Case 9 (CHR ''1'')
       (Return (KwTokenOpcode ''i64.store16'' ''MemoryInstr'' ''I64Store16'' []))
     (Case 9 (CHR ''3'')
       (Return (KwTokenOpcode ''i64.store32'' ''MemoryInstr'' ''I64Store32'' []))
     (Case 9 (CHR ''8'')
       (Return (KwTokenOpcode ''i64.store8'' ''MemoryInstr'' ''I64Store8'' []))
     (Case 9 (CHR ''c'')
       keywords_inl_15
     (Case 9 (CHR ''t'')
       (Case 11 (CHR ''/'')
         (Return (KwOpcode ''f64.promote/f32'' ''F64PromoteF32'' []))
       (Case 11 (CHR ''_'')
         (Return (KwOpcode ''f64.promote_f32'' ''F64PromoteF32'' []))
       Break))
     (Case 8 (CHR ''e'')
       (Case 0 (CHR ''f'')
         (Return (KwTokenOpcode ''f64.store'' ''MemoryInstr'' ''F64Store'' []))
       (Case 0 (CHR ''i'')
         (Return (KwTokenOpcode ''i64.store'' ''MemoryInstr'' ''I64Store'' []))
       Break))
     (Case 8 (CHR ''r'')
       (Return (KwOpcode ''f64.floor'' ''F64Floor'' []))
     Break)))))))"

definition keywords_inl_17 :: Keywords where
  "keywords_inl_17 =
     (Case 14 (CHR ''2'')
       (Case 10 (CHR ''s'')
         (Return (KwOpcode ''i64.trunc_s/f32'' ''I64TruncF32S'' []))
       (Case 10 (CHR ''u'')
         (Return (KwOpcode ''i64.trunc_u/f32'' ''I64TruncF32U'' []))
       Break))
     (Case 14 (CHR ''4'')
       (Case 10 (CHR ''s'')
         (Return (KwOpcode ''i64.trunc_s/f64'' ''I64TruncF64S'' []))
       (Case 10 (CHR ''u'')
         (Return (KwOpcode ''i64.trunc_u/f64'' ''I64TruncF64U'' []))
       Break))
     (Case 14 (CHR ''f'')
       (Case 18 (CHR ''s'')
         (Case 16 (CHR ''2'')
           (Return (KwOpcode ''i64.trunc_sat_f32_s'' ''I64TruncSatF32S'' [''SaturatingFloatToInt'']))
         (Case 16 (CHR ''4'')
           (Return (KwOpcode ''i64.trunc_sat_f64_s'' ''I64TruncSatF64S'' [''SaturatingFloatToInt'']))
         Break))
       (Case 18 (CHR ''u'')
         (Case 16 (CHR ''2'')
           (Return (KwOpcode ''i64.trunc_sat_f32_u'' ''I64TruncSatF32U'' [''SaturatingFloatToInt'']))
         (Case 16 (CHR ''4'')
           (Return (KwOpcode ''i64.trunc_sat_f64_u'' ''I64TruncSatF64U'' [''SaturatingFloatToInt'']))
         Break))
       Break))
     (Case 14 (CHR ''s'')
       (Case 12 (CHR ''2'')
         (Return (KwOpcode ''i64.trunc_f32_s'' ''I64TruncF32S'' []))
       (Case 12 (CHR ''4'')
         (Return (KwOpcode ''i64.trunc_f64_s'' ''I64TruncF64S'' []))
       Break))
     (Case 14 (CHR ''t'')
       (Case 18 (CHR ''2'')
         (Case 10 (CHR ''s'')
           (Return (KwOpcode ''i64.trunc_s:sat/f32'' ''I64TruncSatF32S'' [''SaturatingFloatToInt'']))
         (Case 10 (CHR ''u'')
           (Return (KwOpcode ''i64.trunc_u:sat/f32'' ''I64TruncSatF32U'' [''SaturatingFloatToInt'']))
         Break))
       (Case 18 (CHR ''4'')
         (Case 10 (CHR ''s'')
           (Return (KwOpcode ''i64.trunc_s:sat/f64'' ''I64TruncSatF64S'' [''SaturatingFloatToInt'']))
         (Case 10 (CHR ''u'')
           (Return (KwOpcode ''i64.trunc_u:sat/f64'' ''I64TruncSatF64U'' [''SaturatingFloatToInt'']))
         Break))
       Break))
     (Case 14 (CHR ''u'')
       (Case 12 (CHR ''2'')
         (Return (KwOpcode ''i64.trunc_f32_u'' ''I64TruncF32U'' []))
       (Case 12 (CHR ''4'')
         (Return (KwOpcode ''i64.trunc_f64_u'' ''I64TruncF64U'' []))
       Break))
     Break))))))"

definition keywords_inl_16 :: Keywords where
  "keywords_inl_16 =
     (Case 9 (CHR ''_'')
       keywords_inl_17
     (Return (KwOpcode ''f64.trunc'' ''F64Trunc'' [])))"

definition keywords_inl_13 :: Keywords where
  "keywords_inl_13 =
     (Case 6 (CHR ''_'')
       (Case 7 (CHR ''s'')
         (Case 5 (CHR ''e'')
           (Case 4 (CHR ''g'')
             (Return (KwOpcode ''i64.ge_s'' ''I64GeS'' []))
           (Case 4 (CHR ''l'')
             (Return (KwOpcode ''i64.le_s'' ''I64LeS'' []))
           Break))
         (Case 5 (CHR ''t'')
           (Case 4 (CHR ''g'')
             (Return (KwOpcode ''i64.gt_s'' ''I64GtS'' []))
           (Case 4 (CHR ''l'')
             (Return (KwOpcode ''i64.lt_s'' ''I64LtS'' []))
           Break))
         Break))
       (Case 7 (CHR ''u'')
         (Case 5 (CHR ''e'')
           (Case 4 (CHR ''g'')
             (Return (KwOpcode ''i64.ge_u'' ''I64GeU'' []))
           (Case 4 (CHR ''l'')
             (Return (KwOpcode ''i64.le_u'' ''I64LeU'' []))
           Break))
         (Case 5 (CHR ''t'')
           (Case 4 (CHR ''g'')
             (Return (KwOpcode ''i64.gt_u'' ''I64GtU'' []))
           (Case 4 (CHR ''l'')
             (Return (KwOpcode ''i64.lt_u'' ''I64LtU'' []))
           Break))
         Break))
       Break))
     (Case 6 (CHR ''a'')
       (Case 8 (CHR ''1'')
         (Case 11 (CHR ''s'')
           (Return (KwTokenOpcode ''i64.load16_s'' ''MemoryInstr'' ''I64Load16S'' []))
         (Case 11 (CHR ''u'')
           (Return (KwTokenOpcode ''i64.load16_u'' ''MemoryInstr'' ''I64Load16U'' []))
         Break))
       (Case 8 (CHR ''3'')
         (Case 11 (CHR ''s'')
           (Return (KwTokenOpcode ''i64.load32_s'' ''MemoryInstr'' ''I64Load32S'' []))
         (Case 11 (CHR ''u'')
           (Return (KwTokenOpcode ''i64.load32_u'' ''MemoryInstr'' ''I64Load32U'' []))
         Break))
       (Case 8 (CHR ''8'')
         (Case 10 (CHR ''s'')
           (Return (KwTokenOpcode ''i64.load8_s'' ''MemoryInstr'' ''I64Load8S'' []))
         (Case 10 (CHR ''u'')
           (Return (KwTokenOpcode ''i64.load8_u'' ''MemoryInstr'' ''I64Load8U'' []))
         Break))
       (Case 8 (CHR ''e'')
         (Return (KwOpcode ''f64.nearest'' ''F64Nearest'' []))
       (Case 0 (CHR ''f'')
         (Return (KwTokenOpcode ''f64.load'' ''MemoryInstr'' ''F64Load'' []))
       (Case 0 (CHR ''i'')
         (Return (KwTokenOpcode ''i64.load'' ''MemoryInstr'' ''I64Load'' []))
       Break))))))
     (Case 6 (CHR ''b'')
       (Case 0 (CHR ''f'')
         (Return (KwOpcode ''f64.sub'' ''F64Sub'' []))
       (Case 0 (CHR ''i'')
         (Return (KwOpcode ''i64.sub'' ''I64Sub'' []))
       Break))
     (Case 6 (CHR ''d'')
       (Case 5 (CHR ''d'')
         (Case 0 (CHR ''f'')
           (Return (KwOpcode ''f64.add'' ''F64Add'' []))
         (Case 0 (CHR ''i'')
           (Return (KwOpcode ''i64.add'' ''I64Add'' []))
         Break))
       (Case 5 (CHR ''n'')
         (Return (KwOpcode ''i64.and'' ''I64And'' []))
       Break))
     (Case 6 (CHR ''g'')
       (Return (KwOpcode ''f64.neg'' ''F64Neg'' []))
     (Case 6 (CHR ''i'')
       (Case 8 (CHR ''t'')
         (Case 16 (CHR ''f'')
           (Case 15 (CHR ''/'')
             (Return (KwOpcode ''i64.reinterpret/f64'' ''I64ReinterpretF64'' []))
           (Case 15 (CHR ''_'')
             (Return (KwOpcode ''i64.reinterpret_f64'' ''I64ReinterpretF64'' []))
           Break))
         (Case 16 (CHR ''i'')
           (Case 15 (CHR ''/'')
             (Return (KwOpcode ''f64.reinterpret/i64'' ''F64ReinterpretI64'' []))
           (Case 15 (CHR ''_'')
             (Return (KwOpcode ''f64.reinterpret_i64'' ''F64ReinterpretI64'' []))
           Break))
         Break))
       (Return (KwOpcode ''f64.ceil'' ''F64Ceil'' [])))
     (Case 6 (CHR ''l'')
       (Case 5 (CHR ''h'')
         (Return (KwOpcode ''i64.shl'' ''I64Shl'' []))
       (Case 5 (CHR ''u'')
         (Case 0 (CHR ''f'')
           (Return (KwOpcode ''f64.mul'' ''F64Mul'' []))
         (Case 0 (CHR ''i'')
           (Return (KwOpcode ''i64.mul'' ''I64Mul'' []))
         Break))
       Break))
     (Case 6 (CHR ''m'')
       (Case 8 (CHR ''s'')
         (Return (KwOpcode ''i64.rem_s'' ''I64RemS'' []))
       (Case 8 (CHR ''u'')
         (Return (KwOpcode ''i64.rem_u'' ''I64RemU'' []))
       Break))
     (Case 6 (CHR ''n'')
       (Case 7 (CHR ''s'')
         (Case 0 (CHR ''f'')
           (Return (KwTokenOpcode ''f64.const'' ''F64ConstInstr'' ''F64Const'' []))
         (Case 0 (CHR ''i'')
           (Return (KwTokenOpcode ''i64.const'' ''I64ConstInstr'' ''I64Const'' []))
         Break))
       (Case 7 (CHR ''v'')
         (Case 16 (CHR ''2'')
           (Case 12 (CHR ''s'')
             (Return (KwOpcode ''f64.convert_s/i32'' ''F64ConvertI32S'' []))
           (Case 12 (CHR ''u'')
             (Return (KwOpcode ''f64.convert_u/i32'' ''F64ConvertI32U'' []))
           Break))
         (Case 16 (CHR ''4'')
           (Case 12 (CHR ''s'')
             (Return (KwOpcode ''f64.convert_s/i64'' ''F64ConvertI64S'' []))
           (Case 12 (CHR ''u'')
             (Return (KwOpcode ''f64.convert_u/i64'' ''F64ConvertI64U'' []))
           Break))
         (Case 16 (CHR ''s'')
           (Case 14 (CHR ''2'')
             (Return (KwOpcode ''f64.convert_i32_s'' ''F64ConvertI32S'' []))
           (Case 14 (CHR ''4'')
             (Return (KwOpcode ''f64.convert_i64_s'' ''F64ConvertI64S'' []))
           Break))
         (Case 16 (CHR ''u'')
           (Case 14 (CHR ''2'')
             (Return (KwOpcode ''f64.convert_i32_u'' ''F64ConvertI32U'' []))
           (Case 14 (CHR ''4'')
             (Return (KwOpcode ''f64.convert_i64_u'' ''F64ConvertI64U'' []))
           Break))
         Break))))
       (Return (KwOpcode ''f64.min'' ''F64Min'' []))))
     (Case 6 (CHR ''o'')
       keywords_inl_14
     (Case 6 (CHR ''p'')
       (Case 10 (CHR ''g'')
         (Return (KwOpcode ''f64.copysign'' ''F64Copysign'' []))
       (Return (KwOpcode ''i64.popcnt'' ''I64Popcnt'' [])))
     (Case 6 (CHR ''r'')
       (Case 7 (CHR ''_'')
         (Case 8 (CHR ''s'')
           (Return (KwOpcode ''i64.shr_s'' ''I64ShrS'' []))
         (Case 8 (CHR ''u'')
           (Return (KwOpcode ''i64.shr_u'' ''I64ShrU'' []))
         Break))
       (Case 7 (CHR ''t'')
         (Return (KwOpcode ''f64.sqrt'' ''F64Sqrt'' []))
       (Return (KwOpcode ''i64.xor'' ''I64Xor'' []))))
     (Case 6 (CHR ''s'')
       (Return (KwOpcode ''f64.abs'' ''F64Abs'' []))
     (Case 6 (CHR ''t'')
       (Case 7 (CHR ''e'')
         (Case 11 (CHR ''2'')
           (Return (KwOpcode ''i64.extend32_s'' ''I64Extend32S'' [''SignExtension'']))
         (Case 11 (CHR ''6'')
           (Return (KwOpcode ''i64.extend16_s'' ''I64Extend16S'' [''SignExtension'']))
         (Case 11 (CHR ''_'')
           (Return (KwOpcode ''i64.extend8_s'' ''I64Extend8S'' [''SignExtension'']))
         (Case 11 (CHR ''i'')
           (Case 15 (CHR ''s'')
             (Return (KwOpcode ''i64.extend_i32_s'' ''I64ExtendI32S'' []))
           (Case 15 (CHR ''u'')
             (Return (KwOpcode ''i64.extend_i32_u'' ''I64ExtendI32U'' []))
           Break))
         (Case 11 (CHR ''s'')
           (Return (KwOpcode ''i64.extend_s/i32'' ''I64ExtendI32S'' []))
         (Case 11 (CHR ''u'')
           (Return (KwOpcode ''i64.extend_u/i32'' ''I64ExtendI32U'' []))
         Break))))))
       (Case 7 (CHR ''l'')
         (Return (KwOpcode ''i64.rotl'' ''I64Rotl'' []))
       (Case 7 (CHR ''r'')
         (Return (KwOpcode ''i64.rotr'' ''I64Rotr'' []))
       Break)))
     (Case 6 (CHR ''u'')
       keywords_inl_16
     (Case 6 (CHR ''v'')
       (Case 7 (CHR ''_'')
         (Case 8 (CHR ''s'')
           (Return (KwOpcode ''i64.div_s'' ''I64DivS'' []))
         (Case 8 (CHR ''u'')
           (Return (KwOpcode ''i64.div_u'' ''I64DivU'' []))
         Break))
       (Return (KwOpcode ''f64.div'' ''F64Div'' [])))
     (Case 6 (CHR ''x'')
       (Return (KwOpcode ''f64.max'' ''F64Max'' []))
     (Case 6 (CHR ''z'')
       (Case 5 (CHR ''l'')
         (Return (KwOpcode ''i64.clz'' ''I64Clz'' []))
       (Case 5 (CHR ''q'')
         (Return (KwOpcode ''i64.eqz'' ''I64Eqz'' []))
       (Case 5 (CHR ''t'')
         (Return (KwOpcode ''i64.ctz'' ''I64Ctz'' []))
       Break)))
     (Case 4 (CHR ''e'')
       (Case 0 (CHR ''f'')
         (Return (KwOpcode ''f64.eq'' ''F64Eq'' []))
       (Case 0 (CHR ''i'')
         (Return (KwOpcode ''i64.eq'' ''I64Eq'' []))
       Break))
     (Case 4 (CHR ''g'')
       (Case 5 (CHR ''e'')
         (Return (KwOpcode ''f64.ge'' ''F64Ge'' []))
       (Case 5 (CHR ''t'')
         (Return (KwOpcode ''f64.gt'' ''F64Gt'' []))
       Break))
     (Case 4 (CHR ''l'')
       (Case 5 (CHR ''e'')
         (Return (KwOpcode ''f64.le'' ''F64Le'' []))
       (Case 5 (CHR ''t'')
         (Return (KwOpcode ''f64.lt'' ''F64Lt'' []))
       Break))
     (Case 4 (CHR ''n'')
       (Case 0 (CHR ''f'')
         (Return (KwOpcode ''f64.ne'' ''F64Ne'' []))
       (Case 0 (CHR ''i'')
         (Return (KwOpcode ''i64.ne'' ''I64Ne'' []))
       Break))
     (Case 4 (CHR ''o'')
       (Return (KwOpcode ''i64.or'' ''I64Or'' []))
     Break)))))))))))))))))))))))"

definition keywords_inl_20 :: Keywords where
  "keywords_inl_20 =
     (Case 8 (CHR ''b'')
       (Return (KwOpcode ''f64x2.sub'' ''F64X2Sub'' [''Simd'']))
     (Case 8 (CHR ''d'')
       (Return (KwOpcode ''f64x2.add'' ''F64X2Add'' [''Simd'']))
     (Case 8 (CHR ''g'')
       (Return (KwOpcode ''f64x2.neg'' ''F64X2Neg'' [''Simd'']))
     (Case 8 (CHR ''l'')
       (Case 9 (CHR ''a'')
         (Return (KwOpcode ''f64x2.splat'' ''F64X2Splat'' [''Simd'']))
       (Return (KwOpcode ''f64x2.mul'' ''F64X2Mul'' [''Simd''])))
     (Case 8 (CHR ''n'')
       (Return (KwOpcode ''f64x2.min'' ''F64X2Min'' [''Simd'']))
     (Case 8 (CHR ''p'')
       (Return (KwTokenOpcode ''f64x2.replace_lane'' ''SimdLaneInstr'' ''F64X2ReplaceLane'' [''Simd'']))
     (Case 8 (CHR ''r'')
       (Return (KwOpcode ''f64x2.sqrt'' ''F64X2Sqrt'' [''Simd'']))
     (Case 8 (CHR ''s'')
       (Return (KwOpcode ''f64x2.abs'' ''F64X2Abs'' [''Simd'']))
     (Case 8 (CHR ''t'')
       (Return (KwTokenOpcode ''f64x2.extract_lane'' ''SimdLaneInstr'' ''F64X2ExtractLane'' [''Simd'']))
     (Case 8 (CHR ''v'')
       (Return (KwOpcode ''f64x2.div'' ''F64X2Div'' [''Simd'']))
     (Case 8 (CHR ''x'')
       (Return (KwOpcode ''f64x2.max'' ''F64X2Max'' [''Simd'']))
     (Case 6 (CHR ''e'')
       (Return (KwOpcode ''f64x2.eq'' ''F64X2Eq'' [''Simd'']))
     (Case 6 (CHR ''g'')
       (Case 7 (CHR ''e'')
         (Return (KwOpcode ''f64x2.ge'' ''F64X2Ge'' [''Simd'']))
       (Case 7 (CHR ''t'')
         (Return (KwOpcode ''f64x2.gt'' ''F64X2Gt'' [''Simd'']))
       Break))
     (Case 6 (CHR ''l'')
       (Case 7 (CHR ''e'')
         (Return (KwOpcode ''f64x2.le'' ''F64X2Le'' [''Simd'']))
       (Case 7 (CHR ''t'')
         (Return (KwOpcode ''f64x2.lt'' ''F64X2Lt'' [''Simd'']))
       Break))
     (Case 6 (CHR ''n'')
       (Return (KwOpcode ''f64x2.ne'' ''F64X2Ne'' [''Simd'']))
     Break)))))))))))))))"

definition keywords_inl_19 :: Keywords where
  "keywords_inl_19 =
     (Case 5 (CHR ''.'')
       keywords_inl_20
     (Return (KwToken ''f64x2'' ''F64X2'')))"

definition keywords_inl_18 :: Keywords where
  "keywords_inl_18 =
     (Case 0 (CHR ''f'')
       keywords_inl_19
     (Case 0 (CHR ''i'')
       (Case 5 (CHR ''.'')
         (Case 8 (CHR ''a'')
           (Case 15 (CHR ''s'')
             (Return (KwTokenOpcode ''i64x2.load32x2_s'' ''MemoryInstr'' ''I64X2Load32X2S'' [''Simd'']))
           (Case 15 (CHR ''u'')
             (Return (KwTokenOpcode ''i64x2.load32x2_u'' ''MemoryInstr'' ''I64X2Load32X2U'' [''Simd'']))
           Break))
         (Case 8 (CHR ''b'')
           (Return (KwOpcode ''i64x2.sub'' ''I64X2Sub'' [''Simd'']))
         (Case 8 (CHR ''d'')
           (Return (KwOpcode ''i64x2.add'' ''I64X2Add'' [''Simd'']))
         (Case 8 (CHR ''g'')
           (Return (KwOpcode ''i64x2.neg'' ''I64X2Neg'' [''Simd'']))
         (Case 8 (CHR ''l'')
           (Case 7 (CHR ''h'')
             (Return (KwOpcode ''i64x2.shl'' ''I64X2Shl'' [''Simd'']))
           (Case 7 (CHR ''p'')
             (Return (KwOpcode ''i64x2.splat'' ''I64X2Splat'' [''Simd'']))
           (Case 7 (CHR ''u'')
             (Return (KwOpcode ''i64x2.mul'' ''I64X2Mul'' [''Simd'']))
           Break)))
         (Case 8 (CHR ''p'')
           (Return (KwTokenOpcode ''i64x2.replace_lane'' ''SimdLaneInstr'' ''I64X2ReplaceLane'' [''Simd'']))
         (Case 8 (CHR ''r'')
           (Case 10 (CHR ''s'')
             (Return (KwOpcode ''i64x2.shr_s'' ''I64X2ShrS'' [''Simd'']))
           (Case 10 (CHR ''u'')
             (Return (KwOpcode ''i64x2.shr_u'' ''I64X2ShrU'' [''Simd'']))
           Break))
         (Case 8 (CHR ''t'')
           (Return (KwTokenOpcode ''i64x2.extract_lane'' ''SimdLaneInstr'' ''I64X2ExtractLane'' [''Simd'']))
         Break))))))))
       (Return (KwToken ''i64x2'' ''I64X2'')))
     (Case 0 (CHR ''v'')
       (Return (KwTokenOpcode ''v64x2.load_splat'' ''MemoryInstr'' ''V64X2LoadSplat'' [''Simd'']))
     Break)))"

definition keywords_inl_12 :: Keywords where
  "keywords_inl_12 =
     (Case 3 (CHR ''.'')
       keywords_inl_13
     (Case 3 (CHR ''x'')
       keywords_inl_18
     (Case 0 (CHR ''f'')
       (Return (KwValueType ''f64'' ''F64''))
     (Case 0 (CHR ''i'')
       (Return (KwValueType ''i64'' ''I64''))
     Break))))"

definition keywords_inl_22 :: Keywords where
  "keywords_inl_22 =
     (Case 7 (CHR ''a'')
       (Case 10 (CHR ''o'')
         (Case 19 (CHR ''s'')
           (Return (KwOpcode ''i16x8.narrow_i32x4_s'' ''I16X8NarrowI32X4S'' [''Simd'']))
         (Case 19 (CHR ''u'')
           (Return (KwOpcode ''i16x8.narrow_i32x4_u'' ''I16X8NarrowI32X4U'' [''Simd'']))
         Break))
       (Case 10 (CHR ''s'')
         (Return (KwOpcode ''i16x8.max_s'' ''I16X8MaxS'' [''Simd'']))
       (Case 10 (CHR ''u'')
         (Return (KwOpcode ''i16x8.max_u'' ''I16X8MaxU'' [''Simd'']))
       Break)))
     (Case 7 (CHR ''d'')
       (Case 9 (CHR ''_'')
         (Case 19 (CHR ''s'')
           (Return (KwOpcode ''i16x8.add_saturate_s'' ''I16X8AddSaturateS'' [''Simd'']))
         (Case 19 (CHR ''u'')
           (Return (KwOpcode ''i16x8.add_saturate_u'' ''I16X8AddSaturateU'' [''Simd'']))
         Break))
       (Return (KwOpcode ''i16x8.add'' ''I16X8Add'' [''Simd''])))
     (Case 7 (CHR ''e'')
       (Case 8 (CHR ''_'')
         (Case 9 (CHR ''s'')
           (Case 6 (CHR ''g'')
             (Return (KwOpcode ''i16x8.ge_s'' ''I16X8GeS'' [''Simd'']))
           (Case 6 (CHR ''l'')
             (Return (KwOpcode ''i16x8.le_s'' ''I16X8LeS'' [''Simd'']))
           Break))
         (Case 9 (CHR ''u'')
           (Case 6 (CHR ''g'')
             (Return (KwOpcode ''i16x8.ge_u'' ''I16X8GeU'' [''Simd'']))
           (Case 6 (CHR ''l'')
             (Return (KwOpcode ''i16x8.le_u'' ''I16X8LeU'' [''Simd'']))
           Break))
         Break))
       (Case 8 (CHR ''g'')
         (Return (KwOpcode ''i16x8.neg'' ''I16X8Neg'' [''Simd'']))
       (Case 8 (CHR ''p'')
         (Return (KwTokenOpcode ''i16x8.replace_lane'' ''SimdLaneInstr'' ''I16X8ReplaceLane'' [''Simd'']))
       (Return (KwOpcode ''i16x8.ne'' ''I16X8Ne'' [''Simd''])))))
     (Case 7 (CHR ''h'')
       (Case 9 (CHR ''_'')
         (Case 10 (CHR ''s'')
           (Return (KwOpcode ''i16x8.shr_s'' ''I16X8ShrS'' [''Simd'']))
         (Case 10 (CHR ''u'')
           (Return (KwOpcode ''i16x8.shr_u'' ''I16X8ShrU'' [''Simd'']))
         Break))
       (Return (KwOpcode ''i16x8.shl'' ''I16X8Shl'' [''Simd''])))
     (Case 7 (CHR ''i'')
       (Case 10 (CHR ''n'')
         (Case 23 (CHR ''s'')
           (Return (KwOpcode ''i16x8.widen_high_i8x16_s'' ''I16X8WidenHighI8X16S'' [''Simd'']))
         (Case 23 (CHR ''u'')
           (Return (KwOpcode ''i16x8.widen_high_i8x16_u'' ''I16X8WidenHighI8X16U'' [''Simd'']))
         (Case 22 (CHR ''s'')
           (Return (KwOpcode ''i16x8.widen_low_i8x16_s'' ''I16X8WidenLowI8X16S'' [''Simd'']))
         (Case 22 (CHR ''u'')
           (Return (KwOpcode ''i16x8.widen_low_i8x16_u'' ''I16X8WidenLowI8X16U'' [''Simd'']))
         Break))))
       (Case 10 (CHR ''s'')
         (Return (KwOpcode ''i16x8.min_s'' ''I16X8MinS'' [''Simd'']))
       (Case 10 (CHR ''u'')
         (Return (KwOpcode ''i16x8.min_u'' ''I16X8MinU'' [''Simd'']))
       Break)))
     (Case 7 (CHR ''l'')
       (Return (KwOpcode ''i16x8.all_true'' ''I16X8AllTrue'' [''Simd'']))
     (Case 7 (CHR ''n'')
       (Return (KwOpcode ''i16x8.any_true'' ''I16X8AnyTrue'' [''Simd'']))
     (Case 7 (CHR ''o'')
       (Case 14 (CHR ''a'')
         (Return (KwTokenOpcode ''v16x8.load_splat'' ''MemoryInstr'' ''V16X8LoadSplat'' [''Simd'']))
       (Case 14 (CHR ''s'')
         (Return (KwTokenOpcode ''i16x8.load8x8_s'' ''MemoryInstr'' ''I16X8Load8X8S'' [''Simd'']))
       (Case 14 (CHR ''u'')
         (Return (KwTokenOpcode ''i16x8.load8x8_u'' ''MemoryInstr'' ''I16X8Load8X8U'' [''Simd'']))
       Break)))
     (Case 7 (CHR ''p'')
       (Return (KwOpcode ''i16x8.splat'' ''I16X8Splat'' [''Simd'']))
     (Case 7 (CHR ''q'')
       (Return (KwOpcode ''i16x8.eq'' ''I16X8Eq'' [''Simd'']))
     (Case 7 (CHR ''t'')
       (Case 9 (CHR ''s'')
         (Case 6 (CHR ''g'')
           (Return (KwOpcode ''i16x8.gt_s'' ''I16X8GtS'' [''Simd'']))
         (Case 6 (CHR ''l'')
           (Return (KwOpcode ''i16x8.lt_s'' ''I16X8LtS'' [''Simd'']))
         Break))
       (Case 9 (CHR ''u'')
         (Case 6 (CHR ''g'')
           (Return (KwOpcode ''i16x8.gt_u'' ''I16X8GtU'' [''Simd'']))
         (Case 6 (CHR ''l'')
           (Return (KwOpcode ''i16x8.lt_u'' ''I16X8LtU'' [''Simd'']))
         Break))
       Break))
     (Case 7 (CHR ''u'')
       (Case 9 (CHR ''_'')
         (Case 19 (CHR ''s'')
           (Return (KwOpcode ''i16x8.sub_saturate_s'' ''I16X8SubSaturateS'' [''Simd'']))
         (Case 19 (CHR ''u'')
           (Return (KwOpcode ''i16x8.sub_saturate_u'' ''I16X8SubSaturateU'' [''Simd'']))
         Break))
       (Case 8 (CHR ''b'')
         (Return (KwOpcode ''i16x8.sub'' ''I16X8Sub'' [''Simd'']))
       (Case 8 (CHR ''l'')
         (Return (KwOpcode ''i16x8.mul'' ''I16X8Mul'' [''Simd'']))
       Break)))
     (Case 7 (CHR ''v'')
       (Return (KwOpcode ''i16x8.avgr_u'' ''I16X8AvgrU'' [''Simd'']))
     (Case 7 (CHR ''x'')
       (Case 19 (CHR ''s'')
         (Return (KwTokenOpcode ''i16x8.extract_lane_s'' ''SimdLaneInstr'' ''I16X8ExtractLaneS'' [''Simd'']))
       (Case 19 (CHR ''u'')
         (Return (KwTokenOpcode ''i16x8.extract_lane_u'' ''SimdLaneInstr'' ''I16X8ExtractLaneU'' [''Simd'']))
       Break))
     Break))))))))))))))"

definition keywords_inl_21 :: Keywords where
  "keywords_inl_21 =
     (Case 5 (CHR ''.'')
       keywords_inl_22
     (Return (KwToken ''i16x8'' ''I16X8'')))"

definition keywords_inl_24 :: Keywords where
  "keywords_inl_24 =
     (Case 8 (CHR ''_'')
       (Case 9 (CHR ''s'')
         (Case 7 (CHR ''e'')
           (Case 6 (CHR ''g'')
             (Return (KwOpcode ''i8x16.ge_s'' ''I8X16GeS'' [''Simd'']))
           (Case 6 (CHR ''l'')
             (Return (KwOpcode ''i8x16.le_s'' ''I8X16LeS'' [''Simd'']))
           Break))
         (Case 7 (CHR ''t'')
           (Case 6 (CHR ''g'')
             (Return (KwOpcode ''i8x16.gt_s'' ''I8X16GtS'' [''Simd'']))
           (Case 6 (CHR ''l'')
             (Return (KwOpcode ''i8x16.lt_s'' ''I8X16LtS'' [''Simd'']))
           Break))
         Break))
       (Case 9 (CHR ''u'')
         (Case 7 (CHR ''e'')
           (Case 6 (CHR ''g'')
             (Return (KwOpcode ''i8x16.ge_u'' ''I8X16GeU'' [''Simd'']))
           (Case 6 (CHR ''l'')
             (Return (KwOpcode ''i8x16.le_u'' ''I8X16LeU'' [''Simd'']))
           Break))
         (Case 7 (CHR ''t'')
           (Case 6 (CHR ''g'')
             (Return (KwOpcode ''i8x16.gt_u'' ''I8X16GtU'' [''Simd'']))
           (Case 6 (CHR ''l'')
             (Return (KwOpcode ''i8x16.lt_u'' ''I8X16LtU'' [''Simd'']))
           Break))
         Break))
       Break))
     (Case 8 (CHR ''a'')
       (Return (KwTokenOpcode ''v8x16.load_splat'' ''MemoryInstr'' ''V8X16LoadSplat'' [''Simd'']))
     (Case 8 (CHR ''b'')
       (Case 9 (CHR ''_'')
         (Case 19 (CHR ''s'')
           (Return (KwOpcode ''i8x16.sub_saturate_s'' ''I8X16SubSaturateS'' [''Simd'']))
         (Case 19 (CHR ''u'')
           (Return (KwOpcode ''i8x16.sub_saturate_u'' ''I8X16SubSaturateU'' [''Simd'']))
         Break))
       (Return (KwOpcode ''i8x16.sub'' ''I8X16Sub'' [''Simd''])))
     (Case 8 (CHR ''d'')
       (Case 9 (CHR ''_'')
         (Case 19 (CHR ''s'')
           (Return (KwOpcode ''i8x16.add_saturate_s'' ''I8X16AddSaturateS'' [''Simd'']))
         (Case 19 (CHR ''u'')
           (Return (KwOpcode ''i8x16.add_saturate_u'' ''I8X16AddSaturateU'' [''Simd'']))
         Break))
       (Return (KwOpcode ''i8x16.add'' ''I8X16Add'' [''Simd''])))
     (Case 8 (CHR ''g'')
       (Case 9 (CHR ''r'')
         (Return (KwOpcode ''i8x16.avgr_u'' ''I8X16AvgrU'' [''Simd'']))
       (Return (KwOpcode ''i8x16.neg'' ''I8X16Neg'' [''Simd''])))
     (Case 8 (CHR ''i'')
       (Return (KwOpcode ''v8x16.swizzle'' ''V8X16Swizzle'' [''Simd'']))
     (Case 8 (CHR ''l'')
       (Case 9 (CHR ''_'')
         (Return (KwOpcode ''i8x16.all_true'' ''I8X16AllTrue'' [''Simd'']))
       (Case 9 (CHR ''a'')
         (Return (KwOpcode ''i8x16.splat'' ''I8X16Splat'' [''Simd'']))
       (Return (KwOpcode ''i8x16.shl'' ''I8X16Shl'' [''Simd'']))))
     (Case 8 (CHR ''n'')
       (Case 10 (CHR ''s'')
         (Return (KwOpcode ''i8x16.min_s'' ''I8X16MinS'' [''Simd'']))
       (Case 10 (CHR ''u'')
         (Return (KwOpcode ''i8x16.min_u'' ''I8X16MinU'' [''Simd'']))
       Break))
     (Case 8 (CHR ''p'')
       (Return (KwTokenOpcode ''i8x16.replace_lane'' ''SimdLaneInstr'' ''I8X16ReplaceLane'' [''Simd'']))
     (Case 8 (CHR ''r'')
       (Case 10 (CHR ''o'')
         (Case 19 (CHR ''s'')
           (Return (KwOpcode ''i8x16.narrow_i16x8_s'' ''I8X16NarrowI16X8S'' [''Simd'']))
         (Case 19 (CHR ''u'')
           (Return (KwOpcode ''i8x16.narrow_i16x8_u'' ''I8X16NarrowI16X8U'' [''Simd'']))
         Break))
       (Case 10 (CHR ''s'')
         (Return (KwOpcode ''i8x16.shr_s'' ''I8X16ShrS'' [''Simd'']))
       (Case 10 (CHR ''u'')
         (Return (KwOpcode ''i8x16.shr_u'' ''I8X16ShrU'' [''Simd'']))
       Break)))
     (Case 8 (CHR ''t'')
       (Case 19 (CHR ''s'')
         (Return (KwTokenOpcode ''i8x16.extract_lane_s'' ''SimdLaneInstr'' ''I8X16ExtractLaneS'' [''Simd'']))
       (Case 19 (CHR ''u'')
         (Return (KwTokenOpcode ''i8x16.extract_lane_u'' ''SimdLaneInstr'' ''I8X16ExtractLaneU'' [''Simd'']))
       Break))
     (Case 8 (CHR ''u'')
       (Return (KwTokenOpcode ''v8x16.shuffle'' ''SimdShuffleInstr'' ''V8X16Shuffle'' [''Simd'']))
     (Case 8 (CHR ''x'')
       (Case 10 (CHR ''s'')
         (Return (KwOpcode ''i8x16.max_s'' ''I8X16MaxS'' [''Simd'']))
       (Case 10 (CHR ''u'')
         (Return (KwOpcode ''i8x16.max_u'' ''I8X16MaxU'' [''Simd'']))
       Break))
     (Case 8 (CHR ''y'')
       (Return (KwOpcode ''i8x16.any_true'' ''I8X16AnyTrue'' [''Simd'']))
     (Case 7 (CHR ''e'')
       (Return (KwOpcode ''i8x16.ne'' ''I8X16Ne'' [''Simd'']))
     (Case 7 (CHR ''q'')
       (Return (KwOpcode ''i8x16.eq'' ''I8X16Eq'' [''Simd'']))
     Break))))))))))))))))"

definition keywords_inl_23 :: Keywords where
  "keywords_inl_23 =
     (Case 5 (CHR ''.'')
       keywords_inl_24
     (Return (KwToken ''i8x16'' ''I8X16'')))"

definition keywords_inl :: Keywords where
  "keywords_inl =
     (Case 2 (CHR ''2'')
       keywords_inl_1
     (Case 2 (CHR ''4'')
       keywords_inl_12
     (Case 2 (CHR ''6'')
       keywords_inl_21
     (Case 2 (CHR ''_'')
       (Case 5 (CHR ''_'')
         (Return (KwTokenOpcode ''br_on_exn'' ''BrOnExnInstr'' ''BrOnExn'' [''Exceptions'']))
       (Case 5 (CHR ''b'')
         (Return (KwTokenOpcode ''br_table'' ''BrTableInstr'' ''BrTable'' []))
       (Return (KwTokenOpcode ''br_if'' ''VarInstr'' ''BrIf'' []))))
     (Case 2 (CHR ''a'')
       (Case 5 (CHR ''d'')
         (Return (KwToken ''shared'' ''Shared''))
       (Return (KwToken ''start'' ''Start'')))
     (Case 2 (CHR ''b'')
       (Case 5 (CHR ''.'')
         (Case 9 (CHR ''e'')
           (Return (KwTokenOpcode ''table.size'' ''VarInstr'' ''TableSize'' [''ReferenceTypes'']))
         (Case 9 (CHR ''l'')
           (Return (KwTokenOpcode ''table.fill'' ''VarInstr'' ''TableFill'' [''ReferenceTypes'']))
         (Case 9 (CHR ''t'')
           (Return (KwTokenOpcode ''table.init'' ''TableInitInstr'' ''TableInit'' [''BulkMemory'']))
         (Case 9 (CHR ''w'')
           (Return (KwTokenOpcode ''table.grow'' ''VarInstr'' ''TableGrow'' [''ReferenceTypes'']))
         (Case 9 (CHR ''y'')
           (Return (KwTokenOpcode ''table.copy'' ''TableCopyInstr'' ''TableCopy'' [''BulkMemory'']))
         (Case 6 (CHR ''g'')
           (Return (KwTokenOpcode ''table.get'' ''VarInstr'' ''TableGet'' [''ReferenceTypes'']))
         (Case 6 (CHR ''s'')
           (Return (KwTokenOpcode ''table.set'' ''VarInstr'' ''TableSet'' [''ReferenceTypes'']))
         Break)))))))
       (Return (KwToken ''table'' ''Table'')))
     (Case 2 (CHR ''c'')
       (Case 5 (CHR ''.'')
         (Case 6 (CHR ''g'')
           (Return (KwTokenOpcode ''local.get'' ''VarInstr'' ''LocalGet'' []))
         (Case 6 (CHR ''s'')
           (Return (KwTokenOpcode ''local.set'' ''VarInstr'' ''LocalSet'' []))
         (Case 6 (CHR ''t'')
           (Return (KwTokenOpcode ''local.tee'' ''VarInstr'' ''LocalTee'' []))
         Break)))
       (Case 5 (CHR ''r'')
         (Return (KwToken ''declare'' ''Declare''))
       (Return (KwToken ''local'' ''Local''))))
     (Case 2 (CHR ''d'')
       (Case 3 (CHR ''u'')
         (Return (KwToken ''module'' ''Module''))
       (Return (KwTokenOpcode ''end'' ''End'' ''End'' [])))
     (Case 2 (CHR ''e'')
       (Case 1 (CHR ''e'')
         (Return (KwTokenOpcode ''tee_local'' ''VarInstr'' ''LocalTee'' []))
       (Case 1 (CHR ''h'')
         (Return (KwToken ''then'' ''Then''))
       (Case 1 (CHR ''l'')
         (Case 4 (CHR ''.'')
           (Return (KwTokenOpcode ''elem.drop'' ''VarInstr'' ''ElemDrop'' [''BulkMemory'']))
         (Return (KwToken ''elem'' ''Elem'')))
       (Case 1 (CHR ''t'')
         (Return (KwToken ''item'' ''Item''))
       (Case 1 (CHR ''v'')
         (Return (KwToken ''event'' ''Event''))
       Break)))))
     (Case 2 (CHR ''f'')
       (Case 3 (CHR ''.'')
         (Case 7 (CHR ''c'')
           (Return (KwTokenOpcode ''ref.func'' ''RefFuncInstr'' ''RefFunc'' [''ReferenceTypes'']))
         (Case 7 (CHR ''l'')
           (Return (KwTokenOpcode ''ref.null'' ''RefNullInstr'' ''RefNull'' [''ReferenceTypes'']))
         (Case 7 (CHR ''n'')
           (Return (KwOpcode ''ref.is_null'' ''RefIsNull'' [''ReferenceTypes'']))
         (Case 7 (CHR ''t'')
           (Return (KwToken ''ref.host'' ''RefHost''))
         (Return (KwToken ''ref.any'' ''RefAny''))))))
       (Case 3 (CHR ''s'')
         (Case 6 (CHR ''='')
           (Return (KwNameEqNum ''offset='' ''OffsetEqNat''))
         (Return (KwToken ''offset'' ''Offset'')))
       (Return (KwLiteralKind ''inf'' ''Float'' ''Infinity''))))
     (Case 2 (CHR ''g'')
       (Return (KwToken ''register'' ''Register''))
     (Case 2 (CHR ''i'')
       (Return (KwNameEqNum ''align='' ''AlignEqNat''))
     (Case 2 (CHR ''l'')
       (Case 4 (CHR ''_'')
         (Return (KwTokenOpcode ''call_indirect'' ''CallIndirectInstr'' ''CallIndirect'' []))
       (Case 4 (CHR ''c'')
         (Return (KwTokenOpcode ''select'' ''SelectInstr'' ''Select'' []))
       (Case 4 (CHR ''r'')
         (Return (KwValueType ''nullref'' ''Nullref''))
       (Return (KwTokenOpcode ''call'' ''VarInstr'' ''Call'' [])))))
     (Case 2 (CHR ''m'')
       (Case 6 (CHR ''.'')
         (Case 10 (CHR ''e'')
           (Return (KwOpcode ''memory.size'' ''MemorySize'' []))
         (Case 10 (CHR ''l'')
           (Return (KwOpcode ''memory.fill'' ''MemoryFill'' [''BulkMemory'']))
         (Case 10 (CHR ''t'')
           (Return (KwTokenOpcode ''memory.init'' ''VarInstr'' ''MemoryInit'' [''BulkMemory'']))
         (Case 10 (CHR ''w'')
           (Return (KwOpcode ''memory.grow'' ''MemoryGrow'' []))
         (Case 10 (CHR ''y'')
           (Return (KwOpcode ''memory.copy'' ''MemoryCopy'' [''BulkMemory'']))
         Break)))))
       (Return (KwToken ''memory'' ''Memory'')))
     (Case 2 (CHR ''n'')
       (Case 3 (CHR '':'')
         (Case 6 (CHR ''i'')
           (Return (KwToken ''nan:arithmetic'' ''NanArithmetic''))
         (Case 6 (CHR ''n'')
           (Return (KwToken ''nan:canonical'' ''NanCanonical''))
         (Return KwLexNan)))
       (Case 3 (CHR ''a'')
         (Return (KwToken ''binary'' ''Binary''))
       (Case 3 (CHR ''c'')
         (Case 4 (CHR ''r'')
           (Return (KwValueType ''funcref'' ''Funcref''))
         (Return (KwToken ''func'' ''Func'')))
       (Case 3 (CHR ''r'')
         (Return (KwValueType ''exnref'' ''Exnref''))
       (Return (KwLiteralKind ''nan'' ''Float'' ''Nan''))))))
     (Case 2 (CHR ''o'')
       (Case 4 (CHR ''_'')
         (Return (KwOpcode ''grow_memory'' ''MemoryGrow'' []))
       (Case 4 (CHR ''a'')
         (Case 6 (CHR ''.'')
           (Case 7 (CHR ''g'')
             (Return (KwTokenOpcode ''global.get'' ''VarInstr'' ''GlobalGet'' []))
           (Case 7 (CHR ''s'')
             (Return (KwTokenOpcode ''global.set'' ''VarInstr'' ''GlobalSet'' []))
           Break))
         (Return (KwToken ''global'' ''Global'')))
       (Case 4 (CHR ''e'')
         (Return (KwToken ''quote'' ''Quote''))
       (Case 4 (CHR ''i'')
         (Return (KwTokenOpcode ''atomic.notify'' ''MemoryInstr'' ''AtomicNotify'' [''Threads'']))
       (Case 4 (CHR ''k'')
         (Return (KwTokenOpcode ''block'' ''BlockInstr'' ''Block'' []))
       (Case 1 (CHR ''o'')
         (Return (KwTokenOpcode ''loop'' ''BlockInstr'' ''Loop'' []))
       (Case 1 (CHR ''r'')
         (Return (KwOpcode ''drop'' ''Drop'' []))
       Break)))))))
     (Case 2 (CHR ''p'')
       (Case 1 (CHR ''m'')
         (Return (KwToken ''import'' ''Import''))
       (Case 1 (CHR ''o'')
         (Return (KwOpcode ''nop'' ''Nop'' []))
       (Case 1 (CHR ''x'')
         (Return (KwToken ''export'' ''Export''))
       (Case 1 (CHR ''y'')
         (Return (KwToken ''type'' ''Type''))
       Break))))
     (Case 2 (CHR ''r'')
       (Case 4 (CHR ''a'')
         (Return (KwOpcode ''unreachable'' ''Unreachable'' []))
       (Case 4 (CHR ''e'')
         (Return (KwOpcode ''current_memory'' ''MemorySize'' []))
       (Case 4 (CHR ''m'')
         (Return (KwToken ''param'' ''Param''))
       (Case 4 (CHR ''w'')
         (Return (KwTokenOpcode ''throw'' ''VarInstr'' ''Throw'' [''Exceptions'']))
       Break))))
     (Case 2 (CHR ''s'')
       (Case 4 (CHR ''l'')
         (Return (KwToken ''result'' ''Result''))
       (Case 4 (CHR ''r'')
         (Case 11 (CHR ''l'')
           (Return (KwToken ''assert_invalid'' ''AssertInvalid''))
         (Case 11 (CHR ''n'')
           (Return (KwToken ''assert_unlinkable'' ''AssertUnlinkable''))
         (Case 11 (CHR ''o'')
           (Return (KwToken ''assert_malformed'' ''AssertMalformed''))
         (Case 11 (CHR ''r'')
           (Return (KwToken ''assert_return'' ''AssertReturn''))
         (Case 11 (CHR ''u'')
           (Return (KwToken ''assert_exhaustion'' ''AssertExhaustion''))
         (Return (KwToken ''assert_trap'' ''AssertTrap'')))))))
       (Return (KwTokenOpcode ''else'' ''Else'' ''Else'' []))))
     (Case 2 (CHR ''t'')
       (Case 3 (CHR ''_'')
         (Case 9 (CHR ''l'')
           (Case 0 (CHR ''g'')
             (Return (KwTokenOpcode ''get_global'' ''VarInstr'' ''GlobalGet'' []))
           (Case 0 (CHR ''s'')
             (Return (KwTokenOpcode ''set_global'' ''VarInstr'' ''GlobalSet'' []))
           Break))
         (Case 0 (CHR ''g'')
           (Return (KwTokenOpcode ''get_local'' ''VarInstr'' ''LocalGet'' []))
         (Case 0 (CHR ''s'')
           (Return (KwTokenOpcode ''set_local'' ''VarInstr'' ''LocalSet'' []))
         Break)))
       (Case 3 (CHR ''a'')
         (Case 4 (CHR ''.'')
           (Return (KwTokenOpcode ''data.drop'' ''VarInstr'' ''DataDrop'' [''BulkMemory'']))
         (Return (KwToken ''data'' ''Data'')))
       (Case 3 (CHR ''c'')
         (Return (KwTokenOpcode ''catch'' ''Catch'' ''Catch'' []))
       (Case 3 (CHR ''h'')
         (Return (KwOpcode ''rethrow'' ''Rethrow'' [''Exceptions'']))
       (Case 3 (CHR ''u'')
         (Case 6 (CHR ''_'')
           (Case 11 (CHR ''_'')
             (Return (KwTokenOpcode ''return_call_indirect'' ''CallIndirectInstr'' ''ReturnCallIndirect'' [''TailCall'']))
           (Return (KwTokenOpcode ''return_call'' ''VarInstr'' ''ReturnCall'' [''TailCall''])))
         (Return (KwOpcode ''return'' ''Return'' [])))
       (Case 1 (CHR ''e'')
         (Return (KwToken ''get'' ''Get''))
       (Case 1 (CHR ''u'')
         (Return (KwToken ''mut'' ''Mut''))
       Break)))))))
     (Case 2 (CHR ''v'')
       (Return (KwToken ''invoke'' ''Invoke''))
     (Case 2 (CHR ''x'')
       keywords_inl_23
     (Case 2 (CHR ''y'')
       (Case 3 (CHR ''f'')
         (Return (KwValueType ''anyfunc'' ''Funcref''))
       (Case 3 (CHR ''r'')
         (Return (KwValueType ''anyref'' ''Anyref''))
       (Return (KwTokenOpcode ''try'' ''BlockInstr'' ''Try'' [''Exceptions'']))))
     (Case 1 (CHR ''f'')
       (Return (KwTokenOpcode ''if'' ''BlockInstr'' ''If'' []))
     (Case 1 (CHR ''r'')
       (Return (KwTokenOpcode ''br'' ''VarInstr'' ''Br'' []))
     Break)))))))))))))))))))))))))"


subsection \<open>Lex\<close>

definition Lex_sign :: "string \<Rightarrow> Token \<times> string" where
  "Lex_sign data =
     (let c = PeekChar data 1
      in if c = of_char (CHR ''i'') then LexInf data
         else if c = of_char (CHR ''n'') then LexNan data
         else if c = of_char (CHR ''0'') then
           (case MatchString (SkipChar data) ''0x'' of
              (True, data') \<Rightarrow> LexHexNumber data ''Int''
            | (False, data') \<Rightarrow> LexNumber data ''Int'')
         else if c \<in> set (map of_char ''123456789'') then LexNumber data ''Int''
         else LexReserved data)"

definition Lex :: "string \<Rightarrow> Token \<times> string" where
  "Lex data =
     (let c = PeekChar data 0
      in if c = - 1 then (Token data ''Eof'' monostate, data)
         else if c = of_char (CHR ''('') then
           (case MatchString data ''(;'' of
              (True, data1) \<Rightarrow> LexBlockComment data
            | (False, data1) \<Rightarrow>
                (case MatchString data1 ''(@'' of
                   (True, data2) \<Rightarrow> LexAnnotation data
                 | (False, data2) \<Rightarrow>
                     (let data3 = SkipChar data2
                      in (Token (guard_loc data data3) ''Lpar'' monostate, data3))))
         else if c = of_char (CHR '')'') then
           (let data1 = SkipChar data
            in (Token (guard_loc data data1) ''Rpar'' monostate, data1))
         else if c = of_char (CHR '';'') then
           (case MatchString data '';;'' of
              (True, data1) \<Rightarrow> LexLineComment data
            | (False, data1) \<Rightarrow>
                (let data2 = SkipChar data1
                 in (Token (guard_loc data data2) ''InvalidChar'' monostate, data2)))
         else if c = of_char (CHR '' '') \<or> c = of_char (CHR 0x09) \<or>
                 c = of_char (CHR 0x0D) \<or> c = of_char (CHR 0x0A) then
           LexWhitespace data
         else if c = of_char (CHR 0x22) then LexText data
         else if c = of_char (CHR ''+'') \<or> c = of_char (CHR ''-'') then Lex_sign data
         else if c = of_char (CHR ''0'') then
           (case MatchString data ''0x'' of
              (True, data1) \<Rightarrow> LexHexNumber data ''Nat''
            | (False, data1) \<Rightarrow> LexNumber data1 ''Nat'')
         else if c \<in> set (map of_char ''123456789'') then LexNumber data ''Nat''
         else if c = of_char (CHR ''$'') then LexId data
         else
           (case switch keywords_inl data of
              Some result \<Rightarrow> result
            | None \<Rightarrow>
                if IsReserved (PeekChar data 0) then LexReserved data
                else
                  (let data1 = SkipChar data
                   in (Token (guard_loc data data1) ''InvalidChar'' monostate, data1))))"

subsection \<open>Notions used to state the properties of the lexer\<close>

text \<open>The recursive equations of the loops are unfolded by hand in the proofs.\<close>

declare ReadReservedChars.simps [simp del] MatchNum_loop.simps [simp del]
  MatchHexNum_loop.simps [simp del] LexReserved_loop.simps [simp del]
  LexBlockComment_loop.simps [simp del] LexLineComment_loop.simps [simp del]
  LexText_loop.simps [simp del] LexWhitespace_loop.simps [simp del]

text \<open>
  \<open>underscores_ok digit prev text\<close>: every underscore of \<open>text\<close> stands between two
  characters of the class \<open>digit\<close>, where \<open>prev\<close> is the character before the text
  (\<open>- 1\<close> when there is none) and nothing follows the text.
\<close>

fun underscores_ok :: "(int \<Rightarrow> bool) \<Rightarrow> int \<Rightarrow> string \<Rightarrow> bool" where
  "underscores_ok digit prev [] = True"
| "underscores_ok digit prev (c # cs) =
     ((c = CHR ''_'' \<longrightarrow> digit prev \<and> digit (PeekChar cs 0)) \<and>
      underscores_ok digit (of_char c) cs)"

text \<open>From \<open>data\<close> to \<open>data'\<close> the lexer has read a piece of text with that property.\<close>

definition seg_ok :: "(int \<Rightarrow> bool) \<Rightarrow> string \<Rightarrow> string \<Rightarrow> bool" where
  "seg_ok digit data data' = (\<exists>seg. data = seg @ data' \<and> underscores_ok digit (- 1) seg)"

text \<open>
  The Invalid token types and the types of number tokens.  A number token is a hex literal
  when it was built by \<open>HexNat\<close>, \<open>HexNumber\<close> or \<open>NanPayload\<close>; the digits around an
  underscore are then hex digits, and decimal digits otherwise.
\<close>

definition Invalid_types :: "TokenType list" where
  "Invalid_types = [''InvalidChar'', ''InvalidText'', ''InvalidLineComment'', ''InvalidBlockComment'']"

definition Numeric_types :: "TokenType list" where
  "Numeric_types = [''Nat'', ''Int'', ''Float'']"

fun is_hex_literal :: "TokenImmediate \<Rightarrow> bool" where
  "is_hex_literal (LiteralInfo_immediate (LiteralInfo_HexNat hu)) = True"
| "is_hex_literal (LiteralInfo_immediate (LiteralInfo_HexNumber s hu)) = True"
| "is_hex_literal (LiteralInfo_immediate (LiteralInfo_NanPayload s hu)) = True"
| "is_hex_literal imm = False"

definition digit_class :: "Token \<Rightarrow> int \<Rightarrow> bool" where
  "digit_class tok = (if is_hex_literal (immediate tok) then IsHexDigit else IsDigit)"

definition numeric_ok :: "string \<Rightarrow> Token \<Rightarrow> string \<Rightarrow> bool" where
  "numeric_ok data tok data' =
     (data = loc tok @ data' \<and> \<not> IsReserved (PeekChar data' 0) \<and>
      underscores_ok (digit_class tok) (- 1) (loc tok))"

text \<open>
  What holds of the token and the span that a call of the lexer on \<open>data\<close> returns: the
  span is what is left of \<open>data\<close>; an Invalid token has consumed at least one byte; a
  number token covers the input up to a character that is not reserved, and its
  underscores are in order.
\<close>

definition lexed_ok :: "string \<Rightarrow> Token \<times> string \<Rightarrow> bool" where
  "lexed_ok data r =
     (suffix (snd r) data \<and>
      (type (fst r) \<in> set Invalid_types \<longrightarrow> length (snd r) < length data) \<and>
      (type (fst r) \<in> set Numeric_types \<longrightarrow> numeric_ok data (fst r) (snd r)))"

text \<open>The calls at the leaves of the keyword switch, and what is checked of each of them:
  the token type it passes is no Invalid type, and where it is a number type the keyword
  has no underscore.\<close>

fun calls :: "Keywords \<Rightarrow> KeywordCall list" where
  "calls (Return k) = [k]"
| "calls Break = []"
| "calls (Case n c t rest) = calls t @ calls rest"

fun plain_type :: "TokenType \<Rightarrow> bool" where
  "plain_type tt = (tt \<notin> set Invalid_types \<and> tt \<notin> set Numeric_types)"

fun call_ok :: "KeywordCall \<Rightarrow> bool" where
  "call_ok (KwToken sv tt) = plain_type tt"
| "call_ok (KwOpcode sv o' f) = True"
| "call_ok (KwTokenOpcode sv tt o' f) = plain_type tt"
| "call_ok (KwValueType sv vt) = True"
| "call_ok (KwReferenceType sv tt rt) = plain_type tt"
| "call_ok (KwLiteralKind sv tt lk) = (tt \<notin> set Invalid_types \<and> CHR ''_'' \<notin> set sv)"
| "call_ok (KwNameEqNum sv tt) = plain_type tt"
| "call_ok KwLexNan = True"


section \<open>Properties of the binary reader\<close>

subsection \<open>The last byte of a varint\<close>

lemma kMask_eq: "kMask T s = NOT (mask (kMaskBits T s))"
  by (simp add: kMask_def mask_eq_exp_minus_1)

lemma used_bounds:
  "1 \<le> kUsedBitsInLastByte TYPE('a::len)" "kUsedBitsInLastByte TYPE('a::len) \<le> 7"
proof -
  have "0 < LENGTH('a)" by simp
  then show "1 \<le> kUsedBitsInLastByte TYPE('a::len)" "kUsedBitsInLastByte TYPE('a::len) \<le> 7"
    unfolding kUsedBitsInLastByte_def kMaxBytes_def by presburger+
qed

lemma and_not_mask_zero_iff:
  "(byte AND NOT (mask m) = 0) \<longleftrightarrow> (\<forall>n. m \<le> n \<and> n < 8 \<longrightarrow> \<not> bit byte n)" for byte :: u8
proof -
  have "(byte AND NOT (mask m) = 0) \<longleftrightarrow> (\<forall>n. n < 8 \<longrightarrow> \<not> (bit byte n \<and> m \<le> n))"
    by (simp add: bit_eq_iff bit_simps not_less)
  then show ?thesis by blast
qed

lemma and_not_mask_ones_iff:
  fixes byte :: u8
  assumes m: "m \<le> 7"
  shows "(byte AND NOT (mask m) = NOT (mask m) AND 0x7f) \<longleftrightarrow>
     (\<not> bit byte 7 \<and> (\<forall>n. m \<le> n \<and> n < 7 \<longrightarrow> bit byte n))"
proof -
  have e: "(0x7f :: u8) = mask 7" by (simp add: mask_eq_exp_minus_1)
  have "(byte AND NOT (mask m) = NOT (mask m) AND mask 7) \<longleftrightarrow>
        (\<forall>n. n < 8 \<longrightarrow> ((bit byte n \<and> m \<le> n) \<longleftrightarrow> (m \<le> n \<and> n < 7)))"
    by (auto simp: bit_eq_iff bit_simps not_less)
  also have "\<dots> \<longleftrightarrow> (\<not> bit byte 7 \<and> (\<forall>n. m \<le> n \<and> n < 7 \<longrightarrow> bit byte n))"
  proof
    assume h: "\<forall>n. n < 8 \<longrightarrow> ((bit byte n \<and> m \<le> n) \<longleftrightarrow> (m \<le> n \<and> n < 7))"
    have "\<not> bit byte 7" using h[rule_format, of 7] m by simp
    moreover have "\<forall>n. m \<le> n \<and> n < 7 \<longrightarrow> bit byte n"
    proof (intro allI impI)
      fix n assume "m \<le> n \<and> n < 7"
      then show "bit byte n" using h[rule_format, of n] by simp
    qed
    ultimately show "\<not> bit byte 7 \<and> (\<forall>n. m \<le> n \<and> n < 7 \<longrightarrow> bit byte n)" by blast
  next
    assume h: "\<not> bit byte 7 \<and> (\<forall>n. m \<le> n \<and> n < 7 \<longrightarrow> bit byte n)"
    show "\<forall>n. n < 8 \<longrightarrow> ((bit byte n \<and> m \<le> n) \<longleftrightarrow> (m \<le> n \<and> n < 7))"
    proof (intro allI impI)
      fix n :: nat assume n: "n < 8"
      show "(bit byte n \<and> m \<le> n) \<longleftrightarrow> (m \<le> n \<and> n < 7)"
      proof (cases "n = 7")
        case True
        then show ?thesis using h by simp
      next
        case False
        then have "n < 7" using n by simp
        then show ?thesis using h by auto
      qed
    qed
  qed
  finally show ?thesis unfolding e .
qed

lemma loop_prefix:
  "\<forall>b\<in>set pre. bit b 7 \<Longrightarrow> i + length pre < kMaxBytes TYPE('a) \<Longrightarrow>
   (ReadVarInt_loop s desc i acc (pre @ rest) :: 'a::len word Result) =
     ReadVarInt_loop s desc (i + length pre) (accumulate i acc pre) rest"
proof (induction pre arbitrary: i acc)
  case Nil
  then show ?case by simp
next
  case (Cons b pre)
  have b7: "b AND 0x80 \<noteq> 0"
    using Cons.prems(1) by (auto simp: bit_eq_iff bit_simps intro!: exI[of _ 7])
  have ne: "i + 1 \<noteq> kMaxBytes TYPE('a)" using Cons.prems(2) by simp
  have "(ReadVarInt_loop s desc i acc ((b # pre) @ rest) :: 'a word Result) =
        ReadVarInt_loop s desc (i + 1) (acc OR push_bit (i * 7) (ucast (b AND 0x7f))) (pre @ rest)"
    using b7 ne by (subst ReadVarInt_loop.simps) (simp add: Read_u8_def Let_def)
  also have "\<dots> = ReadVarInt_loop s desc (i + 1 + length pre)
        (accumulate (i + 1) (acc OR push_bit (i * 7) (ucast (b AND 0x7f))) pre) rest"
    using Cons.prems by (intro Cons.IH) auto
  finally show ?case by simp
qed

lemma last_byte_ok_iff:
  "last_byte_ok TYPE('a::len) s byte \<longleftrightarrow>
     (byte AND kMask TYPE('a) s = 0 \<or> (s \<and> byte AND kMask TYPE('a) s = kOnes TYPE('a) s))"
proof -
  define used where "used = kUsedBitsInLastByte TYPE('a)"
  have u: "1 \<le> used" "used \<le> 7" using used_bounds[where 'a='a] by (simp_all add: used_def)
  have used_eq: "LENGTH('a) - 7 * ((LENGTH('a) + 6) div 7 - Suc 0) = used"
    by (simp add: used_def kUsedBitsInLastByte_def kMaxBytes_def)
  show ?thesis
  proof (cases s)
    case False
    then show ?thesis
      by (simp add: last_byte_ok_def used_eq kMask_eq kOnes_def kMaskBits_def
          and_not_mask_zero_iff used_def[symmetric])
  next
    case True
    have m7: "used - 1 \<le> 7" using u by simp
    have "(\<not> bit byte 7 \<and> (\<forall>n. used \<le> n \<and> n < 7 \<longrightarrow> bit byte n = bit byte (used - 1))) \<longleftrightarrow>
          ((\<forall>n. used - 1 \<le> n \<and> n < 8 \<longrightarrow> \<not> bit byte n) \<or>
           (\<not> bit byte 7 \<and> (\<forall>n. used - 1 \<le> n \<and> n < 7 \<longrightarrow> bit byte n)))"
      (is "?L \<longleftrightarrow> ?A \<or> ?B")
    proof
      assume L: ?L
      show "?A \<or> ?B"
      proof (cases "bit byte (used - 1)")
        case True
        have "?B"
        proof (intro conjI allI impI)
          show "\<not> bit byte 7" using L by simp
        next
          fix n assume n: "used - 1 \<le> n \<and> n < 7"
          show "bit byte n"
          proof (cases "n = used - 1")
            case True then show ?thesis using \<open>bit byte (used - 1)\<close> by simp
          next
            case False
            then have "used \<le> n" using n u by arith
            then show ?thesis using L n \<open>bit byte (used - 1)\<close> by simp
          qed
        qed
        then show ?thesis ..
      next
        case False
        have "?A"
        proof (intro allI impI)
          fix n assume n: "used - 1 \<le> n \<and> n < 8"
          show "\<not> bit byte n"
          proof (cases "n = used - 1")
            case True then show ?thesis using False by simp
          next
            case nu: False
            show ?thesis
            proof (cases "n = 7")
              case True then show ?thesis using L by simp
            next
              case n7: False
              then have "used \<le> n \<and> n < 7" using n nu u by arith
              then show ?thesis using L False by simp
            qed
          qed
        qed
        then show ?thesis ..
      qed
    next
      assume AB: "?A \<or> ?B"
      have lt: "used - 1 < 7" using u by simp
      from AB show ?L
      proof
        assume A: ?A
        have "\<not> bit byte 7" using A lt by simp
        moreover have "\<not> bit byte (used - 1)" using A lt by simp
        moreover have "\<forall>n. used \<le> n \<and> n < 7 \<longrightarrow> \<not> bit byte n"
        proof (intro allI impI)
          fix n assume "used \<le> n \<and> n < 7"
          then have "used - 1 \<le> n \<and> n < 8" by arith
          then show "\<not> bit byte n" using A by blast
        qed
        ultimately show ?L by simp
      next
        assume B: ?B
        have "bit byte (used - 1)" using B lt by simp
        moreover have "\<forall>n. used \<le> n \<and> n < 7 \<longrightarrow> bit byte n"
        proof (intro allI impI)
          fix n assume "used \<le> n \<and> n < 7"
          then have "used - 1 \<le> n \<and> n < 7" by arith
          then show "bit byte n" using B by blast
        qed
        ultimately show ?L using B by simp
      qed
    qed
    then show ?thesis
      using True m7
      by (simp add: last_byte_ok_def used_eq kMask_eq kOnes_def kMaskBits_def
          and_not_mask_zero_iff and_not_mask_ones_iff used_def[symmetric])
  qed
qed

lemma loop_last:
  "i + 1 = kMaxBytes TYPE('a) \<Longrightarrow>
   (ReadVarInt_loop s desc i acc (byte # rest) :: 'a::len word Result) =
     (if last_byte_ok TYPE('a) s byte
      then (Some (acc OR push_bit (i * 7) (ucast (byte AND 0x7f))), rest, [])
      else (None, rest,
        [if s then LastByteSignExtension desc (byte AND NOT (kMask TYPE('a) s) AND 0x7f)
                     ((byte OR kOnes TYPE('a) s) AND 0x7f) byte
         else LastByteZeroExtension desc (byte AND NOT (kMask TYPE('a) s) AND 0x7f) byte]))"
  by (subst ReadVarInt_loop.simps) (simp add: Read_u8_def Let_def last_byte_ok_iff)

text \<open>
  Claim C1.  Let \<open>K\<close> be \<open>kMaxBytes\<close>, the largest number of bytes of a varint of the
  width of \<open>'a\<close> (five for 32 bits, ten for 64), and let \<open>K - 1\<close> bytes with the
  continuation bit set have been read.  Then the read succeeds exactly when the next
  byte passes \<open>last_byte_ok\<close>: for an unsigned target its bits above the value bits are
  all clear, for a signed target they repeat the highest value bit and the continuation
  bit is clear.  Otherwise the read reports one error and returns no value.  A set
  continuation bit on this byte makes the read fail in either case.  This holds for
  every width and so for 32 and 64 bits.
\<close>

theorem ReadVarInt_last_byte:
  fixes pre :: SpanU8
  assumes "length pre = kMaxBytes TYPE('a::len) - 1" and "\<forall>b\<in>set pre. bit b 7"
  shows "(if last_byte_ok TYPE('a) is_signed byte
          then \<exists>v. (ReadVarInt is_signed (pre @ byte # rest) desc :: 'a word Result) = (Some v, rest, [])
          else \<exists>e. (ReadVarInt is_signed (pre @ byte # rest) desc :: 'a word Result) = (None, rest, [e]))
         \<and> (bit byte 7 \<longrightarrow> fst (ReadVarInt is_signed (pre @ byte # rest) desc :: 'a word Result) = None)"
proof -
  have "0 < LENGTH('a)" by simp
  then have K: "0 < kMaxBytes TYPE('a)" unfolding kMaxBytes_def by presburger
  have lt: "0 + length pre < kMaxBytes TYPE('a)" using assms(1) K by simp
  have last: "0 + length pre + 1 = kMaxBytes TYPE('a)" using assms(1) K by simp
  have eq: "(ReadVarInt is_signed (pre @ byte # rest) desc :: 'a word Result) =
        ReadVarInt_loop is_signed desc (0 + length pre) (accumulate 0 0 pre) (byte # rest)"
    unfolding ReadVarInt_def using loop_prefix[OF assms(2) lt] by simp
  have nb: "bit byte 7 \<Longrightarrow> \<not> last_byte_ok TYPE('a) is_signed byte"
    using used_bounds[where 'a='a]
    by (auto simp: last_byte_ok_def kUsedBitsInLastByte_def kMaxBytes_def Let_def)
  show ?thesis
    unfolding eq loop_last[OF last] using nb by auto
qed

theorem ReadVarInt_last_byte_witness:
  "length [0x85, 0x80, 0x80, 0x80 :: u8] = kMaxBytes TYPE(32) - 1 \<and>
   list_all (\<lambda>b. bit b 7) [0x85, 0x80, 0x80, 0x80 :: u8] \<and>
   \<not> last_byte_ok TYPE(32) False 0x10 \<and>
   (\<exists>e. (ReadVarInt False ([0x85, 0x80, 0x80, 0x80] @ 0x10 # []) ''vu32'' :: 32 word Result) = (None, [], [e]))"
proof -
  have a: "length [0x85, 0x80, 0x80, 0x80 :: u8] = kMaxBytes TYPE(32) - 1"
    by (simp add: kMaxBytes_def)
  have b: "\<forall>b\<in>set [0x85, 0x80, 0x80, 0x80 :: u8]. bit b 7" by simp
  have c: "\<not> last_byte_ok TYPE(32) False 0x10"
    by (simp add: last_byte_ok_def) (rule exI[of _ 4], simp)
  show ?thesis
    using ReadVarInt_last_byte[where 'a=32, OF a b, of False "0x10" "[]" "''vu32''"] a b c
    by simp
qed

subsection \<open>The value of a varint\<close>

lemma x7f_mask: "(0x7f :: u8) = mask 7"
  by (simp add: mask_eq_exp_minus_1)

lemma low7_or_push:
  "(ucast (b AND (0x7f :: u8)) :: 'a::len word) OR push_bit 7 (word_of_nat L) =
     word_of_nat (unat (b AND 0x7f) + 128 * L)"
proof -
  have disj: "(ucast (b AND (0x7f :: u8)) :: 'a word) AND push_bit 7 (word_of_nat L) = 0"
    unfolding x7f_mask by (auto simp: bit_eq_iff bit_simps)
  have "(word_of_nat (unat (b AND 0x7f) + 128 * L) :: 'a word) =
        ucast (b AND 0x7f) + push_bit 7 (word_of_nat L)"
    by (simp add: push_bit_eq_mult)
  also have "\<dots> = ucast (b AND 0x7f) OR push_bit 7 (word_of_nat L)"
    by (rule disjunctive_add_eq_or[OF disj])
  finally show ?thesis by simp
qed

lemma accumulate_payload:
  "accumulate i acc bs = acc OR push_bit (i * 7) (word_of_nat (leb_payload bs))"
proof (induction bs arbitrary: i acc)
  case Nil
  then show ?case by simp
next
  case (Cons b bs)
  have "accumulate i acc (b # bs) =
        (acc OR push_bit (i * 7) (ucast (b AND 0x7f))) OR
          push_bit ((i + 1) * 7) (word_of_nat (leb_payload bs))"
    by (simp add: Cons.IH)
  also have "\<dots> = acc OR push_bit (i * 7)
        (ucast (b AND 0x7f) OR push_bit 7 (word_of_nat (leb_payload bs)))"
    by (simp add: push_bit_or push_bit_push_bit or.assoc add.commute)
  finally show ?case by (simp add: low7_or_push)
qed

lemma SignExtend_signed_take_bit:
  assumes N: "N < LENGTH('a)"
  shows "SignExtend (x :: 'a::len word) N = signed_take_bit N x"
  unfolding SignExtend_def
proof (rule bit_word_eqI)
  fix n assume n: "n < LENGTH('a)"
  show "bit (signed_drop_bit (LENGTH('a) - N - 1) (push_bit (LENGTH('a) - N - 1) x)) n =
        bit (signed_take_bit N x) n"
  proof (cases "n \<le> N")
    case True
    then show ?thesis using n N by (auto simp: bit_simps min_def)
  next
    case False
    then show ?thesis using n N by (auto simp: bit_simps min_def)
  qed
qed

lemma accumulate_append:
  "accumulate i acc (xs @ ys) = accumulate (i + length xs) (accumulate i acc xs) ys"
  by (induction xs arbitrary: i acc) simp_all

lemma leb_payload_append:
  "leb_payload (xs @ ys) = leb_payload xs + 128 ^ length xs * leb_payload ys"
  by (induction xs) (simp_all add: algebra_simps)

lemma leb_payload_padding: "leb_payload (replicate k 0x80) = 0"
  by (induction k) simp_all

lemma bit_x80: "bit (0x80 :: u8) n \<longleftrightarrow> n = 7"
proof -
  have "bit (2 ^ 7 :: u8) n \<longleftrightarrow> n = 7"
    unfolding bit_exp_iff by (auto simp: possible_bit_word)
  moreover have "(2 ^ 7 :: u8) = 0x80" by simp
  ultimately show ?thesis by (simp only:)
qed

lemma or_x80_low7: "(b OR 0x80) AND 0x7f = b AND (0x7f :: u8)"
proof (rule bit_word_eqI)
  fix n assume "n < LENGTH(8)"
  show "bit ((b OR 0x80) AND 0x7f) n = bit (b AND 0x7f) n"
    unfolding x7f_mask by (simp only: bit_and_iff bit_or_iff bit_mask_iff bit_x80) auto
qed

lemma and_x80_zero_iff: "(b AND 0x80 = 0) \<longleftrightarrow> \<not> bit b 7" for b :: u8
proof -
  have "(b AND 0x80 = 0) \<longleftrightarrow> (\<forall>n. \<not> (bit b n \<and> bit (0x80 :: u8) n))"
    by (simp add: bit_eq_iff bit_and_iff)
  also have "\<dots> \<longleftrightarrow> \<not> bit b 7"
    by (simp only: bit_x80) auto
  finally show ?thesis .
qed

lemma accumulate_from_zero: "accumulate 0 0 bs = word_of_nat (leb_payload bs)"
  by (simp add: accumulate_payload)

lemma accumulate_snoc:
  "accumulate 0 0 pre OR push_bit (length pre * 7) (ucast (b AND 0x7f)) =
     (word_of_nat (leb_payload (pre @ [b])) :: 'a::len word)"
proof -
  have "accumulate 0 0 pre OR push_bit (length pre * 7) (ucast (b AND 0x7f)) =
        (accumulate 0 0 (pre @ [b]) :: 'a word)"
    by (simp add: accumulate_append)
  also have "\<dots> = word_of_nat (leb_payload (pre @ [b]))"
    by (rule accumulate_from_zero)
  finally show ?thesis .
qed

lemma ReadVarInt_short:
  assumes cont: "\<forall>x\<in>set pre. bit x 7" and short: "\<not> bit b 7"
    and len: "length pre + 1 < kMaxBytes TYPE('a::len)"
  shows "(ReadVarInt s (pre @ b # rest) desc :: 'a word Result) =
    (Some (if s then SignExtend (word_of_nat (leb_payload (pre @ [b]))) (6 + length pre * 7)
           else word_of_nat (leb_payload (pre @ [b]))), rest, [])"
proof -
  have lt: "0 + length pre < kMaxBytes TYPE('a)" using len by simp
  have ne: "length pre + 1 \<noteq> kMaxBytes TYPE('a)" using len by simp
  have eq: "(ReadVarInt s (pre @ b # rest) desc :: 'a word Result) =
        ReadVarInt_loop s desc (0 + length pre) (accumulate 0 0 pre) (b # rest)"
    unfolding ReadVarInt_def using loop_prefix[OF cont lt] by simp
  have acc: "accumulate 0 0 pre OR push_bit (length pre * 7) (ucast (b AND 0x7f)) =
        (word_of_nat (leb_payload (pre @ [b])) :: 'a word)"
    by (rule accumulate_snoc)
  show ?thesis
    unfolding eq using ne short acc
    by (subst ReadVarInt_loop.simps) (simp add: Read_u8_def Let_def and_x80_zero_iff)
qed

lemma ReadVarInt_full:
  assumes cont: "\<forall>x\<in>set pre. bit x 7" and ok: "last_byte_ok TYPE('a::len) s b"
    and len: "length pre + 1 = kMaxBytes TYPE('a)"
  shows "(ReadVarInt s (pre @ b # rest) desc :: 'a word Result) =
    (Some (word_of_nat (leb_payload (pre @ [b]))), rest, [])"
proof -
  have lt: "0 + length pre < kMaxBytes TYPE('a)" using len by simp
  have last: "0 + length pre + 1 = kMaxBytes TYPE('a)" using len by simp
  have eq: "(ReadVarInt s (pre @ b # rest) desc :: 'a word Result) =
        ReadVarInt_loop s desc (0 + length pre) (accumulate 0 0 pre) (b # rest)"
    unfolding ReadVarInt_def using loop_prefix[OF cont lt] by simp
  have acc: "accumulate 0 0 pre OR push_bit (length pre * 7) (ucast (b AND 0x7f)) =
        (word_of_nat (leb_payload (pre @ [b])) :: 'a word)"
    by (rule accumulate_snoc)
  show ?thesis
    unfolding eq loop_last[OF last] using ok acc by simp
qed

lemma signed_short_value:
  assumes N: "N < LENGTH('a::len)"
  shows "sint (SignExtend (word_of_nat P :: 'a word) N) = signed_take_bit N (int P)"
proof -
  have "SignExtend (word_of_nat P :: 'a word) N = signed_take_bit N (word_of_int (int P))"
    using SignExtend_signed_take_bit[OF N] by simp
  also have "\<dots> = word_of_int (signed_take_bit N (int P))"
    by (rule signed_take_bit_of_int)
  finally have "sint (SignExtend (word_of_nat P :: 'a word) N) =
      signed_take_bit (LENGTH('a) - 1) (signed_take_bit N (int P))"
    by (simp only: sint_sbintrunc')
  also have "\<dots> = signed_take_bit N (int P)"
  proof -
    have "min (LENGTH('a) - 1) N = N" using N by simp
    then show ?thesis by (simp only: signed_take_bit_signed_take_bit)
  qed
  finally show ?thesis .
qed

text \<open>
  Claim C6.  Let the bytes \<open>pre\<close> all have the continuation bit set, let \<open>b\<close> be the
  first byte without it, at position \<open>i = length pre\<close>, and let \<open>i + 1\<close> be less than
  the largest number of bytes (five for \<open>s32\<close>, ten for \<open>s64\<close>).  Then the signed read
  succeeds, leaves the bytes after \<open>b\<close>, and returns the \<open>7 * (i + 1)\<close> payload bits
  sign-extended from bit \<open>6 + 7 * i\<close>: read as a two's-complement number, the result is
  \<open>signed_take_bit (6 + 7 * i)\<close> of the payload.
\<close>

theorem ReadVarInt_signed_sign_extends:
  assumes "\<forall>x\<in>set pre. bit x 7" and "\<not> bit b 7"
  shows "(length pre + 1 < 5 \<longrightarrow>
           Read_s32 (pre @ b # rest) =
             (Some (SignExtend (word_of_nat (leb_payload (pre @ [b]))) (6 + 7 * length pre)), rest, []) \<and>
           sint (SignExtend (word_of_nat (leb_payload (pre @ [b])) :: u32) (6 + 7 * length pre)) =
             signed_take_bit (6 + 7 * length pre) (int (leb_payload (pre @ [b])))) \<and>
         (length pre + 1 < 10 \<longrightarrow>
           Read_s64 (pre @ b # rest) =
             (Some (SignExtend (word_of_nat (leb_payload (pre @ [b]))) (6 + 7 * length pre)), rest, []) \<and>
           sint (SignExtend (word_of_nat (leb_payload (pre @ [b])) :: u64) (6 + 7 * length pre)) =
             signed_take_bit (6 + 7 * length pre) (int (leb_payload (pre @ [b]))))"
proof (intro conjI impI)
  assume l: "length pre + 1 < 5"
  then have "length pre + 1 < kMaxBytes TYPE(32)" by (simp add: kMaxBytes_def)
  from ReadVarInt_short[OF assms this, of True rest "''vs32''"]
  show "Read_s32 (pre @ b # rest) =
      (Some (SignExtend (word_of_nat (leb_payload (pre @ [b]))) (6 + 7 * length pre)), rest, [])"
    by (simp add: Read_s32_def mult.commute)
  have "6 + 7 * length pre < LENGTH(32)" using l by simp
  then show "sint (SignExtend (word_of_nat (leb_payload (pre @ [b])) :: u32) (6 + 7 * length pre)) =
      signed_take_bit (6 + 7 * length pre) (int (leb_payload (pre @ [b])))"
    by (rule signed_short_value)
next
  assume l: "length pre + 1 < 10"
  then have "length pre + 1 < kMaxBytes TYPE(64)" by (simp add: kMaxBytes_def)
  from ReadVarInt_short[OF assms this, of True rest "''vs64''"]
  show "Read_s64 (pre @ b # rest) =
      (Some (SignExtend (word_of_nat (leb_payload (pre @ [b]))) (6 + 7 * length pre)), rest, [])"
    by (simp add: Read_s64_def mult.commute)
  have "6 + 7 * length pre < LENGTH(64)" using l by simp
  then show "sint (SignExtend (word_of_nat (leb_payload (pre @ [b])) :: u64) (6 + 7 * length pre)) =
      signed_take_bit (6 + 7 * length pre) (int (leb_payload (pre @ [b])))"
    by (rule signed_short_value)
qed

theorem ReadVarInt_signed_sign_extends_witness:
  "Read_s32 [0xFF, 0x7E] = (Some (- 129), [], []) \<and>
   sint (- 129 :: u32) = - 129 \<and>
   Read_s64 [0xFF, 0x7E] = (Some (- 129), [], [])"
proof -
  have a: "\<forall>x\<in>set [0xFF :: u8]. bit x 7" by simp
  have b: "\<not> bit (0x7E :: u8) 7" by simp
  have v32: "SignExtend (word_of_nat (leb_payload ([0xFF] @ [0x7E]))) (6 + 7 * length [0xFF :: u8]) =
      (- 129 :: u32)"
    by code_simp
  have v64: "SignExtend (word_of_nat (leb_payload ([0xFF] @ [0x7E]))) (6 + 7 * length [0xFF :: u8]) =
      (- 129 :: u64)"
    by code_simp
  have l: "length [0xFF :: u8] + 1 < 5" "length [0xFF :: u8] + 1 < 10" by simp_all
  from ReadVarInt_signed_sign_extends[OF a b, of "[]"] l
  have "Read_s32 ([0xFF] @ 0x7E # []) = (Some (- 129), [], [])"
    and "Read_s64 ([0xFF] @ 0x7E # []) = (Some (- 129), [], [])"
    unfolding v32 v64 by blast+
  then show ?thesis by simp
qed

subsection \<open>Overlong encodings\<close>

text \<open>
  Claim C2 says that the five bytes \<open>85 80 80 80 00\<close> are rejected when read as an
  unsigned 32-bit varint.  The reader accepts them, with the value 5 and no error.
\<close>

theorem Read_u32_overlong_five_counterexample:
  "Read_u32 [0x85, 0x80, 0x80, 0x80, 0x00] = (Some 5, [], [])"
  by (simp add: Read_u32_def ReadVarInt_def Read_u8_def kMaxBytes_def kMask_def kMaskBits_def
      kUsedBitsInLastByte_def kOnes_def)

lemma last_byte_ok_zero: "last_byte_ok T s 0"
  by (simp add: last_byte_ok_def Let_def)

text \<open>
  Claim C2 as amended.  The reader checks the fifth byte only for bits that do not fit
  into 32 bits, so an encoding that is padded with zero payload is accepted as long as it
  has at most five bytes: if \<open>bs @ [b]\<close> is an encoding that ends at \<open>b\<close>, then setting
  the continuation bit of \<open>b\<close> and appending \<open>k\<close> bytes \<open>80\<close> and a byte \<open>00\<close> gives
  an encoding that is read with the same value, and both reads leave what follows.
\<close>

theorem Read_u32_accepts_zero_padding:
  assumes cont: "\<forall>x\<in>set bs. bit x 7" and short: "\<not> bit b 7"
    and len: "length bs + k + 2 \<le> 5"
  shows "Read_u32 (bs @ (b OR 0x80) # replicate k 0x80 @ 0x00 # rest) =
           (Some (word_of_nat (leb_payload (bs @ [b]))), rest, []) \<and>
         Read_u32 (bs @ b # rest) = (Some (word_of_nat (leb_payload (bs @ [b]))), rest, [])"
proof
  let ?pre = "bs @ (b OR 0x80) # replicate k 0x80"
  have K: "kMaxBytes TYPE(32) = 5" by (simp add: kMaxBytes_def)
  have b7: "bit (b OR 0x80) 7" by (simp add: bit_or_iff bit_x80)
  have cont': "\<forall>x\<in>set ?pre. bit x 7" using cont b7 by (auto simp: bit_x80)
  have pay: "leb_payload (?pre @ [0]) = leb_payload (bs @ [b])"
    by (simp add: leb_payload_append leb_payload_padding or_x80_low7)
  have split: "bs @ (b OR 0x80) # replicate k 0x80 @ 0x00 # rest = ?pre @ 0 # rest" by simp
  have "length ?pre + 1 < kMaxBytes TYPE(32) \<or> length ?pre + 1 = kMaxBytes TYPE(32)"
    using len K by auto
  then have "(ReadVarInt False (?pre @ 0 # rest) ''vu32'' :: u32 Result) =
      (Some (word_of_nat (leb_payload (?pre @ [0]))), rest, [])"
  proof
    assume "length ?pre + 1 < kMaxBytes TYPE(32)"
    from ReadVarInt_short[OF cont' _ this, of 0 False rest "''vu32''"]
    show ?thesis by simp
  next
    assume "length ?pre + 1 = kMaxBytes TYPE(32)"
    from ReadVarInt_full[OF cont' last_byte_ok_zero this, of False rest "''vu32''"]
    show ?thesis by simp
  qed
  then show "Read_u32 (bs @ (b OR 0x80) # replicate k 0x80 @ 0x00 # rest) =
      (Some (word_of_nat (leb_payload (bs @ [b]))), rest, [])"
    unfolding Read_u32_def split pay .
next
  have "length bs + 1 < kMaxBytes TYPE(32)" using len by (simp add: kMaxBytes_def)
  from ReadVarInt_short[OF cont short this, of False rest "''vu32''"]
  show "Read_u32 (bs @ b # rest) = (Some (word_of_nat (leb_payload (bs @ [b]))), rest, [])"
    by (simp add: Read_u32_def)
qed

theorem Read_u32_accepts_zero_padding_witness:
  "Read_u32 [0x85, 0x80, 0x80, 0x80, 0x00] = (Some 5, [], []) \<and> Read_u32 [0x05] = (Some 5, [], [])"
proof -
  have a: "\<forall>x\<in>set ([] :: u8 list). bit x 7" by simp
  have b: "\<not> bit (0x05 :: u8) 7" by simp
  have c: "length ([] :: u8 list) + 3 + 2 \<le> 5" by simp
  have r: "replicate 3 (0x80 :: u8) = [0x80, 0x80, 0x80]" by (simp add: numeral_3_eq_3)
  show ?thesis
    using Read_u32_accepts_zero_padding[OF a b c, of "[]"] by (simp add: r)
qed

subsection \<open>Counts and strings\<close>

lemma ReadVarInt_loop_errors:
  "UnableToReadString len \<notin> set (snd (snd (ReadVarInt_loop s desc i acc data :: 'a::len word Result)))"
proof (induction s desc i acc data rule: ReadVarInt_loop.induct)
  case (1 is_signed desc i result data)
  show ?case
  proof (cases data)
    case Nil
    then show ?thesis by (subst ReadVarInt_loop.simps) (simp add: Read_u8_def)
  next
    case (Cons byte data')
    have r: "Read_u8 data = (Some byte, data', [])" using Cons by (simp add: Read_u8_def)
    show ?thesis
      using "1.IH"[OF r[symmetric] refl refl refl]
      by (subst ReadVarInt_loop.simps) (simp add: r Let_def)
  qed
qed

text \<open>
  Claim C9.  When \<open>ReadCount\<close> succeeds, the count it returns is at most the number of
  bytes left, which is what \<open>ReadStr\<close> tests next on the same span; so \<open>ReadStr\<close> never
  reports "Unable to read string of length", whatever the input.
\<close>

theorem ReadStr_length_check_unreachable:
  "(\<forall>len data' es. ReadCount data = (Some len, data', es) \<longrightarrow> unat len \<le> length data') \<and>
   (\<forall>len. UnableToReadString len \<notin> set (snd (snd (ReadStr data desc))))"
proof (intro conjI allI impI)
  fix len data' es
  assume "ReadCount data = (Some len, data', es)"
  then show "unat len \<le> length data'"
    by (auto simp: ReadCount_def split: prod.splits option.splits if_splits)
next
  fix len
  have e: "UnableToReadString len \<notin> set (snd (snd (ReadIndex data)))"
    unfolding ReadIndex_def ReadVarInt_def by (rule ReadVarInt_loop_errors)
  show "UnableToReadString len \<notin> set (snd (snd (ReadStr data desc)))"
    using e
    by (auto simp: ReadStr_def ReadCount_def split: prod.splits option.splits if_splits)
qed

theorem ReadStr_length_check_unreachable_witness:
  "ReadCount [0x02, 0x61, 0x62] = (Some 2, [0x61, 0x62], []) \<and>
   unat (2 :: u32) \<le> length [0x61, 0x62 :: u8] \<and>
   UnableToReadString 2 \<notin> set (snd (snd (ReadStr [0x02, 0x61, 0x62] ''name'')))"
proof -
  have r: "ReadCount [0x02, 0x61, 0x62] = (Some 2, [0x61, 0x62], [])"
    by (simp add: ReadCount_def ReadIndex_def ReadVarInt_def Read_u8_def kMaxBytes_def)
  show ?thesis
    using ReadStr_length_check_unreachable[of "[0x02, 0x61, 0x62]" "''name''"] r by simp
qed

subsection \<open>The module header\<close>

text \<open>
  Claim C8 says that the constructor of \<open>LazyModule\<close> never dereferences an optional
  that holds no value.  On the empty input the four magic bytes cannot be read, the
  comparison \<open>magic != kMagic\<close> holds, and the branch formats \<open>*magic\<close>.  On
  the magic followed by one byte the same happens with \<open>*version\<close>.
\<close>

theorem LazyModule_ctor_empty_input:
  "LazyModule_ctor [] = Inl DereferencedNullopt \<and>
   LazyModule_ctor [0x00, 0x61, 0x73, 0x6D, 0x01] = Inl DereferencedNullopt"
  by (simp add: LazyModule_ctor_def ReadBytes_def deref_def kMagic_def)

subsection \<open>Constant expressions\<close>

lemma ctor_cases:
  "LazySequenceIterator_ctor enc data =
     (if data = [] then (\<lparr>it_data = [], it_value = None\<rparr>, [])
      else case Read_Instr enc data of
             (None, d, es) \<Rightarrow> (\<lparr>it_data = [], it_value = None\<rparr>, es)
           | (Some v, d, es) \<Rightarrow> (\<lparr>it_data = d, it_value = Some v\<rparr>, es))"
  by (auto simp: LazySequenceIterator_ctor_def Increment_def it_empty_def it_clear_def Let_def
      split: prod.splits option.splits)

lemma Increment_cases:
  "Increment enc \<lparr>it_data = d, it_value = v\<rparr> =
     (if d = [] then (\<lparr>it_data = [], it_value = None\<rparr>, [])
      else case Read_Instr enc d of
             (None, d', es) \<Rightarrow> (\<lparr>it_data = [], it_value = None\<rparr>, es)
           | (Some v', d', es) \<Rightarrow> (\<lparr>it_data = d', it_value = Some v'\<rparr>, es))"
  by (auto simp: Increment_def it_empty_def it_clear_def Let_def
      split: prod.splits option.splits)

text \<open>
  Claim C3 says that a constant expression whose instruction is \<open>ref.null\<close> or
  \<open>ref.func\<close> is accepted.  The switch of the instruction reader has no case for these
  opcodes: even with an encoding that decodes them, the instruction is reported as
  unknown and the expression is rejected.
\<close>

theorem Read_ConstExpr_ref_null_counterexample:
  "Read_ConstExpr sample_encoding [0xD0, 0x0B] =
     (None, [0xD0, 0x0B], [UnknownOpcode ''RefNull'', UnexpectedEndOfConstExpr]) \<and>
   Read_ConstExpr sample_encoding [0xD2, 0x00, 0x0B] =
     (None, [0xD2, 0x00, 0x0B], [UnknownOpcode ''RefFunc'', UnexpectedEndOfConstExpr])"
  by (simp add: Read_ConstExpr_def ctor_cases Read_Instr_def Read_Opcode_def WASP_TRY_READ_def
      Read_u8_def sample_encoding_def it_is_end_def no_immediate_opcodes_def block_type_opcodes_def
      index_opcodes_def memarg_opcodes_def reserved_opcodes_def)

text \<open>
  Claim C3 as amended.  Reading a constant expression succeeds exactly when a first
  instruction can be read whose opcode is one of \<open>i32.const\<close>, \<open>i64.const\<close>,
  \<open>f32.const\<close>, \<open>f64.const\<close> and \<open>global.get\<close>, and a second instruction can be
  read after it whose opcode is \<open>end\<close>.  In every other case the read returns no value,
  leaves the span where it was and reports at least one error.
\<close>

theorem Read_ConstExpr_accepts_iff:
  "((\<exists>expr rest es. Read_ConstExpr enc data = (Some expr, rest, es)) \<longleftrightarrow>
    (\<exists>i1 d1 e1 i2 d2 e2.
        data \<noteq> [] \<and> Read_Instr enc data = (Some i1, d1, e1) \<and>
        opcode i1 \<in> {''I32Const'', ''I64Const'', ''F32Const'', ''F64Const'', ''GetGlobal''} \<and>
        d1 \<noteq> [] \<and> Read_Instr enc d1 = (Some i2, d2, e2) \<and> opcode i2 = ''End'')) \<and>
   (fst (Read_ConstExpr enc data) = None \<longrightarrow>
      fst (snd (Read_ConstExpr enc data)) = data \<and> snd (snd (Read_ConstExpr enc data)) \<noteq> [])"
  unfolding Read_ConstExpr_def ctor_cases
  by (auto simp: Increment_cases it_is_end_def const_expr_opcodes_def Let_def
      split: prod.splits option.splits if_splits)

theorem Read_ConstExpr_accepts_iff_witness:
  "(\<exists>expr rest es. Read_ConstExpr sample_encoding [0x41, 0x05, 0x0B] = (Some expr, rest, es)) \<and>
   fst (snd (Read_ConstExpr sample_encoding [0x0B, 0x0B])) = [0x0B, 0x0B]"
proof -
  have i1: "Read_Instr sample_encoding [0x41, 0x05, 0x0B] =
      (Some (Instr ''I32Const'' (S32Immediate 5)), [0x0B], [])"
    by (simp add: Read_Instr_def Read_Opcode_def WASP_TRY_READ_def Read_u8_def
        sample_encoding_def no_immediate_opcodes_def block_type_opcodes_def index_opcodes_def
        memarg_opcodes_def reserved_opcodes_def Read_s32_def ReadVarInt_def kMaxBytes_def
        SignExtend_def)
  have i2: "Read_Instr sample_encoding [0x0B] = (Some (Instr ''End'' EmptyImmediate), [], [])"
    by (simp add: Read_Instr_def Read_Opcode_def WASP_TRY_READ_def Read_u8_def
        sample_encoding_def no_immediate_opcodes_def)
  have i3: "Read_Instr sample_encoding [0x0B, 0x0B] =
      (Some (Instr ''End'' EmptyImmediate), [0x0B], [])"
    by (simp add: Read_Instr_def Read_Opcode_def WASP_TRY_READ_def Read_u8_def
        sample_encoding_def no_immediate_opcodes_def)
  have none: "fst (Read_ConstExpr sample_encoding [0x0B, 0x0B]) = None"
    by (simp add: Read_ConstExpr_def ctor_cases Increment_cases i2 i3 it_is_end_def
        const_expr_opcodes_def)
  show ?thesis
    using Read_ConstExpr_accepts_iff[of sample_encoding "[0x41, 0x05, 0x0B]"]
      Read_ConstExpr_accepts_iff[of sample_encoding "[0x0B, 0x0B]"] i1 i2 none
    by simp
qed

section \<open>Properties of the lexer\<close>

subsection \<open>Reading characters\<close>

lemma PeekChar_Nil [simp]: "PeekChar [] n = - 1"
  by (simp add: PeekChar_def)

lemma PeekChar_Cons_0 [simp]: "PeekChar (c # cs) 0 = of_char c"
  by (simp add: PeekChar_def)

lemma PeekChar_Cons_Suc [simp]: "PeekChar (c # cs) (Suc n) = PeekChar cs n"
  by (simp add: PeekChar_def)

lemma PeekChar_Cons_numeral [simp]:
  "PeekChar (c # cs) (numeral k) = PeekChar cs (pred_numeral k)"
  by (simp add: PeekChar_def numeral_eq_Suc)

lemma SkipChar_Cons [simp]: "SkipChar (c # cs) = cs"
  by (simp add: SkipChar_def)

lemma SkipChar_Nil [simp]: "SkipChar [] = []"
  by (simp add: SkipChar_def)

lemma of_char_not_eof [simp]: "(of_char c :: int) \<noteq> - 1"
proof -
  have "(0 :: int) \<le> of_char c" by (simp add: of_char_def)
  then show ?thesis by arith
qed

lemma eof_not_of_char [simp]: "- 1 \<noteq> (of_char c :: int)"
  using of_char_not_eof[of c] by (simp only: not_sym not_False_eq_True)

lemma PeekChar_0_eq_of_char: "PeekChar data 0 = of_char c \<longleftrightarrow> (\<exists>rest. data = c # rest)"
  by (cases data) (auto simp: PeekChar_def)

lemma PeekChar_0_eof: "PeekChar data 0 = - 1 \<longleftrightarrow> data = []"
  by (cases data) auto

lemma MatchChar_cases:
  "MatchChar data c = (b, data') \<Longrightarrow> (b \<and> data = c # data') \<or> (\<not> b \<and> data' = data)"
  by (auto simp: MatchChar_def PeekChar_0_eq_of_char split: if_splits)

lemma MatchChar_False: "MatchChar data c = (False, data') \<Longrightarrow> PeekChar data 0 \<noteq> of_char c"
  by (auto simp: MatchChar_def split: if_splits)

lemma ReadChar_cases:
  "ReadChar data = (c, data') \<Longrightarrow>
     (c = - 1 \<and> data = [] \<and> data' = []) \<or> (\<exists>x. data = x # data' \<and> c = of_char x)"
  by (cases data) (auto simp: ReadChar_def Let_def)

lemma MatchSign_cases:
  "MatchSign data = (s, data') \<Longrightarrow>
     data' = data \<or> data = CHR ''+'' # data' \<or> data = CHR ''-'' # data'"
  by (auto simp: MatchSign_def split: prod.splits bool.splits dest!: MatchChar_cases)

lemma MatchString_loop_cases:
  "MatchString_loop orig data sv = (b, data') \<Longrightarrow>
     (b \<and> data = sv @ data') \<or> (\<not> b \<and> data' = orig)"
  by (induction sv arbitrary: data)
     (auto split: prod.splits bool.splits dest!: MatchChar_cases)

lemma MatchString_cases:
  "MatchString data sv = (b, data') \<Longrightarrow> (b \<and> data = sv @ data') \<or> (\<not> b \<and> data' = data)"
  unfolding MatchString_def by (rule MatchString_loop_cases)

lemma MatchString_loop_append: "MatchString_loop orig (sv @ rest) sv = (True, rest)"
  by (induction sv arbitrary: orig) (simp_all add: MatchChar_def)

lemma MatchString_append: "MatchString (sv @ rest) sv = (True, rest)"
  unfolding MatchString_def by (rule MatchString_loop_append)

lemma ReadReservedChars_cases:
  "ReadReservedChars data = (n, data') \<Longrightarrow>
     \<not> IsReserved (PeekChar data' 0) \<and> (\<exists>seg. data = seg @ data' \<and> length seg = n)"
proof (induction data arbitrary: n data' rule: ReadReservedChars.induct)
  case (1 data)
  show ?case
  proof (cases "IsReserved (PeekChar data 0)")
    case False
    then show ?thesis using "1.prems" by (subst (asm) ReadReservedChars.simps) auto
  next
    case True
    then obtain c rest where d: "data = c # rest"
      by (cases data) (auto simp: IsReserved_def IsCharClass_eof)
    obtain m d2 where r: "ReadReservedChars (SkipChar data) = (m, d2)" by force
    from "1.prems" True r have e: "n = m + 1" "data' = d2"
      by (subst (asm) ReadReservedChars.simps, simp)+
    from "1.IH"[OF True r] obtain seg where
      "\<not> IsReserved (PeekChar d2 0)" "SkipChar data = seg @ d2" "length seg = m" by blast
    then show ?thesis using d e by (auto intro: exI[of _ "c # seg"])
  qed
qed

lemma ReadReservedChars_stop:
  "\<not> IsReserved (PeekChar rest 0) \<Longrightarrow> ReadReservedChars rest = (0, rest)"
  by (subst ReadReservedChars.simps) simp

lemma NoTrailingReservedChars_True:
  "NoTrailingReservedChars data = (True, data') \<Longrightarrow>
     data' = data \<and> \<not> IsReserved (PeekChar data 0)"
  by (auto simp: NoTrailingReservedChars_def split: prod.splits dest!: ReadReservedChars_cases)

lemma NoTrailingReservedChars_suffix:
  "NoTrailingReservedChars data = (b, data') \<Longrightarrow> suffix data' data"
  by (auto simp: NoTrailingReservedChars_def suffix_def split: prod.splits
      dest!: ReadReservedChars_cases)

lemma LexReserved_loop_suffix: "suffix (LexReserved_loop data) data"
proof (induction data rule: LexReserved_loop.induct)
  case (1 data)
  show ?case
  proof (cases "IsReserved (PeekChar data 0)")
    case False
    then show ?thesis by (subst LexReserved_loop.simps) simp
  next
    case True
    from "1.IH"[OF True] have "suffix (LexReserved_loop (SkipChar data)) data"
      by (cases data) (auto intro: suffix_ConsI)
    then show ?thesis using True by (subst LexReserved_loop.simps) simp
  qed
qed

subsection \<open>Underscores\<close>

lemma IsDigit_eof [simp]: "\<not> IsDigit (- 1)"
  by (simp add: IsDigit_def IsCharClass_eof)

lemma IsHexDigit_eof [simp]: "\<not> IsHexDigit (- 1)"
  by (simp add: IsHexDigit_def IsCharClass_eof)

lemma IsReserved_eof [simp]: "\<not> IsReserved (- 1)"
  by (simp add: IsReserved_def IsCharClass_eof)

lemma underscore_class: "kCharClasses ! 96 = 1"
  by (simp add: kCharClasses_def)

lemma IsDigit_underscore [simp]: "\<not> IsDigit (of_char (CHR ''_''))"
  by (simp add: IsDigit_def IsCharClass_def underscore_class)

lemma IsHexDigit_underscore [simp]: "\<not> IsHexDigit (of_char (CHR ''_''))"
  by (simp add: IsHexDigit_def IsCharClass_def underscore_class)

lemma kCharClasses_values: "set kCharClasses \<subseteq> {0, 1, 3, 5, 7, 13}"
  by (simp add: kCharClasses_def)

lemma digit_classes: "\<forall>v\<in>set kCharClasses. v AND 8 \<noteq> 0 \<longrightarrow> v AND 4 \<noteq> 0"
proof
  fix v assume "v \<in> set kCharClasses"
  then have "v \<in> {0, 1, 3, 5, 7, 13 :: nat}" using kCharClasses_values by blast
  then show "v AND 8 \<noteq> 0 \<longrightarrow> v AND 4 \<noteq> 0" by auto
qed

lemma of_char_less_256: "(of_char c :: int) < 256"
proof -
  have "(of_char c :: int) mod 256 < 256" by (rule pos_mod_bound) simp
  then show ?thesis by (simp only: of_char_mod_256)
qed

lemma IsDigit_IsHexDigit: "IsDigit (of_char c) \<Longrightarrow> IsHexDigit (of_char c)"
proof -
  assume d: "IsDigit (of_char c)"
  have l: "length kCharClasses = 257" by (simp add: kCharClasses_def)
  have "(0 :: int) \<le> of_char c" by (simp add: of_char_def)
  then have "nat (of_char c + 1) < length kCharClasses"
    using of_char_less_256[of c] l by simp
  then have "kCharClasses ! nat (of_char c + 1) \<in> set kCharClasses" by (rule nth_mem)
  with digit_classes
  have "kCharClasses ! nat (of_char c + 1) AND 8 \<noteq> 0 \<longrightarrow>
        kCharClasses ! nat (of_char c + 1) AND 4 \<noteq> 0"
    by blast
  then show ?thesis using d by (simp add: IsDigit_def IsHexDigit_def IsCharClass_def)
qed

lemma underscores_ok_prev:
  "\<not> digit (- 1) \<Longrightarrow> underscores_ok digit (- 1) s \<Longrightarrow> underscores_ok digit prev s"
  by (cases s) auto

lemma underscores_ok_append:
  "\<not> digit (- 1) \<Longrightarrow> underscores_ok digit prev a \<Longrightarrow> underscores_ok digit (- 1) b \<Longrightarrow>
     underscores_ok digit prev (a @ b)"
proof (induction a arbitrary: prev)
  case Nil
  show ?case
    using underscores_ok_prev[OF Nil.prems(1) Nil.prems(3)] by (simp only: append_Nil)
next
  case (Cons c cs)
  have h: "(c = CHR ''_'' \<longrightarrow> digit prev \<and> digit (PeekChar cs 0)) \<and>
      underscores_ok digit (of_char c) cs"
    using Cons.prems(2) unfolding underscores_ok.simps .
  have ih: "underscores_ok digit (of_char c) (cs @ b)"
    by (rule Cons.IH[OF Cons.prems(1) h[THEN conjunct2] Cons.prems(3)])
  have pk: "c = CHR ''_'' \<longrightarrow> digit prev \<and> digit (PeekChar (cs @ b) 0)"
  proof (cases cs)
    case Nil
    with h Cons.prems(1) have "c \<noteq> CHR ''_''" by (simp only: PeekChar_Nil) blast
    then show ?thesis by blast
  next
    case (Cons x xs)
    then have "PeekChar (cs @ b) 0 = PeekChar cs 0"
      by (simp only: append_Cons PeekChar_Cons_0)
    with h show ?thesis by (simp only:) blast
  qed
  show ?case
    using pk ih by (simp only: append_Cons underscores_ok.simps simp_thms)
qed

lemma underscores_ok_none: "CHR ''_'' \<notin> set s \<Longrightarrow> underscores_ok digit prev s"
proof (induction s arbitrary: prev)
  case Nil
  show ?case by simp
next
  case (Cons c cs)
  from Cons.prems have ne: "c \<noteq> CHR ''_''" and rest: "CHR ''_'' \<notin> set cs"
    by (simp_all only: set_simps insert_iff de_Morgan_disj not_sym simp_thms)
  from Cons.IH[OF rest] have "underscores_ok digit (of_char c) cs" .
  then show ?case using ne by (simp only: underscores_ok.simps simp_thms)
qed

lemma underscores_ok_mono:
  assumes "\<And>c. p (of_char c) \<Longrightarrow> q (of_char c)" and "\<not> p (- 1)"
  shows "prev = - 1 \<or> (\<exists>x. prev = of_char x) \<Longrightarrow> underscores_ok p prev s \<Longrightarrow>
     underscores_ok q prev s"
proof (induction s arbitrary: prev)
  case Nil
  then show ?case by simp
next
  case (Cons c cs)
  have pk: "p (PeekChar cs 0) \<Longrightarrow> q (PeekChar cs 0)"
    using assms by (cases cs) auto
  have pp: "p prev \<Longrightarrow> q prev" using Cons.prems(1) assms by auto
  have "underscores_ok q (of_char c) cs"
    using Cons.IH[of "of_char c"] Cons.prems(2) by auto
  then show ?case using Cons.prems(2) pk pp by auto
qed

lemma underscores_ok_index:
  "underscores_ok digit prev s \<Longrightarrow> i < length s \<Longrightarrow> s ! i = CHR ''_'' \<Longrightarrow>
     digit (if i = 0 then prev else of_char (s ! (i - 1))) \<and> digit (PeekChar s (i + 1))"
proof (induction s arbitrary: prev i)
  case Nil
  then show ?case by simp
next
  case (Cons c cs)
  show ?case
  proof (cases i)
    case 0
    then show ?thesis using Cons.prems by simp
  next
    case (Suc j)
    from Cons.IH[of "of_char c" j] Cons.prems Suc
    have "digit (if j = 0 then of_char c else of_char (cs ! (j - 1))) \<and> digit (PeekChar cs (j + 1))"
      by simp
    then show ?thesis using Suc by (cases j) auto
  qed
qed

lemma underscores_ok_neighbours:
  assumes "\<not> digit (- 1)" and "underscores_ok digit (- 1) s" and "i < length s"
    and "s ! i = CHR ''_''"
  shows "0 < i \<and> i + 1 < length s \<and> digit (of_char (s ! (i - 1))) \<and> digit (of_char (s ! (i + 1)))"
proof -
  from underscores_ok_index[OF assms(2,3,4)]
  have a: "digit (if i = 0 then - 1 else of_char (s ! (i - 1)))" and b: "digit (PeekChar s (i + 1))"
    by simp_all
  from a assms(1) have i: "0 < i" by (cases "i = 0") auto
  from b assms(1) have l: "i + 1 < length s" by (cases "i + 1 < length s") (auto simp: PeekChar_def)
  from a i have "digit (of_char (s ! (i - 1)))" by simp
  moreover from b l have "digit (of_char (s ! (i + 1)))" by (simp add: PeekChar_def)
  ultimately show ?thesis using i l by simp
qed

subsection \<open>Segments\<close>

lemma seg_ok_refl [simp]: "seg_ok digit data data"
  by (simp add: seg_ok_def)

lemma seg_ok_trans:
  "\<not> digit (- 1) \<Longrightarrow> seg_ok digit a b \<Longrightarrow> seg_ok digit b c \<Longrightarrow> seg_ok digit a c"
proof -
  assume d: "\<not> digit (- 1)" and "seg_ok digit a b" and "seg_ok digit b c"
  then obtain s1 s2 where s: "a = s1 @ b" "underscores_ok digit (- 1) s1"
    "b = s2 @ c" "underscores_ok digit (- 1) s2"
    unfolding seg_ok_def by blast
  have "a = (s1 @ s2) @ c" using s by simp
  moreover have "underscores_ok digit (- 1) (s1 @ s2)"
    using d s by (intro underscores_ok_append)
  ultimately show ?thesis unfolding seg_ok_def by blast
qed

lemma seg_ok_suffix: "seg_ok digit data data' \<Longrightarrow> suffix data' data"
  by (auto simp: seg_ok_def suffix_def)

lemma seg_ok_loc:
  "seg_ok digit data data' \<Longrightarrow>
     data = guard_loc data data' @ data' \<and> underscores_ok digit (- 1) (guard_loc data data')"
  by (auto simp: seg_ok_def guard_loc_def)

lemma seg_ok_none: "CHR ''_'' \<notin> set seg \<Longrightarrow> seg_ok digit (seg @ data) data"
  unfolding seg_ok_def by (blast intro: underscores_ok_none)

lemma seg_ok_hex: "seg_ok IsDigit a b \<Longrightarrow> seg_ok IsHexDigit a b"
  unfolding seg_ok_def
  by (blast intro: underscores_ok_mono[of IsDigit IsHexDigit, OF IsDigit_IsHexDigit IsDigit_eof])



lemma MatchSign_seg_ok: "MatchSign data = (s, data') \<Longrightarrow> seg_ok digit data data'"
proof -
  assume "MatchSign data = (s, data')"
  then have "data' = data \<or> data = [CHR ''+''] @ data' \<or> data = [CHR ''-''] @ data'"
    by (auto dest: MatchSign_cases)
  then show ?thesis
    using seg_ok_none[of "[CHR ''+'']" digit data'] seg_ok_none[of "[CHR ''-'']" digit data']
    by auto
qed

lemma MatchChar_seg_ok:
  "c \<noteq> CHR ''_'' \<Longrightarrow> MatchChar data c = (b, data') \<Longrightarrow> seg_ok digit data data'"
  using seg_ok_none[of "[c]" digit data'] by (auto dest!: MatchChar_cases)

lemma MatchString_seg_ok:
  "CHR ''_'' \<notin> set sv \<Longrightarrow> MatchString data sv = (b, data') \<Longrightarrow> seg_ok digit data data'"
  using seg_ok_none[of sv digit data'] by (auto dest!: MatchString_cases)

lemma MatchNum_loop_inv:
  "MatchNum_loop ok hu data = (ok', hu', data') \<Longrightarrow>
     \<exists>seg. data = seg @ data' \<and> (seg = [] \<longrightarrow> ok' = ok) \<and>
           (ok' \<longrightarrow> seg \<noteq> [] \<longrightarrow>
              IsDigit (PeekChar seg 0) \<and> (\<forall>prev. underscores_ok IsDigit prev seg))"
proof (induction "length data" arbitrary: data ok hu rule: less_induct)
  case less
  show ?case
  proof (cases "IsDigit (PeekChar data 0)")
    case False
    from less.prems False have "ok' = ok \<and> data' = data"
      by (subst (asm) MatchNum_loop.simps) simp
    then show ?thesis by (intro exI[of _ "[]"]) simp
  next
    case True
    then obtain d rest where d: "data = d # rest" and dd: "IsDigit (of_char d)"
      by (cases data) auto
    have dn: "d \<noteq> CHR ''_''" using dd IsDigit_underscore by blast
    obtain b data2 where m: "MatchChar rest (CHR ''_'') = (b, data2)" by force
    have step: "MatchNum_loop (\<not> b) (if b then Yes else hu) data2 = (ok', hu', data')"
      using less.prems True m unfolding d
      by (subst (asm) MatchNum_loop.simps) (cases b; simp)
    from MatchChar_cases[OF m]
    have r: "(b \<and> rest = CHR ''_'' # data2) \<or> (\<not> b \<and> data2 = rest)" .
    then have "length data2 < length data" unfolding d by auto
    from less.hyps[OF this step] obtain seg2 where s2: "data2 = seg2 @ data'"
      and e2: "seg2 = [] \<longrightarrow> ok' = (\<not> b)"
      and u2: "ok' \<longrightarrow> seg2 \<noteq> [] \<longrightarrow>
          IsDigit (PeekChar seg2 0) \<and> (\<forall>prev. underscores_ok IsDigit prev seg2)"
      by blast
    show ?thesis
    proof (cases b)
      case True
      let ?seg = "d # CHR ''_'' # seg2"
      have a: "data = ?seg @ data'" using d r True s2 by simp
      have c: "ok' \<longrightarrow> IsDigit (PeekChar ?seg 0) \<and> (\<forall>prev. underscores_ok IsDigit prev ?seg)"
      proof
        assume ok: ok'
        with e2 True have ne: "seg2 \<noteq> []" by blast
        with u2 ok have p: "IsDigit (PeekChar seg2 0)"
          and q: "underscores_ok IsDigit (of_char (CHR ''_'')) seg2" by blast+
        show "IsDigit (PeekChar ?seg 0) \<and> (\<forall>prev. underscores_ok IsDigit prev ?seg)"
          using dd dn p q by (simp only: underscores_ok.simps PeekChar_Cons_0 simp_thms)
      qed
      show ?thesis using a c by (intro exI[of _ ?seg]) blast
    next
      case False
      let ?seg = "d # seg2"
      have a: "data = ?seg @ data'" using d r False s2 by simp
      have c: "ok' \<longrightarrow> IsDigit (PeekChar ?seg 0) \<and> (\<forall>prev. underscores_ok IsDigit prev ?seg)"
      proof
        assume ok: ok'
        have q: "underscores_ok IsDigit (of_char d) seg2"
        proof (cases "seg2 = []")
          case True
          then show ?thesis by simp
        next
          case False
          with u2 ok show ?thesis by blast
        qed
        show "IsDigit (PeekChar ?seg 0) \<and> (\<forall>prev. underscores_ok IsDigit prev ?seg)"
          using dd dn q by (simp only: underscores_ok.simps PeekChar_Cons_0 simp_thms)
      qed
      show ?thesis using a c by (intro exI[of _ ?seg]) blast
    qed
  qed
qed

lemma MatchNum_seg_ok:
  assumes "MatchNum data hu = (ok, hu', data')"
  shows "seg_ok IsDigit data data' \<and> (\<not> ok \<longrightarrow> data' = data)"
proof -
  obtain ok1 hu1 d1 where l: "MatchNum_loop False hu data = (ok1, hu1, d1)"
    by (cases "MatchNum_loop False hu data") auto
  from assms l have e: "ok = ok1" "data' = (if ok1 then d1 else data)"
    by (auto simp: MatchNum_def)
  from MatchNum_loop_inv[OF l] obtain seg where s: "data = seg @ d1"
    and n: "seg = [] \<longrightarrow> ok1 = False"
    and u: "ok1 \<longrightarrow> seg \<noteq> [] \<longrightarrow> (\<forall>prev. underscores_ok IsDigit prev seg)"
    by blast
  show ?thesis
  proof (cases ok1)
    case True
    then have "underscores_ok IsDigit (- 1) seg" using n u by blast
    then have "seg_ok IsDigit data d1" using s unfolding seg_ok_def by blast
    then show ?thesis using e True by simp
  next
    case False
    then show ?thesis using e by simp
  qed
qed

lemma MatchHexNum_loop_inv:
  "MatchHexNum_loop ok hu data = (ok', hu', data') \<Longrightarrow>
     \<exists>seg. data = seg @ data' \<and> (seg = [] \<longrightarrow> ok' = ok) \<and>
           (ok' \<longrightarrow> seg \<noteq> [] \<longrightarrow>
              IsHexDigit (PeekChar seg 0) \<and> (\<forall>prev. underscores_ok IsHexDigit prev seg))"
proof (induction "length data" arbitrary: data ok hu rule: less_induct)
  case less
  show ?case
  proof (cases "IsHexDigit (PeekChar data 0)")
    case False
    from less.prems False have "ok' = ok \<and> data' = data"
      by (subst (asm) MatchHexNum_loop.simps) simp
    then show ?thesis by (intro exI[of _ "[]"]) simp
  next
    case True
    then obtain d rest where d: "data = d # rest" and dd: "IsHexDigit (of_char d)"
      by (cases data) auto
    have dn: "d \<noteq> CHR ''_''" using dd IsHexDigit_underscore by blast
    obtain b data2 where m: "MatchChar rest (CHR ''_'') = (b, data2)" by force
    have step: "MatchHexNum_loop (\<not> b) (if b then Yes else hu) data2 = (ok', hu', data')"
      using less.prems True m unfolding d
      by (subst (asm) MatchHexNum_loop.simps) (cases b; simp)
    from MatchChar_cases[OF m]
    have r: "(b \<and> rest = CHR ''_'' # data2) \<or> (\<not> b \<and> data2 = rest)" .
    then have "length data2 < length data" unfolding d by auto
    from less.hyps[OF this step] obtain seg2 where s2: "data2 = seg2 @ data'"
      and e2: "seg2 = [] \<longrightarrow> ok' = (\<not> b)"
      and u2: "ok' \<longrightarrow> seg2 \<noteq> [] \<longrightarrow>
          IsHexDigit (PeekChar seg2 0) \<and> (\<forall>prev. underscores_ok IsHexDigit prev seg2)"
      by blast
    show ?thesis
    proof (cases b)
      case True
      let ?seg = "d # CHR ''_'' # seg2"
      have a: "data = ?seg @ data'" using d r True s2 by simp
      have c: "ok' \<longrightarrow> IsHexDigit (PeekChar ?seg 0) \<and> (\<forall>prev. underscores_ok IsHexDigit prev ?seg)"
      proof
        assume ok: ok'
        with e2 True have ne: "seg2 \<noteq> []" by blast
        with u2 ok have p: "IsHexDigit (PeekChar seg2 0)"
          and q: "underscores_ok IsHexDigit (of_char (CHR ''_'')) seg2" by blast+
        show "IsHexDigit (PeekChar ?seg 0) \<and> (\<forall>prev. underscores_ok IsHexDigit prev ?seg)"
          using dd dn p q by (simp only: underscores_ok.simps PeekChar_Cons_0 simp_thms)
      qed
      show ?thesis using a c by (intro exI[of _ ?seg]) blast
    next
      case False
      let ?seg = "d # seg2"
      have a: "data = ?seg @ data'" using d r False s2 by simp
      have c: "ok' \<longrightarrow> IsHexDigit (PeekChar ?seg 0) \<and> (\<forall>prev. underscores_ok IsHexDigit prev ?seg)"
      proof
        assume ok: ok'
        have q: "underscores_ok IsHexDigit (of_char d) seg2"
        proof (cases "seg2 = []")
          case True
          then show ?thesis by simp
        next
          case False
          with u2 ok show ?thesis by blast
        qed
        show "IsHexDigit (PeekChar ?seg 0) \<and> (\<forall>prev. underscores_ok IsHexDigit prev ?seg)"
          using dd dn q by (simp only: underscores_ok.simps PeekChar_Cons_0 simp_thms)
      qed
      show ?thesis using a c by (intro exI[of _ ?seg]) blast
    qed
  qed
qed

lemma MatchHexNum_seg_ok:
  assumes "MatchHexNum data hu = (ok, hu', data')"
  shows "seg_ok IsHexDigit data data' \<and> (\<not> ok \<longrightarrow> data' = data)"
proof -
  obtain ok1 hu1 d1 where l: "MatchHexNum_loop False hu data = (ok1, hu1, d1)"
    by (cases "MatchHexNum_loop False hu data") auto
  from assms l have e: "ok = ok1" "data' = (if ok1 then d1 else data)"
    by (auto simp: MatchHexNum_def)
  from MatchHexNum_loop_inv[OF l] obtain seg where s: "data = seg @ d1"
    and n: "seg = [] \<longrightarrow> ok1 = False"
    and u: "ok1 \<longrightarrow> seg \<noteq> [] \<longrightarrow> (\<forall>prev. underscores_ok IsHexDigit prev seg)"
    by blast
  show ?thesis
  proof (cases ok1)
    case True
    then have "underscores_ok IsHexDigit (- 1) seg" using n u by blast
    then have "seg_ok IsHexDigit data d1" using s unfolding seg_ok_def by blast
    then show ?thesis using e True by simp
  next
    case False
    then show ?thesis using e by simp
  qed
qed

subsection \<open>What a call of the lexer returns\<close>

lemma good_plain:
  "suffix data' data \<Longrightarrow> tt \<notin> set Invalid_types \<Longrightarrow> tt \<notin> set Numeric_types \<Longrightarrow>
     lexed_ok data (Token l tt imm, data')"
  by (simp add: lexed_ok_def)

lemma good_invalid:
  "suffix data' data \<Longrightarrow> length data' < length data \<Longrightarrow> tt \<notin> set Numeric_types \<Longrightarrow>
     lexed_ok data (Token l tt imm, data')"
  by (simp add: lexed_ok_def)

lemma digit_class_eof: "\<not> digit_class tok (- 1)"
  by (simp add: digit_class_def)

lemma good_numeric:
  assumes "seg_ok (if is_hex_literal imm then IsHexDigit else IsDigit) data data'"
    and "\<not> IsReserved (PeekChar data' 0)" and "tt \<notin> set Invalid_types"
  shows "lexed_ok data (Token (guard_loc data data') tt imm, data')"
proof -
  from seg_ok_loc[OF assms(1)] seg_ok_suffix[OF assms(1)] assms(2,3)
  show ?thesis by (simp add: lexed_ok_def numeric_ok_def digit_class_def)
qed

lemma LexReserved_good: "suffix d data \<Longrightarrow> lexed_ok data (LexReserved d)"
proof -
  assume "suffix d data"
  then have "suffix (LexReserved_loop d) data"
    using LexReserved_loop_suffix[of d] by (rule suffix_order.trans[rotated])
  then show ?thesis
    unfolding LexReserved_def Let_def
    by (intro good_plain) (simp_all add: Invalid_types_def Numeric_types_def)
qed

lemma LexAnnotation_good: "lexed_ok data (LexAnnotation data)"
proof -
  obtain n d where r: "ReadReservedChars data = (n, d)" by force
  then have "suffix d data" by (auto simp: suffix_def dest!: ReadReservedChars_cases)
  then show ?thesis
    unfolding LexAnnotation_def r prod.case
    by (intro good_plain) (simp_all add: Invalid_types_def Numeric_types_def)
qed

lemma LexId_good: "lexed_ok data (LexId data)"
proof -
  obtain b d where r: "NoTrailingReservedChars (SkipChar data) = (b, d)" by force
  have "suffix (SkipChar data) data" by (simp add: SkipChar_def suffix_drop)
  with NoTrailingReservedChars_suffix[OF r] have s: "suffix d data"
    by (rule suffix_order.trans)
  show ?thesis
    unfolding LexId_def r prod.case
    by (cases b; simp only: bool.case; intro good_plain s)
       (simp_all add: Invalid_types_def Numeric_types_def)
qed

lemma LexWhitespace_loop_suffix: "suffix (LexWhitespace_loop data) data"
proof (induction "length data" arbitrary: data rule: less_induct)
  case less
  show ?case
  proof (cases data)
    case Nil
    then show ?thesis by (subst LexWhitespace_loop.simps) (simp add: Let_def)
  next
    case (Cons c cs)
    have "suffix (LexWhitespace_loop cs) cs" using less Cons by simp
    then have "suffix (LexWhitespace_loop cs) data" unfolding Cons by (rule suffix_ConsI)
    then show ?thesis unfolding Cons
      by (subst LexWhitespace_loop.simps) (simp add: Let_def)
  qed
qed

lemma LexWhitespace_good: "lexed_ok data (LexWhitespace data)"
  unfolding LexWhitespace_def Let_def
  by (intro good_plain LexWhitespace_loop_suffix)
     (simp_all add: Invalid_types_def Numeric_types_def)

lemma LexLineComment_loop_good:
  "suffix data orig \<Longrightarrow> data \<noteq> [] \<Longrightarrow> lexed_ok orig (LexLineComment_loop orig data)"
proof (induction "length data" arbitrary: data rule: less_induct)
  case less
  from less.prems(2) obtain c cs where d: "data = c # cs" by (cases data) auto
  have r: "ReadChar data = (of_char c, cs)" unfolding d by (simp add: ReadChar_def Let_def)
  have s: "suffix cs orig" using less.prems(1) unfolding d by (rule suffix_ConsD)
  have l: "length cs < length orig"
    using suffix_length_le[OF less.prems(1)] unfolding d by simp
  show ?case
  proof (cases "(of_char c :: int) = of_char (CHR 0x0A)")
    case True
    show ?thesis
      by (subst LexLineComment_loop.simps)
         (simp add: r True, intro good_plain s, simp_all add: Invalid_types_def Numeric_types_def)
  next
    case False
    show ?thesis
    proof (cases cs)
      case Nil
      have e: "LexLineComment_loop orig [] =
          (Token (guard_loc orig []) ''InvalidLineComment'' monostate, [])"
        by (subst LexLineComment_loop.simps) (simp add: ReadChar_def Let_def)
      have "lexed_ok orig (LexLineComment_loop orig [])"
        unfolding e using s l unfolding Nil
        by (intro good_invalid) (simp_all add: Numeric_types_def)
      then show ?thesis
        using False unfolding Nil[symmetric]
        by (subst LexLineComment_loop.simps) (simp add: r)
    next
      case (Cons x xs)
      have "lexed_ok orig (LexLineComment_loop orig cs)"
        using less.hyps[of cs] s d Cons by simp
      then show ?thesis
        using False by (subst LexLineComment_loop.simps) (simp add: r)
    qed
  qed
qed

lemma LexLineComment_good: "data \<noteq> [] \<Longrightarrow> lexed_ok data (LexLineComment data)"
  unfolding LexLineComment_def by (rule LexLineComment_loop_good) simp_all

lemma MatchChar_suffix: "MatchChar data c = (b, data') \<Longrightarrow> suffix data' data"
  by (auto dest!: MatchChar_cases intro: suffix_ConsI)

lemma ReadChar_suffix: "ReadChar data = (c, data') \<Longrightarrow> suffix data' data"
  by (auto dest!: ReadChar_cases intro: suffix_ConsI)

lemma LexBlockComment_loop_Nil:
  "LexBlockComment_loop orig nesting [] =
     (Token (guard_loc orig []) ''InvalidBlockComment'' monostate, [])"
  by (subst LexBlockComment_loop.simps) (simp add: ReadChar_def Let_def)

lemma LexBlockComment_loop_step:
  "\<exists>d2 n2. suffix d2 cs \<and>
     (LexBlockComment_loop orig nesting (c # cs) = LexBlockComment_loop orig n2 d2 \<or>
      LexBlockComment_loop orig nesting (c # cs) =
        (Token (guard_loc orig d2) ''BlockComment'' monostate, d2))"
proof -
  have r: "ReadChar (c # cs) = (of_char c, cs)" by (simp add: ReadChar_def Let_def)
  obtain b1 d1 where m1: "MatchChar cs (CHR '')'') = (b1, d1)" by force
  obtain b2 d2 where m2: "MatchChar cs (CHR '';'') = (b2, d2)" by force
  note s1 = MatchChar_suffix[OF m1] and s2 = MatchChar_suffix[OF m2]
  have "LexBlockComment_loop orig nesting (c # cs) =
      (if (of_char c :: int) = of_char (CHR '';'') then
         (if b1 then
            if nesting - 1 = 0 then (Token (guard_loc orig d1) ''BlockComment'' monostate, d1)
            else LexBlockComment_loop orig (nesting - 1) d1
          else LexBlockComment_loop orig nesting d1)
       else if (of_char c :: int) = of_char (CHR ''('') then
         (if b2 then LexBlockComment_loop orig (nesting + 1) d2
          else LexBlockComment_loop orig nesting d2)
       else LexBlockComment_loop orig nesting cs)"
    by (subst LexBlockComment_loop.simps) (simp add: r m1 m2)
  then show ?thesis using s1 s2 by (metis suffix_order.refl)
qed

lemma LexBlockComment_loop_good:
  "suffix data orig \<Longrightarrow> orig \<noteq> [] \<Longrightarrow> lexed_ok orig (LexBlockComment_loop orig nesting data)"
proof (induction "length data" arbitrary: data nesting rule: less_induct)
  case less
  show ?case
  proof (cases data)
    case Nil
    show ?thesis unfolding Nil LexBlockComment_loop_Nil
      using less.prems by (intro good_invalid) (simp_all add: Numeric_types_def)
  next
    case (Cons c cs)
    from LexBlockComment_loop_step[of cs orig nesting c] obtain d2 n2 where s: "suffix d2 cs"
      and e: "LexBlockComment_loop orig nesting (c # cs) = LexBlockComment_loop orig n2 d2 \<or>
        LexBlockComment_loop orig nesting (c # cs) =
          (Token (guard_loc orig d2) ''BlockComment'' monostate, d2)"
      by blast
    have so: "suffix d2 orig"
      using s less.prems(1) unfolding Cons by (meson suffix_ConsD suffix_order.trans)
    have l: "length d2 < length data" using suffix_length_le[OF s] unfolding Cons by simp
    from e show ?thesis
    proof
      assume "LexBlockComment_loop orig nesting (c # cs) = LexBlockComment_loop orig n2 d2"
      then show ?thesis unfolding Cons using less.hyps[OF l so less.prems(2)] by simp
    next
      assume "LexBlockComment_loop orig nesting (c # cs) =
          (Token (guard_loc orig d2) ''BlockComment'' monostate, d2)"
      then show ?thesis unfolding Cons
        using so by (simp only:) (intro good_plain, simp_all add: Invalid_types_def Numeric_types_def)
    qed
  qed
qed

lemma LexBlockComment_good: "data \<noteq> [] \<Longrightarrow> lexed_ok data (LexBlockComment data)"
  unfolding LexBlockComment_def by (rule LexBlockComment_loop_good) simp_all

lemma LexText_loop_Nil: "LexText_loop has_error byte_size [] = (True, byte_size, [])"
  by (subst LexText_loop.simps) (simp add: ReadChar_def Let_def)

lemma LexText_loop_step:
  "\<exists>d2 he2 bs2. suffix d2 cs \<and>
     (LexText_loop has_error byte_size (c # cs) = LexText_loop he2 bs2 d2 \<or>
      LexText_loop has_error byte_size (c # cs) = (has_error, byte_size, d2))"
proof -
  have r: "ReadChar (c # cs) = (of_char c, cs)" by (simp add: ReadChar_def Let_def)
  obtain e d1 where r1: "ReadChar cs = (e, d1)" by force
  note s1 = ReadChar_suffix[OF r1]
  have "suffix (SkipChar d1) d1" by (simp add: SkipChar_def suffix_drop)
  then have s2: "suffix (SkipChar d1) cs" using s1 by (rule suffix_order.trans)
  have "LexText_loop has_error byte_size (c # cs) =
      (if (of_char c :: int) = of_char (CHR 0x0A) then LexText_loop True byte_size cs
       else if (of_char c :: int) = of_char (CHR 0x22) then (has_error, byte_size, cs)
       else if (of_char c :: int) = of_char (CHR 0x5C) then
         (if e \<in> set valid_escapes then LexText_loop has_error (byte_size + 1) d1
          else if e \<in> set hex_escapes \<and> IsHexDigit (PeekChar d1 0) then
            LexText_loop has_error (byte_size + 1) (SkipChar d1)
          else LexText_loop True byte_size d1)
       else LexText_loop has_error (byte_size + 1) cs)"
    by (subst LexText_loop.simps) (simp add: r r1)
  then show ?thesis using s1 s2 by (metis suffix_order.refl)
qed

lemma LexText_loop_suffix:
  "LexText_loop has_error byte_size data = (he, bs, data') \<Longrightarrow> suffix data' data"
proof (induction "length data" arbitrary: data has_error byte_size rule: less_induct)
  case less
  show ?case
  proof (cases data)
    case Nil
    then show ?thesis using less.prems by (simp add: LexText_loop_Nil)
  next
    case (Cons c cs)
    from LexText_loop_step[of cs has_error byte_size c] obtain d2 he2 bs2 where s: "suffix d2 cs"
      and e: "LexText_loop has_error byte_size (c # cs) = LexText_loop he2 bs2 d2 \<or>
        LexText_loop has_error byte_size (c # cs) = (has_error, byte_size, d2)"
      by blast
    have sd: "suffix d2 data" using s unfolding Cons by (rule suffix_ConsI)
    have l: "length d2 < length data" using suffix_length_le[OF s] unfolding Cons by simp
    from e show ?thesis
    proof
      assume "LexText_loop has_error byte_size (c # cs) = LexText_loop he2 bs2 d2"
      then have "LexText_loop he2 bs2 d2 = (he, bs, data')" using less.prems Cons by simp
      from less.hyps[OF l this] sd show ?thesis by (rule suffix_order.trans)
    next
      assume "LexText_loop has_error byte_size (c # cs) = (has_error, byte_size, d2)"
      then have "data' = d2" using less.prems Cons by simp
      then show ?thesis using sd by simp
    qed
  qed
qed

lemma LexText_good:
  assumes "PeekChar data 0 = of_char (CHR 0x22)"
  shows "lexed_ok data (LexText data)"
proof -
  from assms obtain rest where d: "data = CHR 0x22 # rest"
    unfolding PeekChar_0_eq_of_char by blast
  have m: "MatchChar data (CHR 0x22) = (True, rest)" unfolding d by (simp add: MatchChar_def)
  obtain he bs d2 where l: "LexText_loop False 0 rest = (he, bs, d2)"
    by (cases "LexText_loop False 0 rest") auto
  from LexText_loop_suffix[OF l] have s: "suffix d2 rest" .
  then have sd: "suffix d2 data" unfolding d by (rule suffix_ConsI)
  have len: "length d2 < length data" using suffix_length_le[OF s] unfolding d by simp
  show ?thesis
    unfolding LexText_def m l prod.case Let_def
    by (cases he; simp only: if_True if_False)
       (intro good_invalid sd len, simp add: Numeric_types_def,
        intro good_plain sd, simp_all add: Invalid_types_def Numeric_types_def)
qed

lemmas seg_ok_trans_dec = seg_ok_trans[of IsDigit, OF IsDigit_eof]
lemmas seg_ok_trans_hex = seg_ok_trans[of IsHexDigit, OF IsHexDigit_eof]

lemma MatchChar_or_seg_ok:
  assumes "c1 \<noteq> CHR ''_''" and "c2 \<noteq> CHR ''_''"
    and "(case MatchChar data c1 of (True, d) \<Rightarrow> (True, d) | (False, d) \<Rightarrow> MatchChar d c2) = (b, data')"
  shows "seg_ok digit data data'"
proof -
  obtain b1 d1 where m1: "MatchChar data c1 = (b1, d1)" by force
  show ?thesis
  proof (cases b1)
    case True
    then have "data' = d1" using assms(3) m1 by simp
    then show ?thesis using MatchChar_seg_ok[OF assms(1) m1] by simp
  next
    case False
    then have "d1 = data" using MatchChar_cases[OF m1] by simp
    then have "MatchChar data c2 = (b, data')" using assms(3) m1 False by simp
    then show ?thesis by (rule MatchChar_seg_ok[OF assms(2)])
  qed
qed

lemma LexNumber_fraction_seg_ok:
  assumes "LexNumber_fraction tt hu data = Some (tt', hu', data')"
  shows "seg_ok IsDigit data data' \<and> (tt' = tt \<or> tt' = ''Float'')"
proof -
  obtain b d1 where m: "MatchChar data (CHR ''.'') = (b, d1)" by force
  have s1: "seg_ok IsDigit data d1" by (rule MatchChar_seg_ok[OF _ m]) simp
  obtain ok hu2 d2 where n: "MatchNum d1 hu = (ok, hu2, d2)" by (cases "MatchNum d1 hu") auto
  from MatchNum_seg_ok[OF n] have s2: "seg_ok IsDigit d1 d2" by simp
  from assms have "(data' = d1 \<or> data' = d2) \<and> (tt' = tt \<or> tt' = ''Float'')"
    unfolding LexNumber_fraction_def m n prod.case
    by (cases b; cases ok; simp split: if_splits)
  then show ?thesis using s1 seg_ok_trans_dec[OF s1 s2] by auto
qed

lemma LexNumber_exponent_seg_ok:
  assumes "LexNumber_exponent tt hu data = Some (tt', hu', data')"
  shows "seg_ok IsDigit data data' \<and> (tt' = tt \<or> tt' = ''Float'')"
proof -
  obtain e d1 where m: "(case MatchChar data (CHR ''e'') of (True, d) \<Rightarrow> (True, d)
      | (False, d) \<Rightarrow> MatchChar d (CHR ''E'')) = (e, d1)" by force
  have s1: "seg_ok IsDigit data d1" by (rule MatchChar_or_seg_ok[OF _ _ m]) simp_all
  obtain sign d2 where g: "MatchSign d1 = (sign, d2)" by force
  have s2: "seg_ok IsDigit d1 d2" by (rule MatchSign_seg_ok[OF g])
  obtain ok hu2 d3 where n: "MatchNum d2 hu = (ok, hu2, d3)" by (cases "MatchNum d2 hu") auto
  from MatchNum_seg_ok[OF n] have s3: "seg_ok IsDigit d2 d3" by simp
  from assms have "(data' = d1 \<or> data' = d3) \<and> (tt' = tt \<or> tt' = ''Float'')"
    unfolding LexNumber_exponent_def m g n prod.case Let_def
    by (cases e; cases ok; simp)
  then show ?thesis
    using s1 seg_ok_trans_dec[OF s1 seg_ok_trans_dec[OF s2 s3]] by auto
qed

lemma LexHexNumber_fraction_seg_ok:
  assumes "LexHexNumber_fraction tt hu data = Some (tt', hu', data')"
  shows "seg_ok IsHexDigit data data' \<and> (tt' = tt \<or> tt' = ''Float'')"
proof -
  obtain b d1 where m: "MatchChar data (CHR ''.'') = (b, d1)" by force
  have s1: "seg_ok IsHexDigit data d1" by (rule MatchChar_seg_ok[OF _ m]) simp
  obtain ok hu2 d2 where n: "MatchHexNum d1 hu = (ok, hu2, d2)"
    by (cases "MatchHexNum d1 hu") auto
  from MatchHexNum_seg_ok[OF n] have s2: "seg_ok IsHexDigit d1 d2" by simp
  from assms have "(data' = d1 \<or> data' = d2) \<and> (tt' = tt \<or> tt' = ''Float'')"
    unfolding LexHexNumber_fraction_def m n prod.case
    by (cases b; cases ok; simp split: if_splits)
  then show ?thesis using s1 seg_ok_trans_hex[OF s1 s2] by auto
qed

lemma LexHexNumber_exponent_seg_ok:
  assumes "LexHexNumber_exponent tt hu data = Some (tt', hu', data')"
  shows "seg_ok IsHexDigit data data' \<and> (tt' = tt \<or> tt' = ''Float'')"
proof -
  obtain e d1 where m: "(case MatchChar data (CHR ''p'') of (True, d) \<Rightarrow> (True, d)
      | (False, d) \<Rightarrow> MatchChar d (CHR ''P'')) = (e, d1)" by force
  have s1: "seg_ok IsHexDigit data d1" by (rule MatchChar_or_seg_ok[OF _ _ m]) simp_all
  obtain sign d2 where g: "MatchSign d1 = (sign, d2)" by force
  have s2: "seg_ok IsHexDigit d1 d2" by (rule MatchSign_seg_ok[OF g])
  obtain ok hu2 d3 where n: "MatchNum d2 hu = (ok, hu2, d3)" by (cases "MatchNum d2 hu") auto
  from MatchNum_seg_ok[OF n] have s3: "seg_ok IsHexDigit d2 d3" by (simp add: seg_ok_hex)
  from assms have "(data' = d1 \<or> data' = d3) \<and> (tt' = tt \<or> tt' = ''Float'')"
    unfolding LexHexNumber_exponent_def m g n prod.case Let_def
    by (cases e; cases ok; simp)
  then show ?thesis
    using s1 seg_ok_trans_hex[OF s1 seg_ok_trans_hex[OF s2 s3]] by auto
qed

lemma numeric_not_invalid:
  "tt = ''Nat'' \<or> tt = ''Int'' \<or> tt = ''Float'' \<Longrightarrow> tt \<notin> set Invalid_types"
  by (auto simp: Invalid_types_def)

lemma LexNumber_good:
  assumes tt: "tt = ''Nat'' \<or> tt = ''Int''"
  shows "lexed_ok data (LexNumber data tt)"
proof -
  note res = LexReserved_good[OF suffix_order.refl, of data]
  obtain sign d1 where g: "MatchSign data = (sign, d1)" by force
  have s1: "seg_ok IsDigit data d1" by (rule MatchSign_seg_ok[OF g])
  obtain ok hu d2 where n: "MatchNum d1 No = (ok, hu, d2)" by (cases "MatchNum d1 No") auto
  from MatchNum_seg_ok[OF n] have s2: "seg_ok IsDigit d1 d2" by simp
  show ?thesis
  proof (cases ok)
    case False
    then show ?thesis unfolding LexNumber_def g n prod.case using res by simp
  next
    case True
    show ?thesis
    proof (cases "LexNumber_fraction tt hu d2")
      case None
      then show ?thesis unfolding LexNumber_def g n prod.case using res True by simp
    next
      case (Some r1)
      obtain tt1 hu1 d3 where r1: "r1 = (tt1, hu1, d3)" by (cases r1) auto
      from LexNumber_fraction_seg_ok[OF Some[unfolded r1]]
      have s3: "seg_ok IsDigit d2 d3" and t1: "tt1 = tt \<or> tt1 = ''Float''" by simp_all
      show ?thesis
      proof (cases "LexNumber_exponent tt1 hu1 d3")
        case None
        then show ?thesis
          unfolding LexNumber_def g n prod.case using res True Some r1 by simp
      next
        case (Some r2)
        obtain tt2 hu2 d4 where r2: "r2 = (tt2, hu2, d4)" by (cases r2) auto
        from LexNumber_exponent_seg_ok[OF Some[unfolded r2]]
        have s4: "seg_ok IsDigit d3 d4" and t2: "tt2 = tt1 \<or> tt2 = ''Float''" by simp_all
        have s: "seg_ok IsDigit data d4"
          by (rule seg_ok_trans_dec[OF s1 seg_ok_trans_dec[OF s2 seg_ok_trans_dec[OF s3 s4]]])
        have ni: "tt2 \<notin> set Invalid_types" using tt t1 t2 by (intro numeric_not_invalid) auto
        obtain b d5 where nt: "NoTrailingReservedChars d4 = (b, d5)" by force
        show ?thesis
        proof (cases b)
          case False
          then show ?thesis
            unfolding LexNumber_def g n prod.case
            using res True \<open>LexNumber_fraction tt hu d2 = Some r1\<close> r1 Some r2 nt by simp
        next
          case b: True
          from nt b have "NoTrailingReservedChars d4 = (True, d5)" by simp
          from NoTrailingReservedChars_True[OF this]
          have e: "d5 = d4" and stop: "\<not> IsReserved (PeekChar d4 0)" by simp_all
          have "lexed_ok data (Token (guard_loc data d4) tt2
              (LiteralInfo_immediate (LiteralInfo_Number sign hu2)), d4)"
            by (rule good_numeric) (simp_all add: s stop ni)
          then show ?thesis
            unfolding LexNumber_def g n prod.case
            using True \<open>LexNumber_fraction tt hu d2 = Some r1\<close> r1 Some r2 nt b e by simp
        qed
      qed
    qed
  qed
qed

lemma LexHexNumber_good:
  assumes tt: "tt = ''Nat'' \<or> tt = ''Int''"
  shows "lexed_ok data (LexHexNumber data tt)"
proof -
  note res = LexReserved_good[OF suffix_order.refl, of data]
  obtain sign d1 where g: "MatchSign data = (sign, d1)" by force
  have s1: "seg_ok IsHexDigit data d1" by (rule MatchSign_seg_ok[OF g])
  obtain m d1' where x: "MatchString d1 ''0x'' = (m, d1')" by force
  have s1': "seg_ok IsHexDigit d1 d1'" by (rule MatchString_seg_ok[OF _ x]) simp
  obtain ok hu d2 where n: "MatchHexNum d1' No = (ok, hu, d2)"
    by (cases "MatchHexNum d1' No") auto
  from MatchHexNum_seg_ok[OF n] have s2: "seg_ok IsHexDigit d1' d2" by simp
  show ?thesis
  proof (cases ok)
    case False
    then show ?thesis unfolding LexHexNumber_def g x n prod.case using res by simp
  next
    case True
    show ?thesis
    proof (cases "LexHexNumber_fraction tt hu d2")
      case None
      then show ?thesis unfolding LexHexNumber_def g x n prod.case using res True by simp
    next
      case (Some r1)
      obtain tt1 hu1 d3 where r1: "r1 = (tt1, hu1, d3)" by (cases r1) auto
      from LexHexNumber_fraction_seg_ok[OF Some[unfolded r1]]
      have s3: "seg_ok IsHexDigit d2 d3" and t1: "tt1 = tt \<or> tt1 = ''Float''" by simp_all
      show ?thesis
      proof (cases "LexHexNumber_exponent tt1 hu1 d3")
        case None
        then show ?thesis
          unfolding LexHexNumber_def g x n prod.case using res True Some r1 by simp
      next
        case (Some r2)
        obtain tt2 hu2 d4 where r2: "r2 = (tt2, hu2, d4)" by (cases r2) auto
        from LexHexNumber_exponent_seg_ok[OF Some[unfolded r2]]
        have s4: "seg_ok IsHexDigit d3 d4" and t2: "tt2 = tt1 \<or> tt2 = ''Float''" by simp_all
        have s: "seg_ok IsHexDigit data d4"
          by (rule seg_ok_trans_hex[OF s1 seg_ok_trans_hex[OF s1'
                seg_ok_trans_hex[OF s2 seg_ok_trans_hex[OF s3 s4]]]])
        have ni: "tt2 \<notin> set Invalid_types" using tt t1 t2 by (intro numeric_not_invalid) auto
        obtain b d5 where nt: "NoTrailingReservedChars d4 = (b, d5)" by force
        show ?thesis
        proof (cases b)
          case False
          then show ?thesis
            unfolding LexHexNumber_def g x n prod.case
            using res True \<open>LexHexNumber_fraction tt hu d2 = Some r1\<close> r1 Some r2 nt by simp
        next
          case b: True
          from nt b have "NoTrailingReservedChars d4 = (True, d5)" by simp
          from NoTrailingReservedChars_True[OF this]
          have e: "d5 = d4" and stop: "\<not> IsReserved (PeekChar d4 0)" by simp_all
          have "lexed_ok data (Token (guard_loc data d4) tt2
              (LiteralInfo_immediate (LiteralInfo_HexNumber sign hu2)), d4)"
            by (rule good_numeric) (simp_all add: s stop ni)
          then show ?thesis
            unfolding LexHexNumber_def g x n prod.case
            using True \<open>LexHexNumber_fraction tt hu d2 = Some r1\<close> r1 Some r2 nt b e by simp
        qed
      qed
    qed
  qed
qed

lemma LexReserved_good_seg: "seg_ok digit d data' \<Longrightarrow> suffix d data \<Longrightarrow> lexed_ok data (LexReserved data')"
  by (rule LexReserved_good) (meson seg_ok_suffix suffix_order.trans)

lemma NoTrailingReservedChars_cases:
  obtains (stop) "NoTrailingReservedChars d = (True, d)" "\<not> IsReserved (PeekChar d 0)"
  | (more) d' where "NoTrailingReservedChars d = (False, d')" "suffix d' d"
proof -
  obtain b d' where nt: "NoTrailingReservedChars d = (b, d')" by force
  show ?thesis
  proof (cases b)
    case True
    with nt have t: "NoTrailingReservedChars d = (True, d')" by simp
    from NoTrailingReservedChars_True[OF t] t show ?thesis by (intro stop) simp_all
  next
    case False
    with nt have f: "NoTrailingReservedChars d = (False, d')" by simp
    from NoTrailingReservedChars_suffix[OF f] f show ?thesis by (intro more)
  qed
qed

lemma LexInf_good: "lexed_ok data (LexInf data)"
proof -
  obtain sign d1 where g: "MatchSign data = (sign, d1)" by force
  have s1: "seg_ok IsDigit data d1" by (rule MatchSign_seg_ok[OF g])
  obtain m d2 where x: "MatchString d1 ''inf'' = (m, d2)" by force
  have s2: "seg_ok IsDigit d1 d2" by (rule MatchString_seg_ok[OF _ x]) simp
  have s: "seg_ok IsDigit data d2" by (rule seg_ok_trans_dec[OF s1 s2])
  note sd = seg_ok_suffix[OF s]
  show ?thesis
  proof (cases m)
    case False
    then show ?thesis unfolding LexInf_def g x prod.case using LexReserved_good[OF sd] by simp
  next
    case True
    show ?thesis
    proof (cases d2 rule: NoTrailingReservedChars_cases)
      case stop
      have "lexed_ok data (Token (guard_loc data d2) ''Float''
          (LiteralInfo_immediate (LiteralInfo_Infinity sign)), d2)"
        by (rule good_numeric) (simp_all add: s stop Invalid_types_def)
      then show ?thesis unfolding LexInf_def g x prod.case using True stop by simp
    next
      case (more d3)
      from more(2) sd have "suffix d3 data" by (rule suffix_order.trans)
      from LexReserved_good[OF this] show ?thesis
        unfolding LexInf_def g x prod.case using True more by simp
    qed
  qed
qed

lemma LexNan_good: "lexed_ok data (LexNan data)"
proof -
  obtain sign d1 where g: "MatchSign data = (sign, d1)" by force
  have s1: "seg_ok IsHexDigit data d1" by (rule MatchSign_seg_ok[OF g])
  obtain m d2 where x: "MatchString d1 ''nan'' = (m, d2)" by force
  have s2: "seg_ok IsHexDigit d1 d2" by (rule MatchString_seg_ok[OF _ x]) simp
  have s12: "seg_ok IsHexDigit data d2" by (rule seg_ok_trans_hex[OF s1 s2])
  have s12d: "seg_ok IsDigit data d2"
    by (rule seg_ok_trans_dec[OF MatchSign_seg_ok[OF g] MatchString_seg_ok[OF _ x]]) simp
  obtain c d3 where y: "MatchChar d2 (CHR '':'') = (c, d3)" by force
  have s3: "seg_ok IsHexDigit d2 d3" by (rule MatchChar_seg_ok[OF _ y]) simp
  have s13: "seg_ok IsHexDigit data d3" by (rule seg_ok_trans_hex[OF s12 s3])
  obtain m2 d4 where z: "MatchString d3 ''0x'' = (m2, d4)" by force
  have s4: "seg_ok IsHexDigit d3 d4" by (rule MatchString_seg_ok[OF _ z]) simp
  have s14: "seg_ok IsHexDigit data d4" by (rule seg_ok_trans_hex[OF s13 s4])
  obtain ok hu d5 where n: "MatchHexNum d4 No = (ok, hu, d5)"
    by (cases "MatchHexNum d4 No") auto
  from MatchHexNum_seg_ok[OF n] have s5: "seg_ok IsHexDigit d4 d5" by simp
  have s15: "seg_ok IsHexDigit data d5" by (rule seg_ok_trans_hex[OF s14 s5])
  show ?thesis
  proof (cases m)
    case False
    then show ?thesis unfolding LexNan_def g x prod.case
      using LexReserved_good[OF seg_ok_suffix[OF s12]] by simp
  next
    case m: True
    show ?thesis
    proof (cases c)
      case False
      then have d3: "d3 = d2" using MatchChar_cases[OF y] by simp
      show ?thesis
      proof (cases d2 rule: NoTrailingReservedChars_cases)
        case stop
        have "lexed_ok data (Token (guard_loc data d2) ''Float''
            (LiteralInfo_immediate (LiteralInfo_Nan sign)), d2)"
          by (rule good_numeric) (simp_all add: s12d stop Invalid_types_def)
        then show ?thesis unfolding LexNan_def g x y prod.case using m False d3 stop by simp
      next
        case (more d')
        from more(2) seg_ok_suffix[OF s12] have "suffix d' data" by (rule suffix_order.trans)
        from LexReserved_good[OF this] show ?thesis
          unfolding LexNan_def g x y prod.case using m False d3 more by simp
      qed
    next
      case c: True
      show ?thesis
      proof (cases "m2 \<and> ok")
        case False
        then consider "\<not> m2" | "m2" "\<not> ok" by blast
        then show ?thesis
        proof cases
          case 1
          then show ?thesis unfolding LexNan_def g x y z prod.case
            using m c LexReserved_good[OF seg_ok_suffix[OF s14]] by simp
        next
          case 2
          then show ?thesis unfolding LexNan_def g x y z n prod.case
            using m c LexReserved_good[OF seg_ok_suffix[OF s15]] by simp
        qed
      next
        case True
        show ?thesis
        proof (cases d5 rule: NoTrailingReservedChars_cases)
          case stop
          have "lexed_ok data (Token (guard_loc data d5) ''Float''
              (LiteralInfo_immediate (LiteralInfo_NanPayload sign hu)), d5)"
            by (rule good_numeric) (simp_all add: s15 stop Invalid_types_def)
          then show ?thesis unfolding LexNan_def g x y z n prod.case using m c True stop by simp
        next
          case (more d')
          from more(2) seg_ok_suffix[OF s15] have "suffix d' data" by (rule suffix_order.trans)
          from LexReserved_good[OF this] show ?thesis
            unfolding LexNan_def g x y z n prod.case using m c True more by simp
        qed
      qed
    qed
  qed
qed

lemma LexNameEqNum_good:
  assumes "tt \<notin> set Invalid_types" and "tt \<notin> set Numeric_types"
  shows "lexed_ok data (LexNameEqNum data sv tt)"
proof -
  note res = LexReserved_good[OF suffix_order.refl, of data]
  have tok: "\<And>d l imm. suffix d data \<Longrightarrow> lexed_ok data (Token l tt imm, d)"
    using assms by (intro good_plain)
  obtain m d1 where x: "MatchString data sv = (m, d1)" by force
  from MatchString_cases[OF x] have s1: "suffix d1 data" by (auto simp: suffix_def)
  obtain m2 d2 where z: "MatchString d1 ''0x'' = (m2, d2)" by force
  from MatchString_cases[OF z] s1 have s2: "suffix d2 data"
    by (auto simp: suffix_def)
  obtain ok hu d3 where n: "MatchHexNum d2 No = (ok, hu, d3)"
    by (cases "MatchHexNum d2 No") auto
  from MatchHexNum_seg_ok[OF n] s2 have s3: "suffix d3 data"
    by (meson seg_ok_suffix suffix_order.trans)
  obtain ok' hu' d3' where n': "MatchNum d2 No = (ok', hu', d3')"
    by (cases "MatchNum d2 No") auto
  from MatchNum_seg_ok[OF n'] s2 have s3': "suffix d3' data"
    by (meson seg_ok_suffix suffix_order.trans)
  obtain b d4 where nt: "NoTrailingReservedChars d3 = (b, d4)" by force
  from NoTrailingReservedChars_suffix[OF nt] s3 have s4: "suffix d4 data"
    by (rule suffix_order.trans)
  obtain b' d4' where nt': "NoTrailingReservedChars d3' = (b', d4')" by force
  from NoTrailingReservedChars_suffix[OF nt'] s3' have s4': "suffix d4' data"
    by (rule suffix_order.trans)
  show ?thesis
    unfolding LexNameEqNum_def x z n n' nt nt' prod.case
    using res tok[OF s4] tok[OF s4']
    by (cases m; cases m2; cases ok; cases ok'; cases b; cases b'; simp)
qed

lemma LexKeyword_token_good:
  assumes "tt \<notin> set Invalid_types"
    and "tt \<in> set Numeric_types \<longrightarrow> CHR ''_'' \<notin> set sv \<and> \<not> is_hex_literal imm"
  shows "lexed_ok data (LexKeyword_token data sv tt imm)"
proof -
  note res = LexReserved_good[OF suffix_order.refl, of data]
  obtain m d1 where x: "MatchString data sv = (m, d1)" by force
  show ?thesis
  proof (cases m)
    case False
    then show ?thesis unfolding LexKeyword_token_def x prod.case using res by simp
  next
    case True
    with MatchString_cases[OF x] have d: "data = sv @ d1" by simp
    show ?thesis
    proof (cases d1 rule: NoTrailingReservedChars_cases)
      case (more d')
      then show ?thesis unfolding LexKeyword_token_def x prod.case using res True by simp
    next
      case stop
      have "lexed_ok data (Token (guard_loc data d1) tt imm, d1)"
      proof (cases "tt \<in> set Numeric_types")
        case False
        show ?thesis by (rule good_plain[OF _ assms(1) False]) (simp add: d suffix_def)
      next
        case True
        with assms(2) have u: "CHR ''_'' \<notin> set sv" and h: "\<not> is_hex_literal imm" by simp_all
        from seg_ok_none[OF u, of IsDigit d1] have "seg_ok IsDigit data d1" unfolding d .
        then show ?thesis using h stop(2) assms(1) by (intro good_numeric) simp_all
      qed
      then show ?thesis unfolding LexKeyword_token_def x prod.case using True stop by simp
    qed
  qed
qed

lemma call_good: "call_ok k \<Longrightarrow> lexed_ok data (call k data)"
proof (cases k)
  case (KwToken sv tt)
  then show "call_ok k \<Longrightarrow> ?thesis"
    by (simp add: LexKeyword_tt_def) (rule LexKeyword_token_good, simp_all)
next
  case (KwOpcode sv o' f)
  then show "call_ok k \<Longrightarrow> ?thesis"
    by (simp add: LexKeyword_o_def)
       (rule LexKeyword_token_good, simp_all add: Invalid_types_def Numeric_types_def)
next
  case (KwTokenOpcode sv tt o' f)
  then show "call_ok k \<Longrightarrow> ?thesis"
    by (simp add: LexKeyword_tt_o_def) (rule LexKeyword_token_good, simp_all)
next
  case (KwValueType sv vt)
  then show "call_ok k \<Longrightarrow> ?thesis"
    by (simp add: LexKeyword_vt_def)
       (rule LexKeyword_token_good, simp_all add: Invalid_types_def Numeric_types_def)
next
  case (KwReferenceType sv tt rt)
  then show "call_ok k \<Longrightarrow> ?thesis"
    by (simp add: LexKeyword_tt_rt_def) (rule LexKeyword_token_good, simp_all)
next
  case (KwLiteralKind sv tt lk)
  then show "call_ok k \<Longrightarrow> ?thesis"
    by (simp add: LexKeyword_tt_lk_def) (rule LexKeyword_token_good, simp_all)
next
  case (KwNameEqNum sv tt)
  then show "call_ok k \<Longrightarrow> ?thesis"
    by simp (rule LexNameEqNum_good, simp_all)
next
  case KwLexNan
  then show "call_ok k \<Longrightarrow> ?thesis" by (simp add: LexNan_good)
qed

lemma switch_good:
  "list_all call_ok (calls t) \<Longrightarrow> switch t data = Some r \<Longrightarrow> lexed_ok data r"
  by (induction t) (auto simp: call_good split: if_splits)

lemmas keywords_inl_defs =
  keywords_inl_def keywords_inl_1_def keywords_inl_2_def keywords_inl_3_def keywords_inl_4_def
  keywords_inl_5_def keywords_inl_6_def keywords_inl_7_def keywords_inl_8_def keywords_inl_9_def
  keywords_inl_10_def keywords_inl_11_def keywords_inl_12_def keywords_inl_13_def
  keywords_inl_14_def keywords_inl_15_def keywords_inl_16_def keywords_inl_17_def
  keywords_inl_18_def keywords_inl_19_def keywords_inl_20_def keywords_inl_21_def
  keywords_inl_22_def keywords_inl_23_def keywords_inl_24_def

lemma keywords_inl_calls_ok: "list_all call_ok (calls keywords_inl)"
  by (simp add: keywords_inl_defs Invalid_types_def Numeric_types_def)

lemma good_ifI: "(c \<Longrightarrow> lexed_ok d a) \<Longrightarrow> (\<not> c \<Longrightarrow> lexed_ok d b) \<Longrightarrow> lexed_ok d (if c then a else b)"
  by simp

lemma SkipChar_suffix: "suffix (SkipChar data) data"
  by (simp add: SkipChar_def suffix_drop)

lemma good_one_char:
  "data \<noteq> [] \<Longrightarrow> tt \<notin> set Numeric_types \<Longrightarrow>
     lexed_ok data (Token l tt imm, SkipChar data)"
  by (intro good_invalid SkipChar_suffix) (simp_all add: SkipChar_def)

lemma MatchString_False: "MatchString data sv = (False, d) \<Longrightarrow> d = data"
  by (auto dest: MatchString_cases)

lemma Lex_sign_good: "lexed_ok data (Lex_sign data)"
proof -
  obtain m d where x: "MatchString (SkipChar data) ''0x'' = (m, d)" by force
  have n: "lexed_ok data (LexNumber data ''Int'')" by (rule LexNumber_good) simp
  have h: "lexed_ok data (LexHexNumber data ''Int'')" by (rule LexHexNumber_good) simp
  have z: "lexed_ok data (case MatchString (SkipChar data) ''0x'' of
      (True, data') \<Rightarrow> LexHexNumber data ''Int'' | (False, data') \<Rightarrow> LexNumber data ''Int'')"
    unfolding x prod.case using n h by (cases m) simp_all
  show ?thesis
    unfolding Lex_sign_def Let_def
    by (intro good_ifI LexInf_good LexNan_good z n LexReserved_good suffix_order.refl)
qed

lemma Lex_good: "lexed_ok data (Lex data)"
  unfolding Lex_def Let_def
proof (intro good_ifI)
  show "lexed_ok data (Token data ''Eof'' monostate, data)"
    by (intro good_plain) (simp_all add: Invalid_types_def Numeric_types_def)
next
  assume ne: "PeekChar data 0 \<noteq> - 1"
  then have d: "data \<noteq> []" by (simp add: PeekChar_0_eof)
  obtain m1 d1 where x1: "MatchString data ''(;'' = (m1, d1)" by force
  obtain m2 d2 where x2: "MatchString data ''(@'' = (m2, d2)" by force
  have lpar: "lexed_ok data (Token (guard_loc data (SkipChar data)) ''Lpar'' monostate, SkipChar data)"
    by (rule good_one_char[OF d]) (simp add: Numeric_types_def)
  show "lexed_ok data
     (case MatchString data ''(;'' of (True, data1) \<Rightarrow> LexBlockComment data
      | (False, data1) \<Rightarrow>
          (case MatchString data1 ''(@'' of (True, data2) \<Rightarrow> LexAnnotation data
           | (False, data2) \<Rightarrow>
               (Token (guard_loc data (SkipChar data2)) ''Lpar'' monostate, SkipChar data2)))"
  proof (cases m1)
    case True
    then show ?thesis unfolding x1 prod.case using LexBlockComment_good[OF d] by simp
  next
    case False
    with x1 have e: "d1 = data" by (simp add: MatchString_False)
    show ?thesis
    proof (cases m2)
      case True
      then show ?thesis unfolding x1 prod.case using False e x2 LexAnnotation_good by simp
    next
      case m2: False
      with x2 have "d2 = data" by (simp add: MatchString_False)
      then show ?thesis unfolding x1 prod.case using False e x2 m2 lpar by simp
    qed
  qed
next
  assume ne: "PeekChar data 0 \<noteq> - 1"
  then have d: "data \<noteq> []" by (simp add: PeekChar_0_eof)
  show "lexed_ok data (Token (guard_loc data (SkipChar data)) ''Rpar'' monostate, SkipChar data)"
    by (rule good_one_char[OF d]) (simp add: Numeric_types_def)
next
  assume ne: "PeekChar data 0 \<noteq> - 1"
  then have d: "data \<noteq> []" by (simp add: PeekChar_0_eof)
  obtain m d1 where x: "MatchString data '';;'' = (m, d1)" by force
  have inv: "lexed_ok data (Token (guard_loc data (SkipChar data)) ''InvalidChar'' monostate,
      SkipChar data)"
    by (rule good_one_char[OF d]) (simp add: Numeric_types_def)
  show "lexed_ok data
     (case MatchString data '';;'' of (True, data1) \<Rightarrow> LexLineComment data
      | (False, data1) \<Rightarrow>
          (Token (guard_loc data (SkipChar data1)) ''InvalidChar'' monostate, SkipChar data1))"
  proof (cases m)
    case True
    then show ?thesis unfolding x prod.case using LexLineComment_good[OF d] by simp
  next
    case False
    with x have "d1 = data" by (simp add: MatchString_False)
    then show ?thesis unfolding x prod.case using False inv by simp
  qed
next
  show "lexed_ok data (LexWhitespace data)" by (rule LexWhitespace_good)
next
  assume "PeekChar data 0 = of_char (CHR 0x22)"
  then show "lexed_ok data (LexText data)" by (rule LexText_good)
next
  show "lexed_ok data (Lex_sign data)" by (rule Lex_sign_good)
next
  obtain m d1 where x: "MatchString data ''0x'' = (m, d1)" by force
  have n: "lexed_ok data (LexNumber data ''Nat'')" by (rule LexNumber_good) simp
  have h: "lexed_ok data (LexHexNumber data ''Nat'')" by (rule LexHexNumber_good) simp
  show "lexed_ok data
     (case MatchString data ''0x'' of (True, data1) \<Rightarrow> LexHexNumber data ''Nat''
      | (False, data1) \<Rightarrow> LexNumber data1 ''Nat'')"
  proof (cases m)
    case True
    then show ?thesis unfolding x prod.case using h by simp
  next
    case False
    with x have "d1 = data" by (simp add: MatchString_False)
    then show ?thesis unfolding x prod.case using False n by simp
  qed
next
  show "lexed_ok data (LexNumber data ''Nat'')" by (rule LexNumber_good) simp
next
  show "lexed_ok data (LexId data)" by (rule LexId_good)
next
  assume ne: "PeekChar data 0 \<noteq> - 1"
  then have d: "data \<noteq> []" by (simp add: PeekChar_0_eof)
  have inv: "lexed_ok data (Token (guard_loc data (SkipChar data)) ''InvalidChar'' monostate,
      SkipChar data)"
    by (rule good_one_char[OF d]) (simp add: Numeric_types_def)
  show "lexed_ok data
     (case switch keywords_inl data of None \<Rightarrow>
         if IsReserved (PeekChar data 0) then LexReserved data
         else (Token (guard_loc data (SkipChar data)) ''InvalidChar'' monostate, SkipChar data)
      | Some result \<Rightarrow> result)"
  proof (cases "switch keywords_inl data")
    case None
    then show ?thesis using inv LexReserved_good[OF suffix_order.refl, of data] by simp
  next
    case (Some r)
    from switch_good[OF keywords_inl_calls_ok Some] show ?thesis using Some by simp
  qed
qed

subsection \<open>The two spellings of a conversion\<close>

lemma switch_trunc_s_f32:
  "switch keywords_inl (''i32.trunc_s/f32'' @ rest) =
     Some (LexKeyword_o (''i32.trunc_s/f32'' @ rest) ''i32.trunc_s/f32'' ''I32TruncF32S'' [])"
  by (simp add: keywords_inl_defs)

lemma switch_trunc_f32_s:
  "switch keywords_inl (''i32.trunc_f32_s'' @ rest) =
     Some (LexKeyword_o (''i32.trunc_f32_s'' @ rest) ''i32.trunc_f32_s'' ''I32TruncF32S'' [])"
  by (simp add: keywords_inl_defs)

lemma guard_loc_append: "guard_loc (pre @ rest) rest = pre"
  by (simp add: guard_loc_def)

lemma LexKeyword_o_match:
  assumes "\<not> IsReserved (PeekChar rest 0)"
  shows "LexKeyword_o (sv @ rest) sv o' f = (Token sv ''BareInstr'' (OpcodeInfo o' f), rest)"
  unfolding LexKeyword_o_def LexKeyword_token_def
  by (simp only: MatchString_append prod.case bool.case NoTrailingReservedChars_def
      ReadReservedChars_stop[OF assms] guard_loc_append refl simp_thms if_True)

lemma Lex_keyword_start:
  assumes "c = CHR ''i''"
  shows "Lex (c # cs) =
    (case switch keywords_inl (c # cs) of
       None \<Rightarrow> if IsReserved (PeekChar (c # cs) 0) then LexReserved (c # cs)
               else (Token (guard_loc (c # cs) (SkipChar (c # cs))) ''InvalidChar'' monostate,
                     SkipChar (c # cs))
     | Some result \<Rightarrow> result)"
  unfolding Lex_def Let_def assms by simp

text \<open>
  Claim C7.  When no reserved character follows, lexing \<open>i32.trunc_s/f32\<close> and lexing
  \<open>i32.trunc_f32_s\<close> both return a \<open>BareInstr\<close> token with the opcode
  \<open>I32TruncF32S\<close> (and no feature bit); the two tokens differ in their locations only,
  and the span is left at what follows the keyword.
\<close>

theorem Lex_trunc_spellings:
  assumes "\<not> IsReserved (PeekChar rest 0)"
  shows "Lex (''i32.trunc_s/f32'' @ rest) =
           (Token ''i32.trunc_s/f32'' ''BareInstr'' (OpcodeInfo ''I32TruncF32S'' []), rest) \<and>
         Lex (''i32.trunc_f32_s'' @ rest) =
           (Token ''i32.trunc_f32_s'' ''BareInstr'' (OpcodeInfo ''I32TruncF32S'' []), rest)"
proof
  have "Lex (''i32.trunc_s/f32'' @ rest) =
      LexKeyword_o (''i32.trunc_s/f32'' @ rest) ''i32.trunc_s/f32'' ''I32TruncF32S'' []"
    using switch_trunc_s_f32[of rest] Lex_keyword_start[OF refl, of "''32.trunc_s/f32'' @ rest"]
    by simp
  then show "Lex (''i32.trunc_s/f32'' @ rest) =
      (Token ''i32.trunc_s/f32'' ''BareInstr'' (OpcodeInfo ''I32TruncF32S'' []), rest)"
    by (simp only: LexKeyword_o_match[OF assms])
next
  have "Lex (''i32.trunc_f32_s'' @ rest) =
      LexKeyword_o (''i32.trunc_f32_s'' @ rest) ''i32.trunc_f32_s'' ''I32TruncF32S'' []"
    using switch_trunc_f32_s[of rest] Lex_keyword_start[OF refl, of "''32.trunc_f32_s'' @ rest"]
    by simp
  then show "Lex (''i32.trunc_f32_s'' @ rest) =
      (Token ''i32.trunc_f32_s'' ''BareInstr'' (OpcodeInfo ''I32TruncF32S'' []), rest)"
    by (simp only: LexKeyword_o_match[OF assms])
qed

theorem Lex_trunc_spellings_witness:
  "Lex ''i32.trunc_s/f32'' =
     (Token ''i32.trunc_s/f32'' ''BareInstr'' (OpcodeInfo ''I32TruncF32S'' []), []) \<and>
   Lex ''i32.trunc_f32_s)'' =
     (Token ''i32.trunc_f32_s'' ''BareInstr'' (OpcodeInfo ''I32TruncF32S'' []), '')'')"
proof -
  have a: "\<not> IsReserved (PeekChar [] 0)" by simp
  have b: "\<not> IsReserved (PeekChar '')'' 0)"
    by (simp add: IsReserved_def IsCharClass_def kCharClasses_def)
  show ?thesis
    using Lex_trunc_spellings[OF a] Lex_trunc_spellings[OF b] by simp
qed

subsection \<open>Totality and progress\<close>

text \<open>
  \<open>Lex\<close> is a total function: each of its loops is defined with a proof that every
  iteration consumes at least one byte.  Its call on any input returns a token and a span
  that is what is left of the input, and a token of one of the types \<open>InvalidChar\<close>,
  \<open>InvalidText\<close>, \<open>InvalidLineComment\<close>, \<open>InvalidBlockComment\<close> has consumed at
  least one byte.
\<close>

lemma Lex_suffix_invalid_progress:
  "\<exists>tok data'. Lex data = (tok, data') \<and> suffix data' data \<and>
     (type tok \<in> set Invalid_types \<longrightarrow> length data' + 1 \<le> length data)"
proof -
  obtain tok data' where l: "Lex data = (tok, data')" by force
  from Lex_good[of data] have "suffix data' data"
    and "type tok \<in> set Invalid_types \<longrightarrow> length data' < length data"
    unfolding lexed_ok_def l by simp_all
  then show ?thesis using l by auto
qed

lemma IsReserved_lpar: "\<not> IsReserved (of_char (CHR ''(''))"
  by code_simp

text \<open>
  Claim C4 says that a call of \<open>Lex\<close> on an input that is not empty makes progress: it
  returns a token and does not leave the span where it was.  On every input that begins
  with \<open>(@\<close> the call does not: \<open>Lex\<close> matches \<open>(@\<close>, resets the span to its start and
  calls \<open>LexAnnotation\<close>, which reads reserved characters only, and \<open>(\<close> is not one.
  The token is \<open>LparAnn\<close> with the empty location, and the span is returned as it was
  given, so that the next call does the same.  On \<open>{}a\<close> the switch on the keywords
  (on the character at position 2, then at position 5) reaches the keyword \<open>start\<close>,
  which does not match, and \<open>LexReserved\<close> on the span reset to its start reads
  nothing, as \<open>{\<close> is not a reserved character: the token is an empty \<open>Reserved\<close>,
  the span again unchanged.
\<close>

theorem Lex_annotation_no_progress:
  "Lex (CHR ''('' # CHR ''@'' # rest) = (Token [] ''LparAnn'' monostate, CHR ''('' # CHR ''@'' # rest) \<and>
   Lex ''{}a'' = (Token [] ''Reserved'' monostate, ''{}a'')"
proof -
  have r: "ReadReservedChars (CHR ''('' # CHR ''@'' # rest) = (0, CHR ''('' # CHR ''@'' # rest)"
    using IsReserved_lpar by (subst ReadReservedChars.simps) (simp add: PeekChar_def)
  have m1: "MatchString (CHR ''('' # CHR ''@'' # rest) ''(;'' = (False, CHR ''('' # CHR ''@'' # rest)"
    by (simp add: MatchString_def MatchChar_def PeekChar_def SkipChar_def)
  have m2: "MatchString (CHR ''('' # CHR ''@'' # rest) ''(@'' = (True, rest)"
    by (simp add: MatchString_def MatchChar_def PeekChar_def SkipChar_def)
  have p: "PeekChar (CHR ''('' # CHR ''@'' # rest) 0 = of_char (CHR ''('')"
    by (simp add: PeekChar_def)
  have a: "Lex (CHR ''('' # CHR ''@'' # rest) = (Token [] ''LparAnn'' monostate, CHR ''('' # CHR ''@'' # rest)"
    using p m1 m2 r by (simp add: Lex_def Let_def LexAnnotation_def guard_loc_def)
  have b: "Lex ''{}a'' = (Token [] ''Reserved'' monostate, ''{}a'')"
    by code_simp
  from a b show ?thesis by (rule conjI)
qed

subsection \<open>Underscores in numbers\<close>

text \<open>
  Claim C10.  Let \<open>Lex\<close> return a token of type \<open>Nat\<close>, \<open>Int\<close> or \<open>Float\<close>.  Then the
  text of the token is the input up to the first character that is not reserved (the
  whole run of reserved characters), and every underscore in it has a character before
  it and one after it in the text, both of them digits; in a hex literal they are hex
  digits.  So an input whose run has an underscore at its start, at its end, or next to
  another underscore is not lexed as a number.
\<close>

theorem Lex_numeric_underscores:
  assumes "Lex data = (tok, data')" and "type tok \<in> {''Nat'', ''Int'', ''Float''}"
  shows "data = loc tok @ data' \<and> \<not> IsReserved (PeekChar data' 0) \<and>
    (\<forall>i < length (loc tok). loc tok ! i = CHR ''_'' \<longrightarrow>
       0 < i \<and> i + 1 < length (loc tok) \<and>
       digit_class tok (of_char (loc tok ! (i - 1))) \<and>
       digit_class tok (of_char (loc tok ! (i + 1))))"
proof -
  from assms(2) have "type tok \<in> set Numeric_types" by (simp add: Numeric_types_def)
  with Lex_good[of data] have n: "numeric_ok data tok data'"
    unfolding lexed_ok_def assms(1) by simp
  then have u: "underscores_ok (digit_class tok) (- 1) (loc tok)"
    by (simp add: numeric_ok_def)
  have "\<forall>i < length (loc tok). loc tok ! i = CHR ''_'' \<longrightarrow>
       0 < i \<and> i + 1 < length (loc tok) \<and>
       digit_class tok (of_char (loc tok ! (i - 1))) \<and>
       digit_class tok (of_char (loc tok ! (i + 1)))"
    using underscores_ok_neighbours[OF digit_class_eof u] by blast
  then show ?thesis using n by (simp add: numeric_ok_def)
qed

theorem Lex_numeric_underscores_witness:
  "Lex ''1_000 '' =
     (Token ''1_000'' ''Nat'' (LiteralInfo_immediate (LiteralInfo_Number Sign_None Yes)), '' '') \<and>
   IsDigit (of_char (CHR ''1'')) \<and> IsDigit (of_char (CHR ''0''))"
proof -
  let ?tok = "Token ''1_000'' ''Nat'' (LiteralInfo_immediate (LiteralInfo_Number Sign_None Yes))"
  have e: "Lex ''1_000 '' = (?tok, '' '')" by code_simp
  have t: "type ?tok \<in> {''Nat'', ''Int'', ''Float''}" by simp
  have c: "digit_class ?tok = IsDigit" by (simp add: digit_class_def)
  from Lex_numeric_underscores[OF e t]
  have q: "\<forall>i < length (loc ?tok). loc ?tok ! i = CHR ''_'' \<longrightarrow>
       0 < i \<and> i + 1 < length (loc ?tok) \<and>
       digit_class ?tok (of_char (loc ?tok ! (i - 1))) \<and>
       digit_class ?tok (of_char (loc ?tok ! (i + 1)))"
    by blast
  have i1: "1 < length (loc ?tok)" and u1: "loc ?tok ! 1 = CHR ''_''" by simp_all
  from q[rule_format, OF i1 u1]
  have "IsDigit (of_char (loc ?tok ! (1 - 1))) \<and> IsDigit (of_char (loc ?tok ! (1 + 1)))"
    unfolding c by blast
  then have "IsDigit (of_char (CHR ''1'')) \<and> IsDigit (of_char (CHR ''0''))" by simp
  then show ?thesis using e by simp
qed

subsection \<open>Lexing the location of a token again\<close>

text \<open>
  Claim C5 says that lexing the text a token's location designates gives a token of the
  same type, also on the failure paths of \<open>LexInf\<close> and \<open>LexNan\<close>.  On \<open>+inf3\<close> the
  match of \<open>LexInf\<close> fails after the whole input has been read, and \<open>LexReserved\<close> is
  called on the span as it is then: the token is \<open>Reserved\<close> with the empty location at
  the end of the input, and lexing that location gives \<open>Eof\<close>.
\<close>

theorem Lex_inf_failure_location:
  "Lex ''+inf3'' = (Token [] ''Reserved'' monostate, []) \<and>
   Lex (loc (fst (Lex ''+inf3''))) = (Token [] ''Eof'' monostate, [])"
  by code_simp

end
